theory Spec2Isabelle
  imports Main "HOL-Library.AList"
begin

section \<open>Values of the JavaScript runtime\<close>

text \<open>
  The server receives its requests, its client-secret file and its token file as JSON.
  A parsed JSON text is a value of \<open>json\<close>; a JavaScript expression that may also be
  \<^verbatim>\<open>undefined\<close> is a \<open>jsval\<close>, with \<open>None\<close> for \<^verbatim>\<open>undefined\<close>.
  A number is an integer \<open>JNum i\<close>; a finite number that is not an integer, \<open>JDec neg s n\<close>
  with its sign, its significant decimal digits \<open>s\<close> and the position \<open>n\<close> of the decimal
  point behind the first \<open>n\<close> digits, so that \<^verbatim>\<open>0.25\<close> is \<open>JDec False ''25'' 0\<close>;
  \<^verbatim>\<open>NaN\<close>; or an infinity \<open>JInf neg\<close>.
  An object is the list of its members, each name once; a member is read with \<open>map_of\<close>.
\<close>

datatype json =
    JNull
  | JBool bool
  | JNum int
  | JDec bool string int
  | JNaN
  | JInf bool
  | JStr string
  | JArr "json list"
  | JObj "(string \<times> json) list"

type_synonym jsval = "json option"

text \<open>JavaScript truthiness: \<^verbatim>\<open>null\<close>, \<^verbatim>\<open>false\<close>, \<^verbatim>\<open>0\<close>, \<^verbatim>\<open>NaN\<close>, the empty
  string and \<^verbatim>\<open>undefined\<close> are falsy, every other value is truthy.\<close>

fun truthy_json :: "json \<Rightarrow> bool" where
  "truthy_json JNull = False"
| "truthy_json (JBool b) = b"
| "truthy_json (JNum n) = (n \<noteq> 0)"
| "truthy_json (JDec neg s n) = True"
| "truthy_json JNaN = False"
| "truthy_json (JInf neg) = True"
| "truthy_json (JStr s) = (s \<noteq> [])"
| "truthy_json (JArr xs) = True"
| "truthy_json (JObj kvs) = True"

fun truthy :: "jsval \<Rightarrow> bool" where
  "truthy None = False"
| "truthy (Some j) = truthy_json j"

text \<open>\<^verbatim>\<open>a || b\<close>: the left operand when it is truthy, the right operand otherwise.\<close>

definition js_or :: "jsval \<Rightarrow> jsval \<Rightarrow> jsval" where
  "js_or a b = (if truthy a then a else b)"

text \<open>Exceptions. \<open>TypeError\<close>, \<open>SyntaxError\<close> and \<open>IOError\<close> are thrown by the runtime
  (member access on \<^verbatim>\<open>null\<close>/\<^verbatim>\<open>undefined\<close>, \<^verbatim>\<open>JSON.parse\<close>, the file system);
  \<open>Error m\<close> is \<^verbatim>\<open>new Error(m)\<close>, thrown by the sources or by the Google client
  library. The runtime's own message texts are not fixed by the sources; \<open>message\<close>
  uses the name of the exception for them.\<close>

datatype exn = TypeError | SyntaxError | IOError | Error string

fun message :: "exn \<Rightarrow> string" where
  "message TypeError = ''TypeError''"
| "message SyntaxError = ''SyntaxError''"
| "message IOError = ''IOError''"
| "message (Error m) = m"

text \<open>\<^verbatim>\<open>v.k\<close> for a value that is neither \<^verbatim>\<open>null\<close> nor \<^verbatim>\<open>undefined\<close>. None of the
  member names the sources read is a built-in member of a string, number, boolean or
  array, so only objects have them.\<close>

fun get_member :: "json \<Rightarrow> string \<Rightarrow> jsval" where
  "get_member (JObj kvs) k = map_of kvs k"
| "get_member j k = None"

text \<open>\<^verbatim>\<open>v.k\<close> in general: reading a member of \<^verbatim>\<open>null\<close> or \<^verbatim>\<open>undefined\<close> throws.\<close>

fun member :: "jsval \<Rightarrow> string \<Rightarrow> exn + jsval" where
  "member None k = Inl TypeError"
| "member (Some JNull) k = Inl TypeError"
| "member (Some j) k = Inr (get_member j k)"

text \<open>\<^verbatim>\<open>v?.k\<close>: \<^verbatim>\<open>undefined\<close> instead of the exception.\<close>

fun opt_member :: "jsval \<Rightarrow> string \<Rightarrow> jsval" where
  "opt_member None k = None"
| "opt_member (Some JNull) k = None"
| "opt_member (Some j) k = get_member j k"

section \<open>Identifier extraction (tools/docs.ts, tools/sheets.ts)\<close>

text \<open>\<^verbatim>\<open>s.includes(sub)\<close>.\<close>

definition starts_with :: "string \<Rightarrow> string \<Rightarrow> bool" where
  "starts_with s pre = (take (length pre) s = pre)"

fun str_includes :: "string \<Rightarrow> string \<Rightarrow> bool" where
  "str_includes [] sub = (sub = [])"
| "str_includes (c # cs) sub = (starts_with (c # cs) sub \<or> str_includes cs sub)"

text \<open>The character class \<^verbatim>\<open>[a-zA-Z0-9_-]\<close>.\<close>

definition id_char :: "char \<Rightarrow> bool" where
  "id_char c = (c \<in> set (''abcdefghijklmnopqrstuvwxyz'' @
                         ''ABCDEFGHIJKLMNOPQRSTUVWXYZ'' @ ''0123456789'' @ ''_-''))"

text \<open>\<^verbatim>\<open>s.match(/LIT([a-zA-Z0-9_-]+)/)\<close> for a literal \<open>lit\<close>: the leftmost position at
  which \<open>lit\<close> is followed by at least one identifier character; the capture group
  is the longest run of identifier characters there (the quantifier is greedy and
  nothing follows it). \<open>None\<close> is the \<^verbatim>\<open>null\<close> of a failed match.\<close>

fun regex_match :: "string \<Rightarrow> string \<Rightarrow> string option" where
  "regex_match lit [] = None"
| "regex_match lit (c # cs) =
     (if starts_with (c # cs) lit \<and> takeWhile id_char (drop (length lit) (c # cs)) \<noteq> []
      then Some (takeWhile id_char (drop (length lit) (c # cs)))
      else regex_match lit cs)"

definition extractDocumentId :: "string \<Rightarrow> string" where
  "extractDocumentId idOrUrl =
     (if str_includes idOrUrl ''docs.google.com''
      then (case regex_match ''/document/d/'' idOrUrl of
              Some m \<Rightarrow> m
            | None \<Rightarrow> idOrUrl)
      else idOrUrl)"

definition extractSpreadsheetId :: "string \<Rightarrow> string" where
  "extractSpreadsheetId idOrUrl =
     (if str_includes idOrUrl ''docs.google.com/spreadsheets''
      then (case regex_match ''/spreadsheets/d/'' idOrUrl of
              Some m \<Rightarrow> m
            | None \<Rightarrow> idOrUrl)
      else idOrUrl)"


section \<open>JSON texts (JSON.stringify, JSON.parse)\<close>

text \<open>
  The token file is written with \<^verbatim>\<open>JSON.stringify(tokens, null, 2)\<close> and read back with
  \<^verbatim>\<open>JSON.parse\<close>; the client-secret file and the body of an HTTP request are read with
  \<^verbatim>\<open>JSON.parse\<close> as well. Both functions are those of the ECMAScript standard and are
  modelled on texts, character by character. A string is the list of the bytes of its
  UTF-8 encoding.
\<close>

subsection \<open>Numbers\<close>

definition is_digit :: "char \<Rightarrow> bool" where
  "is_digit c = (c \<in> set ''0123456789'')"

definition digit_val :: "char \<Rightarrow> nat" where
  "digit_val c = of_char c - 48"

text \<open>The decimal digits of a natural number.\<close>

fun show_nat :: "nat \<Rightarrow> string" where
  "show_nat n =
     (if n < 10 then [''0123456789'' ! n]
      else show_nat (n div 10) @ [''0123456789'' ! (n mod 10)])"

declare show_nat.simps [simp del]

definition read_nat :: "string \<Rightarrow> nat" where
  "read_nat ds = foldl (\<lambda>a c. 10 * a + digit_val c) 0 ds"

definition strip_zeros :: "string \<Rightarrow> string" where
  "strip_zeros s = rev (dropWhile (\<lambda>c. c = CHR ''0'') (rev s))"

text \<open>\<^verbatim>\<open>Number::toString\<close> for a number with the significant digits \<open>s\<close> and the decimal
  point after the first \<open>n\<close> of them: plain digits below \<open>10\<^sup>2\<^sup>1\<close>, a decimal point inside
  or behind \<^verbatim>\<open>0.\<close> from \<open>10\<^sup>-\<^sup>6\<close> on, the exponent notation outside of that.\<close>

definition exponent_form :: "string \<Rightarrow> int \<Rightarrow> string" where
  "exponent_form s n =
     (case s of [] \<Rightarrow> [] | d # ds \<Rightarrow> if ds = [] then [d] else d # CHR ''.'' # ds) @
     ''e'' @ (if n - 1 < 0 then ''-'' else ''+'') @ show_nat (nat \<bar>n - 1\<bar>)"

definition digits_toString :: "string \<Rightarrow> int \<Rightarrow> string" where
  "digits_toString s n =
     (let k = int (length s) in
      if k \<le> n \<and> n \<le> 21 then s @ replicate (nat (n - k)) CHR ''0''
      else if 0 < n \<and> n \<le> 21 then take (nat n) s @ ''.'' @ drop (nat n) s
      else if - 6 < n \<and> n \<le> 0 then ''0.'' @ replicate (nat (- n)) CHR ''0'' @ s
      else exponent_form s n)"

definition int_toString :: "int \<Rightarrow> string" where
  "int_toString i =
     (if i = 0 then ''0''
      else (if i < 0 then ''-'' else []) @
           digits_toString (strip_zeros (show_nat (nat \<bar>i\<bar>))) (int (length (show_nat (nat \<bar>i\<bar>)))))"

definition dec_toString :: "bool \<Rightarrow> string \<Rightarrow> int \<Rightarrow> string" where
  "dec_toString neg s n = (if neg then ''-'' else []) @ digits_toString s n"

text \<open>The value of a number token with the integer digits \<open>I\<close>, the fraction digits \<open>F\<close>
  and the exponent \<open>e\<close>: an integer when no digit is left behind the decimal point, its
  significant digits and the position of the point otherwise.\<close>

definition number_value :: "bool \<Rightarrow> string \<Rightarrow> string \<Rightarrow> int \<Rightarrow> json" where
  "number_value neg I F e =
     (let D = I @ F;
          z = length (takeWhile (\<lambda>c. c = CHR ''0'') D);
          s = strip_zeros (dropWhile (\<lambda>c. c = CHR ''0'') D);
          k = int (length s);
          n = int (length I) - int z + e
      in if s = [] then JNum 0
         else if k \<le> n then
           JNum ((if neg then - 1 else 1) * int (read_nat (s @ replicate (nat (n - k)) CHR ''0'')))
         else JDec neg s n)"

text \<open>The number token of the JSON grammar: an optional minus sign, \<^verbatim>\<open>0\<close> or digits without
  a leading zero, an optional fraction, an optional exponent.\<close>

definition parse_fraction :: "string \<Rightarrow> (string \<times> string) option" where
  "parse_fraction r =
     (case r of
        [] \<Rightarrow> Some ([], r)
      | c # r' \<Rightarrow>
          if c = CHR ''.'' then
            (if takeWhile is_digit r' = [] then None
             else Some (takeWhile is_digit r', dropWhile is_digit r'))
          else Some ([], r))"

definition parse_exponent :: "string \<Rightarrow> (int \<times> string) option" where
  "parse_exponent r =
     (case r of
        [] \<Rightarrow> Some (0, r)
      | c # r' \<Rightarrow>
          if c = CHR ''e'' \<or> c = CHR ''E'' then
            (let neg = (case r' of [] \<Rightarrow> False | s # t \<Rightarrow> s = CHR ''-'');
                 r'' = (case r' of [] \<Rightarrow> r' | s # t \<Rightarrow> if s = CHR ''-'' \<or> s = CHR ''+'' then t else r')
             in if takeWhile is_digit r'' = [] then None
                else Some ((if neg then - 1 else 1) * int (read_nat (takeWhile is_digit r'')),
                           dropWhile is_digit r''))
          else Some (0, r))"

definition parse_number :: "string \<Rightarrow> (json \<times> string) option" where
  "parse_number s =
     (let neg = (case s of [] \<Rightarrow> False | c # r \<Rightarrow> c = CHR ''-'');
          s1 = (if neg then tl s else s)
      in case s1 of
           [] \<Rightarrow> None
         | d # r \<Rightarrow>
             if \<not> is_digit d then None
             else
               (let I = (if d = CHR ''0'' then [d] else d # takeWhile is_digit r);
                    r1 = (if d = CHR ''0'' then r else dropWhile is_digit r)
                in case parse_fraction r1 of
                     None \<Rightarrow> None
                   | Some (F, r2) \<Rightarrow>
                       (case parse_exponent r2 of
                          None \<Rightarrow> None
                        | Some (e, r3) \<Rightarrow> Some (number_value neg I F e, r3))))"

subsection \<open>Strings\<close>

text \<open>\<^verbatim>\<open>QuoteJSONString\<close>: the quotation mark, the backslash and the control characters
  are escaped, every other character is copied.\<close>

definition hex_digit :: "nat \<Rightarrow> char" where
  "hex_digit n = ''0123456789abcdef'' ! n"

definition escape_char :: "char \<Rightarrow> string" where
  "escape_char c =
     (if c = CHR 0x22 then [CHR 0x5C, CHR 0x22]
      else if c = CHR 0x5C then [CHR 0x5C, CHR 0x5C]
      else if c = CHR 0x08 then [CHR 0x5C, CHR ''b'']
      else if c = CHR 0x0C then [CHR 0x5C, CHR ''f'']
      else if c = CHR 0x0A then [CHR 0x5C, CHR ''n'']
      else if c = CHR 0x0D then [CHR 0x5C, CHR ''r'']
      else if c = CHR 0x09 then [CHR 0x5C, CHR ''t'']
      else if (of_char c :: nat) < 32 then
        [CHR 0x5C, CHR ''u'', CHR ''0'', CHR ''0'', hex_digit (of_char c div 16), hex_digit (of_char c mod 16)]
      else [c])"

definition quote :: "string \<Rightarrow> string" where
  "quote s = [CHR 0x22] @ concat (map escape_char s) @ [CHR 0x22]"

definition hex_val :: "char \<Rightarrow> nat option" where
  "hex_val c =
     (if is_digit c then Some (of_char c - 48)
      else if c \<in> set ''abcdef'' then Some (of_char c - 87)
      else if c \<in> set ''ABCDEF'' then Some (of_char c - 55)
      else None)"

fun hex4 :: "string \<Rightarrow> (nat \<times> string) option" where
  "hex4 (a # b # c # d # rest) =
     (case (hex_val a, hex_val b, hex_val c, hex_val d) of
        (Some x, Some y, Some z, Some w) \<Rightarrow> Some (((x * 16 + y) * 16 + z) * 16 + w, rest)
      | _ \<Rightarrow> None)"
| "hex4 s = None"

definition utf8 :: "nat \<Rightarrow> string" where
  "utf8 u =
     (if u < 0x80 then [char_of u]
      else if u < 0x800 then [char_of (0xC0 + u div 64), char_of (0x80 + u mod 64)]
      else if u < 0x10000 then
        [char_of (0xE0 + u div 4096), char_of (0x80 + (u div 64) mod 64), char_of (0x80 + u mod 64)]
      else
        [char_of (0xF0 + u div 262144), char_of (0x80 + (u div 4096) mod 64),
         char_of (0x80 + (u div 64) mod 64), char_of (0x80 + u mod 64)])"

text \<open>An escape \<^verbatim>\<open>\uXXXX\<close>, with the second half of a surrogate pair when one follows.\<close>

definition unescape_unicode :: "string \<Rightarrow> (string \<times> string) option" where
  "unescape_unicode s =
     (case hex4 s of
        None \<Rightarrow> None
      | Some (u, rest) \<Rightarrow>
          if 0xD800 \<le> u \<and> u < 0xDC00 then
            (case rest of
               b # c # rest' \<Rightarrow>
                 if b = CHR 0x5C \<and> c = CHR ''u'' then
                   (case hex4 rest' of
                      Some (l, rest'') \<Rightarrow>
                        if 0xDC00 \<le> l \<and> l < 0xE000
                        then Some (utf8 (0x10000 + (u - 0xD800) * 1024 + (l - 0xDC00)), rest'')
                        else Some (utf8 u, rest)
                    | None \<Rightarrow> Some (utf8 u, rest))
                 else Some (utf8 u, rest)
             | _ \<Rightarrow> Some (utf8 u, rest))
          else Some (utf8 u, rest))"

text \<open>What follows a backslash inside a string token.\<close>

definition unescape :: "string \<Rightarrow> (string \<times> string) option" where
  "unescape s =
     (case s of
        [] \<Rightarrow> None
      | c # rest \<Rightarrow>
          if c = CHR ''u'' then unescape_unicode rest
          else if c = CHR 0x22 \<or> c = CHR 0x5C \<or> c = CHR ''/'' then Some ([c], rest)
          else if c = CHR ''b'' then Some ([CHR 0x08], rest)
          else if c = CHR ''f'' then Some ([CHR 0x0C], rest)
          else if c = CHR ''n'' then Some ([CHR 0x0A], rest)
          else if c = CHR ''r'' then Some ([CHR 0x0D], rest)
          else if c = CHR ''t'' then Some ([CHR 0x09], rest)
          else None)"

text \<open>A string token behind its opening quotation mark: the string and the text behind
  the closing quotation mark. A raw control character ends the parse with an error.\<close>

function parse_string :: "string \<Rightarrow> (string \<times> string) option" where
  "parse_string [] = None"
| "parse_string (c # cs) =
     (if c = CHR 0x22 then Some ([], cs)
      else if c = CHR 0x5C then
        (case unescape cs of
           None \<Rightarrow> None
         | Some (bs, rest) \<Rightarrow>
             if length rest < Suc (length cs)
             then map_option (\<lambda>(s, r). (bs @ s, r)) (parse_string rest)
             else None)
      else if (of_char c :: nat) < 32 then None
      else map_option (\<lambda>(s, r). (c # s, r)) (parse_string cs))"
  by pat_completeness auto
termination
  by (relation "measure length") auto

subsection \<open>JSON.stringify(value, null, 2)\<close>

text \<open>\<^verbatim>\<open>xs.join(sep)\<close> on strings.\<close>

fun join_with :: "string \<Rightarrow> string list \<Rightarrow> string" where
  "join_with sep [] = []"
| "join_with sep [x] = x"
| "join_with sep (x # y # ys) = x @ sep @ join_with sep (y # ys)"

text \<open>The text of a value at the indentation \<open>ind\<close>, with two more blanks for every level
  of nesting. \<^verbatim>\<open>NaN\<close> and the infinities are written as \<^verbatim>\<open>null\<close>; an empty array or
  object is written without a line break.\<close>

fun stringify :: "nat \<Rightarrow> json \<Rightarrow> string" where
  "stringify ind JNull = ''null''"
| "stringify ind (JBool b) = (if b then ''true'' else ''false'')"
| "stringify ind (JNum i) = int_toString i"
| "stringify ind (JDec neg s n) = dec_toString neg s n"
| "stringify ind JNaN = ''null''"
| "stringify ind (JInf neg) = ''null''"
| "stringify ind (JStr s) = quote s"
| "stringify ind (JArr xs) =
     (if xs = [] then ''[]''
      else ''['' @ [CHR 0x0A] @
           join_with ('','' @ [CHR 0x0A])
             (map (\<lambda>x. replicate (ind + 2) CHR '' '' @ stringify (ind + 2) x) xs) @
           [CHR 0x0A] @ replicate ind CHR '' '' @ '']'')"
| "stringify ind (JObj ms) =
     (if ms = [] then ''{}''
      else ''{'' @ [CHR 0x0A] @
           join_with ('','' @ [CHR 0x0A])
             (map (\<lambda>(k, v). replicate (ind + 2) CHR '' '' @ quote k @ '': '' @ stringify (ind + 2) v) ms) @
           [CHR 0x0A] @ replicate ind CHR '' '' @ ''}'')"

definition JSON_stringify :: "json \<Rightarrow> string" where
  "JSON_stringify v = stringify 0 v"

subsection \<open>JSON.parse\<close>

definition is_ws :: "char \<Rightarrow> bool" where
  "is_ws c = (c = CHR 0x20 \<or> c = CHR 0x09 \<or> c = CHR 0x0A \<or> c = CHR 0x0D)"

definition skip_ws :: "string \<Rightarrow> string" where
  "skip_ws s = dropWhile is_ws s"

text \<open>The object a list of parsed members makes: a name that occurs again replaces the
  value of its first occurrence.\<close>

definition object_of :: "(string \<times> json) list \<Rightarrow> json" where
  "object_of ms = JObj (foldl (\<lambda>acc (k, v). AList.update k v acc) [] ms)"

text \<open>A value, the elements of an array behind \<^verbatim>\<open>[\<close> and the members of an object behind
  \<^verbatim>\<open>{\<close>, each with the text that is left. \<open>None\<close> is the \<^verbatim>\<open>SyntaxError\<close>.\<close>

function parse_value :: "string \<Rightarrow> (json \<times> string) option"
  and parse_elements :: "string \<Rightarrow> (json list \<times> string) option"
  and parse_members :: "string \<Rightarrow> ((string \<times> json) list \<times> string) option"
where
  "parse_value [] = None"
| "parse_value (c # cs) =
     (if is_ws c then parse_value cs
      else if c = CHR ''{'' then
        (case skip_ws cs of
           [] \<Rightarrow> None
         | d # rest \<Rightarrow>
             if d = CHR ''}'' then Some (JObj [], rest)
             else map_option (\<lambda>(ms, r). (object_of ms, r)) (parse_members cs))
      else if c = CHR ''['' then
        (case skip_ws cs of
           [] \<Rightarrow> None
         | d # rest \<Rightarrow>
             if d = CHR '']'' then Some (JArr [], rest)
             else map_option (\<lambda>(xs, r). (JArr xs, r)) (parse_elements cs))
      else if c = CHR 0x22 then map_option (\<lambda>(s, r). (JStr s, r)) (parse_string cs)
      else if starts_with (c # cs) ''true'' then Some (JBool True, drop 4 (c # cs))
      else if starts_with (c # cs) ''false'' then Some (JBool False, drop 5 (c # cs))
      else if starts_with (c # cs) ''null'' then Some (JNull, drop 4 (c # cs))
      else parse_number (c # cs))"
| "parse_elements s =
     (case parse_value s of
        None \<Rightarrow> None
      | Some (v, r) \<Rightarrow>
          (case skip_ws r of
             [] \<Rightarrow> None
           | d # rest \<Rightarrow>
               if d = CHR '']'' then Some ([v], rest)
               else if d = CHR '','' \<and> length rest < length s then
                 map_option (\<lambda>(vs, r'). (v # vs, r')) (parse_elements rest)
               else None))"
| "parse_members s =
     (case skip_ws s of
        [] \<Rightarrow> None
      | q # s1 \<Rightarrow>
          if q \<noteq> CHR 0x22 then None
          else
            (case parse_string s1 of
               None \<Rightarrow> None
             | Some (k, s2) \<Rightarrow>
                 (case skip_ws s2 of
                    [] \<Rightarrow> None
                  | colon # s3 \<Rightarrow>
                      if colon \<noteq> CHR '':'' \<or> \<not> length s3 < length s then None
                      else
                        (case parse_value s3 of
                           None \<Rightarrow> None
                         | Some (v, s4) \<Rightarrow>
                             (case skip_ws s4 of
                                [] \<Rightarrow> None
                              | d # rest \<Rightarrow>
                                  if d = CHR ''}'' then Some ([(k, v)], rest)
                                  else if d = CHR '','' \<and> length rest < length s then
                                    map_option (\<lambda>(ms, r'). ((k, v) # ms, r')) (parse_members rest)
                                  else None)))))"
  by pat_completeness auto
termination
  by (relation "measure (\<lambda>x. case x of Inl s \<Rightarrow> 2 * length s
                                 | Inr (Inl s) \<Rightarrow> 2 * length s + 1
                                 | Inr (Inr s) \<Rightarrow> 2 * length s + 1)") auto

declare parse_elements.simps [simp del] parse_members.simps [simp del]

text \<open>\<^verbatim>\<open>JSON.parse\<close>: one value, with nothing but white space behind it.\<close>

definition JSON_parse :: "string \<Rightarrow> exn + json" where
  "JSON_parse s =
     (case parse_value s of
        None \<Rightarrow> Inl SyntaxError
      | Some (v, rest) \<Rightarrow> if skip_ws rest = [] then Inr v else Inl SyntaxError)"

section \<open>The environment of the process\<close>

subsection \<open>Paths (the POSIX flavour of the module \<^verbatim>\<open>path\<close>)\<close>

text \<open>The segments of a path, between its separators.\<close>

fun segments :: "string \<Rightarrow> string list" where
  "segments [] = [[]]"
| "segments (c # cs) =
     (if c = CHR ''/'' then [] # segments cs
      else (case segments cs of [] \<Rightarrow> [[c]] | s # ss \<Rightarrow> (c # s) # ss))"

text \<open>\<^verbatim>\<open>normalizeString\<close>: empty segments and \<^verbatim>\<open>.\<close> are dropped, \<^verbatim>\<open>..\<close> removes the segment
  before it; where there is none, \<^verbatim>\<open>..\<close> is kept for a relative path and dropped for an
  absolute one.\<close>

definition normalize_step :: "bool \<Rightarrow> string list \<Rightarrow> string \<Rightarrow> string list" where
  "normalize_step allowAboveRoot res seg =
     (if seg = [] \<or> seg = ''.'' then res
      else if seg = ''..'' then
        (if res \<noteq> [] \<and> last res \<noteq> ''..'' then butlast res
         else if allowAboveRoot then res @ [''..'']
         else res)
      else res @ [seg])"

definition normalizeString :: "string \<Rightarrow> bool \<Rightarrow> string" where
  "normalizeString path allowAboveRoot =
     join_with ''/'' (foldl (normalize_step allowAboveRoot) [] (segments path))"

definition normalize :: "string \<Rightarrow> string" where
  "normalize path =
     (if path = [] then ''.''
      else
        (let isAbsolute = (hd path = CHR ''/'');
             trailingSeparator = (last path = CHR ''/'');
             p = normalizeString path (\<not> isAbsolute)
         in if p = [] then (if isAbsolute then ''/'' else if trailingSeparator then ''./'' else ''.'')
            else (if isAbsolute then ''/'' else []) @ p @ (if trailingSeparator then ''/'' else [])))"

text \<open>\<^verbatim>\<open>path.join(...paths)\<close>: the non-empty arguments, joined by the separator and
  normalized.\<close>

definition join :: "string list \<Rightarrow> string" where
  "join paths =
     (let parts = filter (\<lambda>p. p \<noteq> []) paths
      in if parts = [] then ''.'' else normalize (join_with ''/'' parts))"

text \<open>\<^verbatim>\<open>path.dirname\<close>: the path up to the last separator that has a name behind it;
  separators at the end of the path are passed over.\<close>

definition dirname :: "string \<Rightarrow> string" where
  "dirname path =
     (case path of
        [] \<Rightarrow> ''.''
      | c # cs \<Rightarrow>
         (case dropWhile (\<lambda>x. x \<noteq> CHR ''/'') (dropWhile (\<lambda>x. x = CHR ''/'') (rev cs)) of
            [] \<Rightarrow> if c = CHR ''/'' then ''/'' else ''.''
          | s # front \<Rightarrow> if c = CHR ''/'' \<and> front = [] then ''//'' else c # rev front))"

subsection \<open>The file system\<close>

text \<open>
  The file system is a tree: a regular file with its content, or a directory with its
  named entries. \<open>filesystem\<close> is the list of the entries of the root directory. There
  are no links. A location is the list of the names that lead to it from the root;
  \<open>stat\<close> tells what is at a location.
\<close>

datatype node = File string | Dir "(string \<times> node) list"

type_synonym filesystem = "(string \<times> node) list"

datatype entry = Regular string | Directory

fun lookup :: "node \<Rightarrow> string list \<Rightarrow> node option" where
  "lookup n [] = Some n"
| "lookup (File c) (s # ss) = None"
| "lookup (Dir es) (s # ss) = (case map_of es s of None \<Rightarrow> None | Some n \<Rightarrow> lookup n ss)"

fun kind :: "node \<Rightarrow> entry" where
  "kind (File c) = Regular c"
| "kind (Dir es) = Directory"

definition stat :: "filesystem \<Rightarrow> string list \<Rightarrow> entry option" where
  "stat fs p = map_option kind (lookup (Dir fs) p)"

text \<open>\<open>put n p new\<close> sets the entry at the location \<open>p\<close> below \<open>n\<close>, in a directory that
  exists.\<close>

fun put :: "node \<Rightarrow> string list \<Rightarrow> node \<Rightarrow> node" where
  "put n [] new = new"
| "put (File c) (s # ss) new = File c"
| "put (Dir es) (s # ss) new =
     (if ss = [] then Dir (AList.update s new es)
      else (case map_of es s of
              None \<Rightarrow> Dir es
            | Some n \<Rightarrow> Dir (AList.update s (put n ss new) es)))"

definition store :: "filesystem \<Rightarrow> string list \<Rightarrow> node \<Rightarrow> filesystem" where
  "store fs p new = (case put (Dir fs) p new of Dir es \<Rightarrow> es | File c \<Rightarrow> fs)"

text \<open>Path resolution as the kernel does it, segment by segment from the directory \<open>cur\<close>:
  every segment is looked up in a directory that exists, an empty segment and \<^verbatim>\<open>.\<close> stay
  there, \<^verbatim>\<open>..\<close> goes to the parent (the root is its own parent). The result is the
  location the path names; nothing need exist there, but its parent is a directory.\<close>

fun walk :: "filesystem \<Rightarrow> string list \<Rightarrow> string list \<Rightarrow> string list option" where
  "walk fs cur [] = Some cur"
| "walk fs cur (s # ss) =
     (if stat fs cur \<noteq> Some Directory then None
      else if s = [] \<or> s = ''.'' then walk fs cur ss
      else if s = ''..'' then walk fs (butlast cur) ss
      else walk fs (cur @ [s]) ss)"

text \<open>\<^verbatim>\<open>mkdir\<close> with \<^verbatim>\<open>recursive: true\<close>, segment by segment: a directory that exists is
  entered, a missing one is created, a regular file in the way is an error. What was
  created before an error stays.\<close>

fun mkdirp :: "filesystem \<Rightarrow> string list \<Rightarrow> string list \<Rightarrow> bool \<times> filesystem" where
  "mkdirp fs cur [] = (True, fs)"
| "mkdirp fs cur (s # ss) =
     (if s = [] \<or> s = ''.'' then mkdirp fs cur ss
      else if s = ''..'' then mkdirp fs (butlast cur) ss
      else (case stat fs (cur @ [s]) of
              Some Directory \<Rightarrow> mkdirp fs (cur @ [s]) ss
            | Some (Regular c) \<Rightarrow> (False, fs)
            | None \<Rightarrow> mkdirp (store fs (cur @ [s]) (Dir [])) (cur @ [s]) ss))"

section \<open>Types and constants (types/index.ts)\<close>

definition CREDENTIALS_DIR :: string where
  "CREDENTIALS_DIR = ''.credentials''"

definition TOKENS_FILE :: string where
  "TOKENS_FILE = ''tokens.json''"

text \<open>\<^verbatim>\<open>OAuthConfig\<close> and \<^verbatim>\<open>Partial<OAuthConfig>\<close>. The fields read from a client-secret
  file hold whatever JSON the file holds, and a field may be absent.\<close>

record OAuthConfig =
  clientId :: jsval
  clientSecret :: jsval
  redirectUri :: jsval

text \<open>\<^verbatim>\<open>StoredTokens\<close>: every field is optional.\<close>

record StoredTokens =
  access_token :: "string option"
  refresh_token :: "string option"
  expiry_date :: "int option"
  token_type :: "string option"
  scope :: "string option"

text \<open>The object a \<^verbatim>\<open>StoredTokens\<close> value is at run time: the members that are
  present, in the order of the interface.\<close>

definition tokens_object :: "StoredTokens \<Rightarrow> json" where
  "tokens_object t = JObj
     ((case access_token t of Some s \<Rightarrow> [(''access_token'', JStr s)] | None \<Rightarrow> []) @
      (case refresh_token t of Some s \<Rightarrow> [(''refresh_token'', JStr s)] | None \<Rightarrow> []) @
      (case expiry_date t of Some n \<Rightarrow> [(''expiry_date'', JNum n)] | None \<Rightarrow> []) @
      (case token_type t of Some s \<Rightarrow> [(''token_type'', JStr s)] | None \<Rightarrow> []) @
      (case scope t of Some s \<Rightarrow> [(''scope'', JStr s)] | None \<Rightarrow> []))"

section \<open>The session object\<close>

text \<open>The \<^verbatim>\<open>OAuth2Client\<close> of the Google client library: the options it was built
  with and its current credentials, initially the empty object.\<close>

record OAuth2Client =
  opt_clientId :: jsval
  opt_clientSecret :: jsval
  opt_redirectUri :: jsval
  credentials :: json

record GoogleOAuth =
  oauth2Client :: OAuth2Client
  credentialsPath :: string

definition setCredentials :: "GoogleOAuth \<Rightarrow> json \<Rightarrow> GoogleOAuth" where
  "setCredentials oauth tokens =
     oauth\<lparr>oauth2Client := (oauth2Client oauth)\<lparr>credentials := tokens\<rparr>\<rparr>"

section \<open>The world a call runs in\<close>

text \<open>
  What the Google APIs answer, as far as the sources read it. A member that the
  client library types as optional is an \<open>option\<close>. A paragraph is the list of the
  \<^verbatim>\<open>textRun?.content\<close> of its elements; a table is the list of its rows, a row the
  list of its cells, a cell the list of its structural elements; the properties of a
  sheet are flattened, with \<open>None\<close> where \<^verbatim>\<open>properties\<close> or \<^verbatim>\<open>gridProperties\<close> is
  missing.
\<close>

datatype StructuralElement =
    Paragraph "string option list"
  | Table "StructuralElement list list list"
  | SectionBreak
  | OtherElement

record Document =
  doc_documentId :: "string option"
  doc_title :: "string option"
  doc_content :: "StructuralElement list option"

record SheetProperties =
  props_sheetId :: "int option"
  props_title :: "string option"
  props_index :: "int option"
  props_rowCount :: "int option"
  props_columnCount :: "int option"

record Spreadsheet =
  ss_spreadsheetId :: "string option"
  ss_title :: "string option"
  ss_spreadsheetUrl :: "string option"
  ss_sheets :: "SheetProperties list option"

record ValueRange =
  vr_range :: "string option"
  vr_values :: "string list list option"

record DriveFile =
  file_id :: "string option"
  file_name :: "string option"
  file_mimeType :: "string option"
  file_modifiedTime :: "string option"
  file_webViewLink :: "string option"

text \<open>
  The world a call runs in: the process environment, the working directory, the file
  system, the module-level singleton \<^verbatim>\<open>oauthInstance\<close>, and Google as the client
  library reaches it.
  \<open>refreshToken\<close> answers a refresh request made with the given credentials and
  \<open>getToken\<close> an authorization code, each with the members of a new token object or
  with the error the library throws on rejection. \<open>documents_get\<close>,
  \<open>spreadsheets_get\<close>, \<open>values_get\<close> and \<open>files_list\<close> answer the four API requests
  of the fetchers, given the client the request is made with and the parameters the
  fetcher passes. \<open>trace\<close> records, oldest first, every authentication check and every
  request sent to a Google API.
\<close>

datatype event = CheckAuth | EnsureAuthenticated | Request string

record world =
  env :: "string \<rightharpoonup> string"
  cwd :: string
  files :: filesystem
  oauthInstance :: "GoogleOAuth option"
  refreshToken :: "json \<Rightarrow> exn + (string \<times> json) list"
  getToken :: "string \<Rightarrow> exn + (string \<times> json) list"
  documents_get :: "OAuth2Client \<Rightarrow> json \<Rightarrow> exn + Document"
  spreadsheets_get :: "OAuth2Client \<Rightarrow> json \<Rightarrow> exn + Spreadsheet"
  values_get :: "OAuth2Client \<Rightarrow> json \<Rightarrow> jsval \<Rightarrow> exn + ValueRange"
  files_list :: "OAuth2Client \<Rightarrow> string \<Rightarrow> jsval \<Rightarrow> exn + DriveFile list option"
  trace :: "event list"

definition log_event :: "event \<Rightarrow> 'a world_scheme \<Rightarrow> 'a world_scheme" where
  "log_event ev w = w\<lparr>trace := trace w @ [ev]\<rparr>"

text \<open>\<^verbatim>\<open>process.env.K\<close>: a string or \<^verbatim>\<open>undefined\<close>.\<close>

definition process_env :: "'a world_scheme \<Rightarrow> string \<Rightarrow> jsval" where
  "process_env w k = map_option JStr (env w k)"

section \<open>The file system calls (the module \<^verbatim>\<open>fs\<close>)\<close>

text \<open>A relative path is resolved from the working directory, which is an absolute path
  without \<^verbatim>\<open>.\<close> or \<^verbatim>\<open>..\<close>; the empty path names nothing.\<close>

definition start_dir :: "'a world_scheme \<Rightarrow> string \<Rightarrow> string list" where
  "start_dir w p =
     (if hd p = CHR ''/'' then [] else filter (\<lambda>s. s \<noteq> []) (segments (cwd w)))"

definition resolve :: "'a world_scheme \<Rightarrow> string \<Rightarrow> string list option" where
  "resolve w p = (if p = [] then None else walk (files w) (start_dir w p) (segments p))"

text \<open>\<^verbatim>\<open>existsSync\<close> never throws.\<close>

definition existsSync :: "'a world_scheme \<Rightarrow> string \<Rightarrow> bool" where
  "existsSync w p = (case resolve w p of None \<Rightarrow> False | Some q \<Rightarrow> stat (files w) q \<noteq> None)"

definition readFileSync :: "'a world_scheme \<Rightarrow> string \<Rightarrow> exn + string" where
  "readFileSync w p =
     (case resolve w p of
        None \<Rightarrow> Inl IOError
      | Some q \<Rightarrow>
         (case stat (files w) q of
            Some (Regular content) \<Rightarrow> Inr content
          | Some Directory \<Rightarrow> Inl IOError
          | None \<Rightarrow> Inl IOError))"

text \<open>\<^verbatim>\<open>mkdirSync(dir, { recursive: true })\<close>: no error when the directory exists already,
  an error when a regular file is in the way.\<close>

definition mkdirSync :: "string \<Rightarrow> 'a world_scheme \<Rightarrow> (exn + unit) \<times> 'a world_scheme" where
  "mkdirSync p w =
     (if p = [] \<or> stat (files w) (start_dir w p) \<noteq> Some Directory then (Inl IOError, w)
      else
        (case mkdirp (files w) (start_dir w p) (segments p) of
           (ok, fs) \<Rightarrow> (if ok then Inr () else Inl IOError, w\<lparr>files := fs\<rparr>)))"

text \<open>\<^verbatim>\<open>writeFileSync(p, data)\<close> replaces the whole content of \<open>p\<close> or creates the file; it
  fails when \<open>p\<close> names a directory or when the containing directory does not exist.\<close>

definition writeFileSync :: "string \<Rightarrow> string \<Rightarrow> 'a world_scheme \<Rightarrow> (exn + unit) \<times> 'a world_scheme" where
  "writeFileSync p data w =
     (case resolve w p of
        None \<Rightarrow> (Inl IOError, w)
      | Some q \<Rightarrow>
         if stat (files w) q = Some Directory then (Inl IOError, w)
         else (Inr (), w\<lparr>files := store (files w) q (File data)\<rparr>))"

section \<open>The OAuth session (auth/oauth.ts)\<close>

definition CLIENT_SECRET_FILE :: string where
  "CLIENT_SECRET_FILE = ''client_secret.json''"

text \<open>\<^verbatim>\<open>v?.[0]\<close>.\<close>

fun opt_first :: "jsval \<Rightarrow> jsval" where
  "opt_first None = None"
| "opt_first (Some JNull) = None"
| "opt_first (Some (JArr xs)) = (case xs of [] \<Rightarrow> None | x # rest \<Rightarrow> Some x)"
| "opt_first (Some (JStr s)) = (case s of [] \<Rightarrow> None | c # rest \<Rightarrow> Some (JStr [c]))"
| "opt_first (Some (JObj kvs)) = map_of kvs ''0''"
| "opt_first (Some j) = None"

definition DEFAULT_REDIRECT_URI :: string where
  "DEFAULT_REDIRECT_URI = ''http://localhost:3000/oauth2callback''"

text \<open>The body of the loop of \<^verbatim>\<open>loadClientSecret\<close> for one candidate path: \<open>Some\<close> is
  the \<^verbatim>\<open>return\<close> inside the loop, \<open>None\<close> lets the loop go on. Every exception inside
  the \<^verbatim>\<open>try\<close> is swallowed.\<close>

definition loadClientSecret_body :: "'a world_scheme \<Rightarrow> string \<Rightarrow> OAuthConfig option" where
  "loadClientSecret_body w filePath =
     (if existsSync w filePath then
        (case readFileSync w filePath of
           Inl e \<Rightarrow> None
         | Inr content \<Rightarrow>
            (case JSON_parse content of
               Inl e \<Rightarrow> None
             | Inr secret \<Rightarrow>
                (case member (Some secret) ''installed'' of
                   Inl e \<Rightarrow> None
                 | Inr installed \<Rightarrow>
                    (let creds = js_or installed (get_member secret ''web'') in
                     if truthy creds then
                       Some \<lparr>clientId = opt_member creds ''client_id'',
                             clientSecret = opt_member creds ''client_secret'',
                             redirectUri =
                               js_or (opt_first (opt_member creds ''redirect_uris''))
                                     (Some (JStr DEFAULT_REDIRECT_URI))\<rparr>
                     else None))))
      else None)"

fun loadClientSecret_loop :: "'a world_scheme \<Rightarrow> string list \<Rightarrow> OAuthConfig option" where
  "loadClientSecret_loop w [] = None"
| "loadClientSecret_loop w (filePath # rest) =
     (case loadClientSecret_body w filePath of
        Some config \<Rightarrow> Some config
      | None \<Rightarrow> loadClientSecret_loop w rest)"

definition possiblePaths :: "string \<Rightarrow> string list" where
  "possiblePaths basePath =
     [join [basePath, CLIENT_SECRET_FILE],
      join [basePath, CREDENTIALS_DIR, CLIENT_SECRET_FILE]]"

definition loadClientSecret :: "'a world_scheme \<Rightarrow> string \<Rightarrow> OAuthConfig option" where
  "loadClientSecret w basePath = loadClientSecret_loop w (possiblePaths basePath)"

definition CREDENTIALS_NOT_FOUND :: string where
  "CREDENTIALS_NOT_FOUND =
     ''Google credentials not found. Please either:'' @ [CHR 0x0A] @
     ''  1. Place client_secret.json in the project root, or'' @ [CHR 0x0A] @
     ''  2. Set GOOGLE_CLIENT_ID and GOOGLE_CLIENT_SECRET environment variables''"

text \<open>\<^verbatim>\<open>process.env.GOOGLE_CREDENTIALS_PATH || process.cwd()\<close>.\<close>

definition baseDir :: "'a world_scheme \<Rightarrow> string" where
  "baseDir w =
     (case env w ''GOOGLE_CREDENTIALS_PATH'' of
        Some p \<Rightarrow> if p \<noteq> [] then p else cwd w
      | None \<Rightarrow> cwd w)"

text \<open>\<^verbatim>\<open>config?.f\<close> for an optional configuration object.\<close>

definition config_field :: "OAuthConfig option \<Rightarrow> (OAuthConfig \<Rightarrow> jsval) \<Rightarrow> jsval" where
  "config_field config f = (case config of None \<Rightarrow> None | Some c \<Rightarrow> f c)"

text \<open>The constructor of \<^verbatim>\<open>GoogleOAuth\<close>.\<close>

definition GoogleOAuth_new :: "'a world_scheme \<Rightarrow> OAuthConfig option \<Rightarrow> exn + GoogleOAuth" where
  "GoogleOAuth_new w config =
     (let fileConfig = loadClientSecret w (baseDir w);
          cid = js_or (js_or (config_field config clientId) (config_field fileConfig clientId))
                      (process_env w ''GOOGLE_CLIENT_ID'');
          csecret = js_or (js_or (config_field config clientSecret)
                                 (config_field fileConfig clientSecret))
                          (process_env w ''GOOGLE_CLIENT_SECRET'');
          ruri = js_or (js_or (config_field config redirectUri)
                              (config_field fileConfig redirectUri))
                       (Some (JStr DEFAULT_REDIRECT_URI))
      in if \<not> truthy cid \<or> \<not> truthy csecret then Inl (Error CREDENTIALS_NOT_FOUND)
         else Inr \<lparr>oauth2Client =
                     \<lparr>opt_clientId = cid, opt_clientSecret = csecret,
                      opt_redirectUri = ruri, credentials = JObj []\<rparr>,
                   credentialsPath = join [baseDir w, CREDENTIALS_DIR, TOKENS_FILE]\<rparr>)"

text \<open>\<^verbatim>\<open>loadTokens\<close>: the tokens are installed only when a truthy refresh token was
  read; every exception is turned into \<^verbatim>\<open>false\<close>.\<close>

definition loadTokens :: "GoogleOAuth \<Rightarrow> 'a world_scheme \<Rightarrow> bool \<times> GoogleOAuth" where
  "loadTokens oauth w =
     (if \<not> existsSync w (credentialsPath oauth) then (False, oauth)
      else
        (case readFileSync w (credentialsPath oauth) of
           Inl e \<Rightarrow> (False, oauth)
         | Inr tokensJson \<Rightarrow>
            (case JSON_parse tokensJson of
               Inl e \<Rightarrow> (False, oauth)
             | Inr tokens \<Rightarrow>
                (case member (Some tokens) ''refresh_token'' of
                   Inl e \<Rightarrow> (False, oauth)
                 | Inr rt \<Rightarrow>
                    if \<not> truthy rt then (False, oauth)
                    else (True, setCredentials oauth tokens)))))"

text \<open>\<^verbatim>\<open>saveTokens\<close>. An exception of the file system leaves the method; the file
  system is then as the failing call left it.\<close>

definition saveTokens :: "GoogleOAuth \<Rightarrow> json \<Rightarrow> 'a world_scheme \<Rightarrow> (exn + unit) \<times> 'a world_scheme" where
  "saveTokens oauth tokens w =
     (let dir = dirname (credentialsPath oauth) in
      case (if \<not> existsSync w dir then mkdirSync dir w else (Inr (), w)) of
        (Inl e, w1) \<Rightarrow> (Inl e, w1)
      | (Inr u, w1) \<Rightarrow> writeFileSync (credentialsPath oauth) (JSON_stringify tokens) w1)"

text \<open>\<^verbatim>\<open>OAuth2Client.refreshAccessToken\<close> of the client library: it throws when no
  refresh token is set or when the token endpoint rejects the request, and leaves the
  credentials alone then; on success it keeps the refresh token, installs the new
  credentials and returns them. It sends one request to the token endpoint.\<close>

definition client_refreshAccessToken ::
    "OAuth2Client \<Rightarrow> 'a world_scheme \<Rightarrow> (exn + json) \<times> OAuth2Client \<times> 'a world_scheme" where
  "client_refreshAccessToken client w =
     (case opt_member (Some (credentials client)) ''refresh_token'' of
        None \<Rightarrow> (Inl (Error ''No refresh token is set.''), client, w)
      | Some rt \<Rightarrow>
         if \<not> truthy_json rt then (Inl (Error ''No refresh token is set.''), client, w)
         else
           (let w1 = log_event (Request ''oauth2.token'') w in
            case refreshToken w1 (credentials client) of
              Inl e \<Rightarrow> (Inl e, client, w1)
            | Inr tokens \<Rightarrow>
               (let creds = JObj (AList.update ''refresh_token'' rt tokens)
                in (Inr creds, client\<lparr>credentials := creds\<rparr>, w1))))"

text \<open>\<^verbatim>\<open>refreshAccessToken\<close>: no \<^verbatim>\<open>try\<close>, so an exception of the client or of
  \<^verbatim>\<open>saveTokens\<close> leaves the method at once.\<close>

definition refreshAccessToken ::
    "GoogleOAuth \<Rightarrow> 'a world_scheme \<Rightarrow> (exn + unit) \<times> GoogleOAuth \<times> 'a world_scheme" where
  "refreshAccessToken oauth w =
     (case client_refreshAccessToken (oauth2Client oauth) w of
        (Inl e, client1, w1) \<Rightarrow> (Inl e, oauth\<lparr>oauth2Client := client1\<rparr>, w1)
      | (Inr creds, client1, w1) \<Rightarrow>
         (let oauth1 = setCredentials (oauth\<lparr>oauth2Client := client1\<rparr>) creds in
          case saveTokens oauth1 creds w1 of
            (Inl e, w2) \<Rightarrow> (Inl e, oauth1, w2)
          | (Inr u, w2) \<Rightarrow> (Inr (), oauth1, w2)))"

text \<open>\<^verbatim>\<open>exchangeCodeForTokens\<close>: one request to the token endpoint with the code.\<close>

definition exchangeCodeForTokens ::
    "GoogleOAuth \<Rightarrow> string \<Rightarrow> 'a world_scheme \<Rightarrow> (exn + json) \<times> GoogleOAuth \<times> 'a world_scheme" where
  "exchangeCodeForTokens oauth code w =
     (let w1 = log_event (Request ''oauth2.token'') w in
      case getToken w1 code of
        Inl e \<Rightarrow> (Inl e, oauth, w1)
      | Inr members \<Rightarrow>
         (let tokens = JObj members;
              oauth1 = setCredentials oauth tokens in
          case saveTokens oauth1 tokens w1 of
            (Inl e, w2) \<Rightarrow> (Inl e, oauth1, w2)
          | (Inr u, w2) \<Rightarrow> (Inr tokens, oauth1, w2)))"

text \<open>\<^verbatim>\<open>a && b\<close>: the left operand when it is falsy, the right operand otherwise.\<close>

definition js_and :: "jsval \<Rightarrow> jsval \<Rightarrow> jsval" where
  "js_and a b = (if truthy a then b else a)"

text \<open>\<^verbatim>\<open>isAuthenticated\<close>: \<^verbatim>\<open>!!(credentials && credentials.refresh_token)\<close>. It reads
  the session only.\<close>

definition isAuthenticated :: "GoogleOAuth \<Rightarrow> bool" where
  "isAuthenticated oauth =
     (let creds = credentials (oauth2Client oauth)
      in truthy (js_and (Some creds) (get_member creds ''refresh_token'')))"

text \<open>The singleton: \<^verbatim>\<open>getOAuthInstance\<close> builds the session on first use, with no
  explicit configuration.\<close>

definition getOAuthInstance :: "'a world_scheme \<Rightarrow> (exn + GoogleOAuth) \<times> 'a world_scheme" where
  "getOAuthInstance w =
     (case oauthInstance w of
        Some oauth \<Rightarrow> (Inr oauth, w)
      | None \<Rightarrow>
         (case GoogleOAuth_new w None of
            Inl e \<Rightarrow> (Inl e, w)
          | Inr oauth \<Rightarrow> (Inr oauth, w\<lparr>oauthInstance := Some oauth\<rparr>)))"

definition NOT_AUTHENTICATED :: string where
  \<open>NOT_AUTHENTICATED =
     ''Not authenticated. Please run "bun run auth" to authenticate with Google first.''\<close>

text \<open>\<^verbatim>\<open>ensureAuthenticated\<close>. \<^verbatim>\<open>loadTokens\<close> works on the singleton object itself, so
  what it installs stays in \<open>oauthInstance\<close>.\<close>

definition ensureAuthenticated :: "'a world_scheme \<Rightarrow> (exn + GoogleOAuth) \<times> 'a world_scheme" where
  "ensureAuthenticated w =
     (case getOAuthInstance (log_event EnsureAuthenticated w) of
        (Inl e, w1) \<Rightarrow> (Inl e, w1)
      | (Inr oauth, w1) \<Rightarrow>
         (case loadTokens oauth w1 of
            (loaded, oauth1) \<Rightarrow>
              (let w2 = w1\<lparr>oauthInstance := Some oauth1\<rparr> in
               if \<not> loaded then (Inl (Error NOT_AUTHENTICATED), w2)
               else (Inr oauth1, w2))))"

section \<open>Rendering helpers\<close>

text \<open>The decimal digits of an integer.\<close>

definition show_int :: "int \<Rightarrow> string" where
  "show_int i = (if i < 0 then ''-'' @ show_nat (nat (- i)) else show_nat (nat i))"

text \<open>\<^verbatim>\<open>String(v)\<close>, the conversion a template literal applies.\<close>

fun String_json :: "json \<Rightarrow> string" where
  "String_json JNull = ''null''"
| "String_json (JBool b) = (if b then ''true'' else ''false'')"
| "String_json (JNum n) = int_toString n"
| "String_json (JDec neg s n) = dec_toString neg s n"
| "String_json JNaN = ''NaN''"
| "String_json (JInf neg) = (if neg then ''-Infinity'' else ''Infinity'')"
| "String_json (JStr s) = s"
| "String_json (JArr xs) =
     join_with '','' (map (\<lambda>x. if x = JNull then [] else String_json x) xs)"
| "String_json (JObj kvs) = ''[object Object]''"

fun String :: "jsval \<Rightarrow> string" where
  "String None = ''undefined''"
| "String (Some j) = String_json j"

text \<open>\<^verbatim>\<open>s || d\<close> for an optional string \<open>s\<close> and a string \<open>d\<close>; \<^verbatim>\<open>s || undefined\<close>;
  \<^verbatim>\<open>n || d\<close> for an optional number.\<close>

definition str_or :: "string option \<Rightarrow> string \<Rightarrow> string" where
  "str_or s d = (case s of Some x \<Rightarrow> if x \<noteq> [] then x else d | None \<Rightarrow> d)"

definition str_or_undefined :: "string option \<Rightarrow> string option" where
  "str_or_undefined s = (case s of Some x \<Rightarrow> if x \<noteq> [] then Some x else None | None \<Rightarrow> None)"

definition int_or :: "int option \<Rightarrow> int \<Rightarrow> int" where
  "int_or n d = (case n of Some x \<Rightarrow> if x \<noteq> 0 then x else d | None \<Rightarrow> d)"

text \<open>\<^verbatim>\<open>s.trim()\<close>, with the white space of ASCII.\<close>

definition is_space :: "char \<Rightarrow> bool" where
  "is_space c = (c \<in> set [CHR 0x20, CHR 0x09, CHR 0x0A, CHR 0x0B, CHR 0x0C, CHR 0x0D])"

definition trim :: "string \<Rightarrow> string" where
  "trim s = rev (dropWhile is_space (rev (dropWhile is_space s)))"

section \<open>The fetchers (tools/docs.ts, tools/sheets.ts)\<close>

record DocumentInfo =
  info_id :: string
  info_name :: string
  info_mimeType :: string
  info_modifiedTime :: "string option"
  info_webViewLink :: "string option"

record SheetInfo =
  sheetId :: int
  sheet_title :: string
  sheet_index :: int
  rowCount :: "int option"
  columnCount :: "int option"

record SpreadsheetInfo =
  spreadsheet_id :: json
  spreadsheet_name :: string
  spreadsheet_sheets :: "SheetInfo list"
  spreadsheet_webViewLink :: "string option"

record DocumentContent =
  content_id :: json
  content_title :: string
  content_body :: string

record SheetData =
  data_spreadsheetId :: json
  data_range :: jsval
  data_values :: "string list list"

text \<open>The extractors on whatever the caller passed. A string goes through the
  extractor. On \<^verbatim>\<open>null\<close> and \<^verbatim>\<open>undefined\<close> the call of \<^verbatim>\<open>includes\<close> throws; numbers,
  booleans and objects have no \<^verbatim>\<open>includes\<close>; an array has one, which looks for an
  equal element, and has no \<^verbatim>\<open>match\<close>.\<close>

fun extract_any :: "(string \<Rightarrow> string) \<Rightarrow> string \<Rightarrow> jsval \<Rightarrow> exn + json" where
  "extract_any extract marker (Some (JStr s)) = Inr (JStr (extract s))"
| "extract_any extract marker (Some (JArr xs)) =
     (if JStr marker \<in> set xs then Inl TypeError else Inr (JArr xs))"
| "extract_any extract marker v = Inl TypeError"

fun extractTextFromElements :: "StructuralElement list \<Rightarrow> string" where
  "extractTextFromElements [] = []"
| "extractTextFromElements (Paragraph runs # elements) =
     concat (map (\<lambda>run. case run of Some content \<Rightarrow> content | None \<Rightarrow> []) runs) @
     extractTextFromElements elements"
| "extractTextFromElements (Table tableRows # elements) =
     concat (map (\<lambda>row. concat (map (\<lambda>cell. extractTextFromElements cell @ [CHR 0x09]) row)
                          @ [CHR 0x0A])
                 tableRows) @
     extractTextFromElements elements"
| "extractTextFromElements (SectionBreak # elements) =
     [CHR 0x0A] @ ''---'' @ [CHR 0x0A] @ extractTextFromElements elements"
| "extractTextFromElements (OtherElement # elements) = extractTextFromElements elements"

definition getDocument ::
    "jsval \<Rightarrow> 'a world_scheme \<Rightarrow> (exn + DocumentContent) \<times> 'a world_scheme" where
  "getDocument documentId w =
     (case ensureAuthenticated w of
        (Inl e, w1) \<Rightarrow> (Inl e, w1)
      | (Inr oauth, w1) \<Rightarrow>
         (case extract_any extractDocumentId ''docs.google.com'' documentId of
            Inl e \<Rightarrow> (Inl e, w1)
          | Inr ident \<Rightarrow>
             (let w2 = log_event (Request ''documents.get'') w1 in
              case documents_get w2 (oauth2Client oauth) ident of
                Inl e \<Rightarrow> (Inl e, w2)
              | Inr doc \<Rightarrow>
                 (Inr \<lparr>content_id =
                         (case str_or_undefined (doc_documentId doc) of
                            Some s \<Rightarrow> JStr s | None \<Rightarrow> ident),
                       content_title = str_or (doc_title doc) ''Untitled'',
                       content_body =
                         trim (extractTextFromElements
                                 (case doc_content doc of None \<Rightarrow> [] | Some es \<Rightarrow> es))\<rparr>,
                  w2))))"

text \<open>\<^verbatim>\<open>query.replace(/'/g, "\\'")\<close>.\<close>

definition escape_quotes :: "string \<Rightarrow> string" where
  "escape_quotes s = concat (map (\<lambda>c. if c = CHR 0x27 then [CHR 0x5C, CHR 0x27] else [c]) s)"

text \<open>The search expression both list fetchers build. A truthy query that is not a
  string has no \<^verbatim>\<open>replace\<close>.\<close>

definition build_query :: "string \<Rightarrow> jsval \<Rightarrow> exn + string" where
  "build_query q query =
     (if truthy query then
        (case query of
           Some (JStr s) \<Rightarrow>
             Inr (q @ '' and fullText contains '' @ [CHR 0x27] @ escape_quotes s @ [CHR 0x27])
         | other \<Rightarrow> Inl TypeError)
      else Inr q)"

definition to_DocumentInfo :: "DriveFile \<Rightarrow> DocumentInfo" where
  "to_DocumentInfo file =
     \<lparr>info_id = str_or (file_id file) [],
      info_name = str_or (file_name file) ''Untitled'',
      info_mimeType = str_or (file_mimeType file) [],
      info_modifiedTime = str_or_undefined (file_modifiedTime file),
      info_webViewLink = str_or_undefined (file_webViewLink file)\<rparr>"

text \<open>A parameter with the default \<^verbatim>\<open>= 10\<close>.\<close>

definition default_limit :: "jsval \<Rightarrow> jsval" where
  "default_limit limit = (case limit of None \<Rightarrow> Some (JNum 10) | Some v \<Rightarrow> Some v)"

definition DOCUMENT_QUERY :: string where
  \<open>DOCUMENT_QUERY = ''mimeType='application/vnd.google-apps.document' and trashed=false''\<close>

definition SPREADSHEET_QUERY :: string where
  \<open>SPREADSHEET_QUERY = ''mimeType='application/vnd.google-apps.spreadsheet' and trashed=false''\<close>

definition listDocuments ::
    "jsval \<Rightarrow> jsval \<Rightarrow> 'a world_scheme \<Rightarrow> (exn + DocumentInfo list) \<times> 'a world_scheme" where
  "listDocuments limit query w =
     (case ensureAuthenticated w of
        (Inl e, w1) \<Rightarrow> (Inl e, w1)
      | (Inr oauth, w1) \<Rightarrow>
         (case build_query DOCUMENT_QUERY query of
            Inl e \<Rightarrow> (Inl e, w1)
          | Inr q \<Rightarrow>
             (let w2 = log_event (Request ''files.list'') w1 in
              case files_list w2 (oauth2Client oauth) q (default_limit limit) of
                Inl e \<Rightarrow> (Inl e, w2)
              | Inr response \<Rightarrow>
                 (Inr (map to_DocumentInfo (case response of None \<Rightarrow> [] | Some fs \<Rightarrow> fs)),
                  w2))))"

definition searchDocuments ::
    "jsval \<Rightarrow> jsval \<Rightarrow> 'a world_scheme \<Rightarrow> (exn + DocumentInfo list) \<times> 'a world_scheme" where
  "searchDocuments query limit w = listDocuments (default_limit limit) query w"

definition listSpreadsheets ::
    "jsval \<Rightarrow> jsval \<Rightarrow> 'a world_scheme \<Rightarrow> (exn + DocumentInfo list) \<times> 'a world_scheme" where
  "listSpreadsheets limit query w =
     (case ensureAuthenticated w of
        (Inl e, w1) \<Rightarrow> (Inl e, w1)
      | (Inr oauth, w1) \<Rightarrow>
         (case build_query SPREADSHEET_QUERY query of
            Inl e \<Rightarrow> (Inl e, w1)
          | Inr q \<Rightarrow>
             (let w2 = log_event (Request ''files.list'') w1 in
              case files_list w2 (oauth2Client oauth) q (default_limit limit) of
                Inl e \<Rightarrow> (Inl e, w2)
              | Inr response \<Rightarrow>
                 (Inr (map to_DocumentInfo (case response of None \<Rightarrow> [] | Some fs \<Rightarrow> fs)),
                  w2))))"

definition to_SheetInfo :: "SheetProperties \<Rightarrow> SheetInfo" where
  "to_SheetInfo sheet =
     \<lparr>sheetId = int_or (props_sheetId sheet) 0,
      sheet_title = str_or (props_title sheet) ''Untitled'',
      sheet_index = int_or (props_index sheet) 0,
      rowCount = props_rowCount sheet,
      columnCount = props_columnCount sheet\<rparr>"

definition getSpreadsheet ::
    "jsval \<Rightarrow> 'a world_scheme \<Rightarrow> (exn + SpreadsheetInfo) \<times> 'a world_scheme" where
  "getSpreadsheet spreadsheetId w =
     (case ensureAuthenticated w of
        (Inl e, w1) \<Rightarrow> (Inl e, w1)
      | (Inr oauth, w1) \<Rightarrow>
         (case extract_any extractSpreadsheetId ''docs.google.com/spreadsheets'' spreadsheetId of
            Inl e \<Rightarrow> (Inl e, w1)
          | Inr ident \<Rightarrow>
             (let w2 = log_event (Request ''spreadsheets.get'') w1 in
              case spreadsheets_get w2 (oauth2Client oauth) ident of
                Inl e \<Rightarrow> (Inl e, w2)
              | Inr spreadsheet \<Rightarrow>
                 (Inr \<lparr>spreadsheet_id =
                         (case str_or_undefined (ss_spreadsheetId spreadsheet) of
                            Some s \<Rightarrow> JStr s | None \<Rightarrow> ident),
                       spreadsheet_name = str_or (ss_title spreadsheet) ''Untitled'',
                       spreadsheet_sheets =
                         map to_SheetInfo
                           (case ss_sheets spreadsheet of None \<Rightarrow> [] | Some xs \<Rightarrow> xs),
                       spreadsheet_webViewLink =
                         str_or_undefined (ss_spreadsheetUrl spreadsheet)\<rparr>,
                  w2))))"

definition getSheetData ::
    "jsval \<Rightarrow> jsval \<Rightarrow> 'a world_scheme \<Rightarrow> (exn + SheetData) \<times> 'a world_scheme" where
  "getSheetData spreadsheetId range' w =
     (case ensureAuthenticated w of
        (Inl e, w1) \<Rightarrow> (Inl e, w1)
      | (Inr oauth, w1) \<Rightarrow>
         (case extract_any extractSpreadsheetId ''docs.google.com/spreadsheets'' spreadsheetId of
            Inl e \<Rightarrow> (Inl e, w1)
          | Inr ident \<Rightarrow>
             (let w2 = log_event (Request ''spreadsheets.values.get'') w1 in
              case values_get w2 (oauth2Client oauth) ident range' of
                Inl e \<Rightarrow> (Inl e, w2)
              | Inr response \<Rightarrow>
                 (Inr \<lparr>data_spreadsheetId = ident,
                       data_range =
                         (case str_or_undefined (vr_range response) of
                            Some r \<Rightarrow> Some (JStr r) | None \<Rightarrow> range'),
                       data_values =
                         (case vr_values response of None \<Rightarrow> [] | Some rows \<Rightarrow> rows)\<rparr>,
                  w2))))"

section \<open>The server (index.ts)\<close>

subsection \<open>Tool results and their rendering\<close>

text \<open>The result of a tool call: one text block, and \<^verbatim>\<open>isError: true\<close> or no
  \<^verbatim>\<open>isError\<close> member at all.\<close>

record content_item =
  type :: string
  text' :: string

record CallToolResult =
  content :: "content_item list"
  isError :: "bool option"

definition text_result :: "string \<Rightarrow> CallToolResult" where
  "text_result t = \<lparr>content = [\<lparr>type = ''text'', text' = t\<rparr>], isError = None\<rparr>"

definition error_result :: "string \<Rightarrow> CallToolResult" where
  "error_result t = \<lparr>content = [\<lparr>type = ''text'', text' = t\<rparr>], isError = Some True\<rparr>"

text \<open>The \<^verbatim>\<open>catch\<close> block of every tool handler.\<close>

definition caught :: "exn \<Rightarrow> CallToolResult" where
  "caught e = error_result (''Error: '' @ message e)"

text \<open>The texts the handlers build from what a fetcher returned. The handlers
  registered in \<^verbatim>\<open>createServer\<close> and the cases of the \<^verbatim>\<open>switch\<close> in
  \<^verbatim>\<open>handleJsonRpc\<close> build them with the same expressions.\<close>

definition render_document :: "DocumentContent \<Rightarrow> CallToolResult" where
  "render_document doc =
     text_result (''# '' @ content_title doc @ [CHR 0x0A, CHR 0x0A] @ content_body doc)"

definition format_file :: "DocumentInfo \<Rightarrow> string" where
  "format_file doc =
     ''- **'' @ info_name doc @ ''**'' @ [CHR 0x0A] @
     ''  ID: '' @ info_id doc @ [CHR 0x0A] @
     ''  Modified: '' @ str_or (info_modifiedTime doc) ''Unknown'' @ [CHR 0x0A] @
     ''  URL: '' @ str_or (info_webViewLink doc) ''N/A''"

definition render_documents :: "DocumentInfo list \<Rightarrow> CallToolResult" where
  "render_documents docs =
     (if length docs = 0 then text_result ''No documents found.''
      else text_result
             (''Found '' @ show_nat (length docs) @ '' document(s):'' @ [CHR 0x0A, CHR 0x0A] @
              join_with [CHR 0x0A, CHR 0x0A] (map format_file docs)))"

definition render_spreadsheets :: "DocumentInfo list \<Rightarrow> CallToolResult" where
  "render_spreadsheets sheets =
     (if length sheets = 0 then text_result ''No spreadsheets found.''
      else text_result
             (''Found '' @ show_nat (length sheets) @ '' spreadsheet(s):'' @
              [CHR 0x0A, CHR 0x0A] @
              join_with [CHR 0x0A, CHR 0x0A] (map format_file sheets)))"

text \<open>\<^verbatim>\<open>n || "?"\<close> inside a template literal.\<close>

definition count_or_unknown :: "int option \<Rightarrow> string" where
  "count_or_unknown n =
     (case n of Some x \<Rightarrow> if x \<noteq> 0 then show_int x else ''?'' | None \<Rightarrow> ''?'')"

definition format_sheet :: "SheetInfo \<Rightarrow> string" where
  "format_sheet sheet =
     ''  - '' @ sheet_title sheet @ '' ('' @ count_or_unknown (rowCount sheet) @ '' rows x '' @
     count_or_unknown (columnCount sheet) @ '' cols)''"

definition render_spreadsheet :: "SpreadsheetInfo \<Rightarrow> CallToolResult" where
  "render_spreadsheet spreadsheet =
     text_result
       (''# '' @ spreadsheet_name spreadsheet @ [CHR 0x0A, CHR 0x0A] @
        ''ID: '' @ String_json (spreadsheet_id spreadsheet) @ [CHR 0x0A] @
        ''URL: '' @ str_or (spreadsheet_webViewLink spreadsheet) ''N/A'' @ [CHR 0x0A, CHR 0x0A] @
        ''## Sheets:'' @ [CHR 0x0A] @
        join_with [CHR 0x0A] (map format_sheet (spreadsheet_sheets spreadsheet)))"

definition render_sheet_data :: "SheetData \<Rightarrow> CallToolResult" where
  "render_sheet_data d =
     (if length (data_values d) = 0 then text_result ''No data found in the specified range.''
      else text_result
             (''Data from '' @ String (data_range d) @ '':'' @ [CHR 0x0A, CHR 0x0A] @
              join_with [CHR 0x0A] (map (join_with [CHR 0x09]) (data_values d))))"

subsection \<open>The authentication check\<close>

text \<open>\<^verbatim>\<open>checkAuth\<close>: the singleton is built on first use, then the token file is loaded
  again; every exception is turned into \<^verbatim>\<open>false\<close>.\<close>

definition checkAuth :: "'a world_scheme \<Rightarrow> bool \<times> 'a world_scheme" where
  "checkAuth w =
     (case getOAuthInstance (log_event CheckAuth w) of
        (Inl e, w1) \<Rightarrow> (False, w1)
      | (Inr oauth, w1) \<Rightarrow>
         (case loadTokens oauth w1 of
            (loaded, oauth1) \<Rightarrow> (loaded, w1\<lparr>oauthInstance := Some oauth1\<rparr>)))"

subsection \<open>The tools registered for the stdio transport (createServer)\<close>

text \<open>The parameter schemas as the source writes them with the schema library.\<close>

datatype zod =
    ZString
  | ZNumber
  | ZOptional zod
  | ZDefault zod json
  | ZDescribe zod string

record registered_tool =
  tool_name :: string
  tool_description :: string
  paramsSchema :: "(string \<times> zod) list"

definition createServer :: "registered_tool list" where
  \<open>createServer =
     [\<lparr>tool_name = ''get_document'',
       tool_description = ''Get the full content of a Google Doc by its ID or URL'',
       paramsSchema =
         [(''documentId'', ZDescribe ZString ''The document ID or full Google Docs URL'')]\<rparr>,
      \<lparr>tool_name = ''list_documents'',
       tool_description =
         ''List Google Docs accessible to the user, optionally filtered by search query'',
       paramsSchema =
         [(''limit'', ZDescribe (ZDefault (ZOptional ZNumber) (JNum 10))
                       ''Maximum number of documents to return (default: 10)''),
          (''query'', ZDescribe (ZOptional ZString)
                       ''Optional search query to filter documents'')]\<rparr>,
      \<lparr>tool_name = ''get_spreadsheet'',
       tool_description = ''Get metadata about a Google Spreadsheet including its sheets'',
       paramsSchema =
         [(''spreadsheetId'', ZDescribe ZString
                               ''The spreadsheet ID or full Google Sheets URL'')]\<rparr>,
      \<lparr>tool_name = ''get_sheet_data'',
       tool_description = ''Read data from a specific range in a Google Spreadsheet'',
       paramsSchema =
         [(''spreadsheetId'', ZDescribe ZString
                               ''The spreadsheet ID or full Google Sheets URL''),
          (''range'', ZDescribe ZString
             ''The A1 notation range to read (e.g., 'Sheet1!A1:D10' or 'A1:D10')'')]\<rparr>,
      \<lparr>tool_name = ''list_spreadsheets'',
       tool_description =
         ''List Google Spreadsheets accessible to the user, optionally filtered by search query'',
       paramsSchema =
         [(''limit'', ZDescribe (ZDefault (ZOptional ZNumber) (JNum 10))
                       ''Maximum number of spreadsheets to return (default: 10)''),
          (''query'', ZDescribe (ZOptional ZString)
                       ''Optional search query to filter spreadsheets'')]\<rparr>]\<close>

text \<open>The handlers of the five registrations, on arguments that passed their
  schema: a string is a string, \<open>limit\<close> is a number (the default filled in), an
  optional string is a string or \<^verbatim>\<open>undefined\<close>.\<close>

definition not_authenticated :: CallToolResult where
  "not_authenticated = error_result NOT_AUTHENTICATED"

definition get_document_handler ::
    "string \<Rightarrow> 'a world_scheme \<Rightarrow> CallToolResult \<times> 'a world_scheme" where
  "get_document_handler documentId w =
     (case checkAuth w of
        (isAuth, w1) \<Rightarrow>
          if \<not> isAuth then (not_authenticated, w1)
          else
            (case getDocument (Some (JStr documentId)) w1 of
               (Inr doc, w2) \<Rightarrow> (render_document doc, w2)
             | (Inl e, w2) \<Rightarrow> (caught e, w2)))"

definition list_documents_handler ::
    "int \<Rightarrow> string option \<Rightarrow> 'a world_scheme \<Rightarrow> CallToolResult \<times> 'a world_scheme" where
  "list_documents_handler limit query w =
     (case checkAuth w of
        (isAuth, w1) \<Rightarrow>
          if \<not> isAuth then (not_authenticated, w1)
          else
            (case listDocuments (Some (JNum limit)) (map_option JStr query) w1 of
               (Inr docs, w2) \<Rightarrow> (render_documents docs, w2)
             | (Inl e, w2) \<Rightarrow> (caught e, w2)))"

definition get_spreadsheet_handler ::
    "string \<Rightarrow> 'a world_scheme \<Rightarrow> CallToolResult \<times> 'a world_scheme" where
  "get_spreadsheet_handler spreadsheetId w =
     (case checkAuth w of
        (isAuth, w1) \<Rightarrow>
          if \<not> isAuth then (not_authenticated, w1)
          else
            (case getSpreadsheet (Some (JStr spreadsheetId)) w1 of
               (Inr spreadsheet, w2) \<Rightarrow> (render_spreadsheet spreadsheet, w2)
             | (Inl e, w2) \<Rightarrow> (caught e, w2)))"

definition get_sheet_data_handler ::
    "string \<Rightarrow> string \<Rightarrow> 'a world_scheme \<Rightarrow> CallToolResult \<times> 'a world_scheme" where
  "get_sheet_data_handler spreadsheetId range' w =
     (case checkAuth w of
        (isAuth, w1) \<Rightarrow>
          if \<not> isAuth then (not_authenticated, w1)
          else
            (case getSheetData (Some (JStr spreadsheetId)) (Some (JStr range')) w1 of
               (Inr d, w2) \<Rightarrow> (render_sheet_data d, w2)
             | (Inl e, w2) \<Rightarrow> (caught e, w2)))"

definition list_spreadsheets_handler ::
    "int \<Rightarrow> string option \<Rightarrow> 'a world_scheme \<Rightarrow> CallToolResult \<times> 'a world_scheme" where
  "list_spreadsheets_handler limit query w =
     (case checkAuth w of
        (isAuth, w1) \<Rightarrow>
          if \<not> isAuth then (not_authenticated, w1)
          else
            (case listSpreadsheets (Some (JNum limit)) (map_option JStr query) w1 of
               (Inr sheets, w2) \<Rightarrow> (render_spreadsheets sheets, w2)
             | (Inl e, w2) \<Rightarrow> (caught e, w2)))"

subsection \<open>The JSON-RPC handler of the HTTP transport (handleJsonRpc)\<close>

text \<open>The descriptors \<^verbatim>\<open>tools/list\<close> answers with.\<close>

record property_schema =
  property_type :: string
  property_description :: string

record input_schema =
  schema_type :: string
  properties :: "(string \<times> property_schema) list"
  required :: "string list option"

record tool_descriptor =
  name :: string
  description :: string
  inputSchema :: input_schema

definition tools :: "tool_descriptor list" where
  \<open>tools =
     [\<lparr>name = ''get_document'',
       description = ''Get the full content of a Google Doc by its ID or URL'',
       inputSchema =
         \<lparr>schema_type = ''object'',
          properties =
            [(''documentId'', \<lparr>property_type = ''string'',
                property_description = ''The document ID or full Google Docs URL''\<rparr>)],
          required = Some [''documentId'']\<rparr>\<rparr>,
      \<lparr>name = ''list_documents'',
       description =
         ''List Google Docs accessible to the user, optionally filtered by search query'',
       inputSchema =
         \<lparr>schema_type = ''object'',
          properties =
            [(''limit'', \<lparr>property_type = ''number'',
                property_description =
                  ''Maximum number of documents to return (default: 10)''\<rparr>),
             (''query'', \<lparr>property_type = ''string'',
                property_description = ''Optional search query to filter documents''\<rparr>)],
          required = None\<rparr>\<rparr>,
      \<lparr>name = ''get_spreadsheet'',
       description = ''Get metadata about a Google Spreadsheet including its sheets'',
       inputSchema =
         \<lparr>schema_type = ''object'',
          properties =
            [(''spreadsheetId'', \<lparr>property_type = ''string'',
                property_description = ''The spreadsheet ID or full Google Sheets URL''\<rparr>)],
          required = Some [''spreadsheetId'']\<rparr>\<rparr>,
      \<lparr>name = ''get_sheet_data'',
       description = ''Read data from a specific range in a Google Spreadsheet'',
       inputSchema =
         \<lparr>schema_type = ''object'',
          properties =
            [(''spreadsheetId'', \<lparr>property_type = ''string'',
                property_description = ''The spreadsheet ID or full Google Sheets URL''\<rparr>),
             (''range'', \<lparr>property_type = ''string'',
                property_description =
                  ''The A1 notation range to read (e.g., 'Sheet1!A1:D10')''\<rparr>)],
          required = Some [''spreadsheetId'', ''range'']\<rparr>\<rparr>,
      \<lparr>name = ''list_spreadsheets'',
       description =
         ''List Google Spreadsheets accessible to the user, optionally filtered by search query'',
       inputSchema =
         \<lparr>schema_type = ''object'',
          properties =
            [(''limit'', \<lparr>property_type = ''number'',
                property_description =
                  ''Maximum number of spreadsheets to return (default: 10)''\<rparr>),
             (''query'', \<lparr>property_type = ''string'',
                property_description = ''Optional search query to filter spreadsheets''\<rparr>)],
          required = None\<rparr>\<rparr>]\<close>

text \<open>A response has a \<^verbatim>\<open>result\<close> or an \<^verbatim>\<open>error\<close> with its code and message, and
  the \<^verbatim>\<open>id\<close> of the request.\<close>

record server_info =
  protocolVersion :: string
  capabilities :: "string list"
  serverInfo_name :: string
  serverInfo_version :: string

datatype rpc_result =
    Initialized server_info
  | ToolList "tool_descriptor list"
  | ToolResult CallToolResult

datatype response =
    Result rpc_result jsval
  | Failure int string jsval

text \<open>The cases of the \<^verbatim>\<open>switch\<close>, inside the inner \<^verbatim>\<open>try\<close>: \<open>None\<close> is the
  \<^verbatim>\<open>default\<close> case; \<open>Inl\<close> is an exception on its way to the \<^verbatim>\<open>catch\<close>. The
  arguments are whatever the request holds.\<close>

definition call_tool ::
    "jsval \<Rightarrow> jsval \<Rightarrow> 'a world_scheme \<Rightarrow> ((exn + CallToolResult) \<times> 'a world_scheme) option" where
  "call_tool tool args w =
     (if tool = Some (JStr ''get_document'') then
        Some (case member args ''documentId'' of
                Inl e \<Rightarrow> (Inl e, w)
              | Inr documentId \<Rightarrow>
                 (case getDocument documentId w of
                    (Inl e, w1) \<Rightarrow> (Inl e, w1)
                  | (Inr doc, w1) \<Rightarrow> (Inr (render_document doc), w1)))
      else if tool = Some (JStr ''list_documents'') then
        Some (case member args ''limit'' of
                Inl e \<Rightarrow> (Inl e, w)
              | Inr limit \<Rightarrow>
                 (case listDocuments (js_or limit (Some (JNum 10))) (opt_member args ''query'') w of
                    (Inl e, w1) \<Rightarrow> (Inl e, w1)
                  | (Inr docs, w1) \<Rightarrow> (Inr (render_documents docs), w1)))
      else if tool = Some (JStr ''get_spreadsheet'') then
        Some (case member args ''spreadsheetId'' of
                Inl e \<Rightarrow> (Inl e, w)
              | Inr spreadsheetId \<Rightarrow>
                 (case getSpreadsheet spreadsheetId w of
                    (Inl e, w1) \<Rightarrow> (Inl e, w1)
                  | (Inr spreadsheet, w1) \<Rightarrow> (Inr (render_spreadsheet spreadsheet), w1)))
      else if tool = Some (JStr ''get_sheet_data'') then
        Some (case member args ''spreadsheetId'' of
                Inl e \<Rightarrow> (Inl e, w)
              | Inr spreadsheetId \<Rightarrow>
                 (case getSheetData spreadsheetId (opt_member args ''range'') w of
                    (Inl e, w1) \<Rightarrow> (Inl e, w1)
                  | (Inr d, w1) \<Rightarrow> (Inr (render_sheet_data d), w1)))
      else if tool = Some (JStr ''list_spreadsheets'') then
        Some (case member args ''limit'' of
                Inl e \<Rightarrow> (Inl e, w)
              | Inr limit \<Rightarrow>
                 (case listSpreadsheets (js_or limit (Some (JNum 10))) (opt_member args ''query'') w of
                    (Inl e, w1) \<Rightarrow> (Inl e, w1)
                  | (Inr sheets, w1) \<Rightarrow> (Inr (render_spreadsheets sheets), w1)))
      else None)"

definition SERVER_INFO :: server_info where
  "SERVER_INFO =
     \<lparr>protocolVersion = ''2024-11-05'', capabilities = [''tools''],
      serverInfo_name = ''google-docs-mcp'', serverInfo_version = ''1.0.0''\<rparr>"

text \<open>\<^verbatim>\<open>handleJsonRpc\<close>. The request is any parsed JSON. The first destructuring is
  outside the \<^verbatim>\<open>try\<close>: on \<^verbatim>\<open>null\<close> it throws out of the function (\<open>Inl\<close>). The
  destructuring of \<^verbatim>\<open>params\<close> is inside the outer \<^verbatim>\<open>try\<close>, whose \<^verbatim>\<open>catch\<close> answers
  with the code \<open>-32603\<close>.\<close>

definition handleJsonRpc ::
    "'a world_scheme \<Rightarrow> json \<Rightarrow> (exn + response) \<times> 'a world_scheme" where
  "handleJsonRpc w request =
     (case member (Some request) ''jsonrpc'' of
        Inl e \<Rightarrow> (Inl e, w)
      | Inr jsonrpc \<Rightarrow>
         (let method = get_member request ''method'';
              params = get_member request ''params'';
              ident = get_member request ''id''
          in
          if jsonrpc \<noteq> Some (JStr ''2.0'') then
            (Inr (Failure (- 32600) ''Invalid JSON-RPC version'' ident), w)
          else if method = Some (JStr ''initialize'') then
            (Inr (Result (Initialized SERVER_INFO) ident), w)
          else if method = Some (JStr ''tools/list'') then
            (Inr (Result (ToolList tools) ident), w)
          else if method = Some (JStr ''tools/call'') then
            (case member params ''name'' of
               Inl e \<Rightarrow> (Inr (Failure (- 32603) (message e) ident), w)
             | Inr tool \<Rightarrow>
                (let args = opt_member params ''arguments'' in
                 case checkAuth w of
                   (isAuth, w1) \<Rightarrow>
                     if \<not> isAuth then (Inr (Result (ToolResult not_authenticated) ident), w1)
                     else
                       (case call_tool tool args w1 of
                          None \<Rightarrow>
                            (Inr (Failure (- 32601) (''Unknown tool: '' @ String tool) ident), w1)
                        | Some (Inl e, w2) \<Rightarrow> (Inr (Result (ToolResult (caught e)) ident), w2)
                        | Some (Inr r, w2) \<Rightarrow> (Inr (Result (ToolResult r) ident), w2))))
          else (Inr (Failure (- 32601) (''Method not found: '' @ String method) ident), w)))"

text \<open>The \<^verbatim>\<open>POST /rpc\<close> route: the body is parsed, the handler called; an exception of
  either is answered with status 400, the code \<open>-32700\<close> and the id \<^verbatim>\<open>null\<close>.\<close>

definition post_rpc :: "'a world_scheme \<Rightarrow> string \<Rightarrow> (nat \<times> response) \<times> 'a world_scheme" where
  "post_rpc w body =
     (case JSON_parse body of
        Inl e \<Rightarrow> ((400, Failure (- 32700) (message e) (Some JNull)), w)
      | Inr request \<Rightarrow>
         (case handleJsonRpc w request of
            (Inl e, w1) \<Rightarrow> ((400, Failure (- 32700) (message e) (Some JNull)), w1)
          | (Inr r, w1) \<Rightarrow> ((200, r), w1)))"

subsection \<open>What the two transports advertise\<close>

text \<open>
  The stdio transport's listing is generated by the protocol library from the
  registrations of \<^verbatim>\<open>createServer\<close>; the HTTP transport answers with \<open>tools\<close>. Both are
  read here in one shape: for each tool its name, its description, its parameters
  with type and description, and the names of its required parameters. A parameter of a
  registration is required unless its schema is optional or has a default; type and
  description are those of the schema under its wrappers. The default value a
  registration declares is left out of this shape: the HTTP listing has no member for
  it and names it in the description only.
\<close>

fun zod_type :: "zod \<Rightarrow> string" where
  "zod_type ZString = ''string''"
| "zod_type ZNumber = ''number''"
| "zod_type (ZOptional z) = zod_type z"
| "zod_type (ZDefault z v) = zod_type z"
| "zod_type (ZDescribe z d) = zod_type z"

fun zod_description :: "zod \<Rightarrow> string" where
  "zod_description (ZDescribe z d) = d"
| "zod_description (ZOptional z) = zod_description z"
| "zod_description (ZDefault z v) = zod_description z"
| "zod_description z = []"

fun zod_required :: "zod \<Rightarrow> bool" where
  "zod_required (ZOptional z) = False"
| "zod_required (ZDefault z v) = False"
| "zod_required (ZDescribe z d) = zod_required z"
| "zod_required z = True"

type_synonym listing = "(string \<times> string \<times> (string \<times> string \<times> string) list \<times> string list) list"

definition stdio_listing :: listing where
  "stdio_listing =
     map (\<lambda>t. (tool_name t, tool_description t,
               map (\<lambda>(k, z). (k, zod_type z, zod_description z)) (paramsSchema t),
               map fst (filter (\<lambda>(k, z). zod_required z) (paramsSchema t))))
         createServer"

definition http_listing :: listing where
  "http_listing =
     map (\<lambda>t. (name t, description t,
               map (\<lambda>(k, p). (k, property_type p, property_description p))
                   (properties (inputSchema t)),
               (case required (inputSchema t) of None \<Rightarrow> [] | Some names \<Rightarrow> names)))
         tools"

text \<open>A \<^verbatim>\<open>tools/list\<close> request.\<close>

definition list_request :: json where
  "list_request = JObj [(''jsonrpc'', JStr ''2.0''), (''method'', JStr ''tools/list''), (''id'', JNum 4)]"

section \<open>Concrete worlds\<close>

text \<open>
  A small deployment on which the definitions can be run: the client id and secret
  come from the environment, the working directory is \<open>/srv\<close>, an empty directory. The
  token endpoint rejects every request; the APIs answer with empty results.
\<close>

definition demo_tokens :: StoredTokens where
  "demo_tokens =
     \<lparr>access_token = Some ''ya29.a'', refresh_token = Some ''1//r'', expiry_date = None,
      token_type = None, scope = None\<rparr>"

definition demo_tokens_text :: string where
  \<open>demo_tokens_text =
     ''{'' @ [CHR 0x0A] @ ''  "access_token": "ya29.a",'' @ [CHR 0x0A] @
     ''  "refresh_token": "1//r"'' @ [CHR 0x0A] @ ''}''\<close>

definition access_only :: StoredTokens where
  "access_only =
     \<lparr>access_token = Some ''ya29.a'', refresh_token = None, expiry_date = None,
      token_type = None, scope = None\<rparr>"

definition access_only_text :: string where
  \<open>access_only_text = ''{'' @ [CHR 0x0A] @ ''  "access_token": "ya29.a"'' @ [CHR 0x0A] @ ''}''\<close>

text \<open>A client-secret file of the \<^verbatim>\<open>installed\<close> layout, as parsed and as text.\<close>

definition client_secret_json :: json where
  "client_secret_json =
     JObj [(''installed'',
            JObj [(''client_id'', JStr ''file-client''),
                  (''client_secret'', JStr ''file-secret''),
                  (''redirect_uris'', JArr [JStr ''http://localhost''])])]"

definition client_secret_text :: string where
  \<open>client_secret_text =
     ''{"installed":{"client_id":"file-client","client_secret":"file-secret",'' @
     ''"redirect_uris":["http://localhost"]}}''\<close>

definition demo_world :: world where
  "demo_world =
     \<lparr>env = [''GOOGLE_CLIENT_ID'' \<mapsto> ''client-1'', ''GOOGLE_CLIENT_SECRET'' \<mapsto> ''secret-1''],
      cwd = ''/srv'',
      files = [(''srv'', Dir [])],
      oauthInstance = None,
      refreshToken = (\<lambda>creds. Inl (Error ''invalid_grant'')),
      getToken = (\<lambda>code. Inl (Error ''invalid_grant'')),
      documents_get = (\<lambda>client ident. Inl (Error ''Requested entity was not found.'')),
      spreadsheets_get = (\<lambda>client ident. Inl (Error ''Requested entity was not found.'')),
      values_get = (\<lambda>client ident r. Inr \<lparr>vr_range = None, vr_values = None\<rparr>),
      files_list = (\<lambda>client q pageSize. Inr None),
      trace = []\<rparr>"

text \<open>The session the constructor builds in \<open>demo_world\<close>, and the same session after
  \<open>demo_tokens\<close> were installed.\<close>

definition demo_session :: GoogleOAuth where
  "demo_session =
     \<lparr>oauth2Client =
        \<lparr>opt_clientId = Some (JStr ''client-1''), opt_clientSecret = Some (JStr ''secret-1''),
         opt_redirectUri = Some (JStr DEFAULT_REDIRECT_URI), credentials = JObj []\<rparr>,
      credentialsPath = ''/srv/.credentials/tokens.json''\<rparr>"

definition signed_in_session :: GoogleOAuth where
  "signed_in_session = setCredentials demo_session (tokens_object demo_tokens)"

text \<open>\<open>demo_world\<close> after a completed authorization: the token file holds
  \<open>demo_tokens\<close>.\<close>

definition signed_in_world :: world where
  "signed_in_world =
     demo_world\<lparr>files :=
       [(''srv'', Dir [(''.credentials'', Dir [(''tokens.json'', File demo_tokens_text)])])]\<rparr>"

text \<open>The server at work after the authorization: the singleton is the signed-in
  session.\<close>

definition running_world :: world where
  "running_world = signed_in_world\<lparr>oauthInstance := Some signed_in_session\<rparr>"

text \<open>\<open>demo_world\<close> with a client-secret file at the first candidate path that does not
  parse; the same with a good file at the second candidate path; and a first candidate
  that parses, to the empty object, before the good second one.\<close>

definition malformed_secret_world :: world where
  "malformed_secret_world =
     demo_world\<lparr>files := [(''srv'', Dir [(''client_secret.json'', File ''{oops'')])]\<rparr>"

definition file_secret_world :: world where
  "file_secret_world =
     demo_world\<lparr>files :=
       [(''srv'', Dir [(''client_secret.json'', File ''{oops''),
                      (''.credentials'', Dir [(''client_secret.json'', File client_secret_text)])])]\<rparr>"

definition empty_secret_world :: world where
  "empty_secret_world =
     demo_world\<lparr>files :=
       [(''srv'', Dir [(''client_secret.json'', File ''{}''),
                      (''.credentials'', Dir [(''client_secret.json'', File client_secret_text)])])]\<rparr>"

text \<open>\<open>file_secret_world\<close> with the base directory named by the environment, with a
  separator at its end, and run from another working directory.\<close>

definition base_path_world :: world where
  "base_path_world =
     file_secret_world\<lparr>env := (env file_secret_world)(''GOOGLE_CREDENTIALS_PATH'' \<mapsto> ''/srv/''),
                        cwd := ''/''\<rparr>"

text \<open>Tokens whose expiry date is not a number any more, and what is left of them in a
  JSON text.\<close>

definition nan_tokens :: json where
  "nan_tokens =
     JObj [(''access_token'', JStr ''ya29.a''), (''refresh_token'', JStr ''1//r''),
           (''expiry_date'', JNaN)]"

definition null_tokens :: json where
  "null_tokens =
     JObj [(''access_token'', JStr ''ya29.a''), (''refresh_token'', JStr ''1//r''),
           (''expiry_date'', JNull)]"

text \<open>An explicit configuration that names the client id only.\<close>

definition explicit_id :: OAuthConfig where
  "explicit_id =
     \<lparr>clientId = Some (JStr ''explicit-client''), clientSecret = None, redirectUri = None\<rparr>"

text \<open>A \<^verbatim>\<open>tools/call\<close> request without \<^verbatim>\<open>params\<close>, and one for \<^verbatim>\<open>get_sheet_data\<close>.\<close>

definition call_without_params :: json where
  "call_without_params =
     JObj [(''jsonrpc'', JStr ''2.0''), (''method'', JStr ''tools/call''), (''id'', JNum 1)]"

definition call_get_sheet_data :: json where
  "call_get_sheet_data =
     JObj [(''jsonrpc'', JStr ''2.0''), (''method'', JStr ''tools/call''),
           (''params'', JObj [(''name'', JStr ''get_sheet_data''),
                             (''arguments'', JObj [(''spreadsheetId'', JStr ''X''),
                                                  (''range'', JStr ''A1:B2'')])]),
           (''id'', JNum 1)]"

text \<open>The same call under the version tag \<^verbatim>\<open>1.0\<close>.\<close>

definition call_version_1 :: json where
  "call_version_1 =
     JObj [(''jsonrpc'', JStr ''1.0''), (''method'', JStr ''tools/call''),
           (''params'', JObj [(''name'', JStr ''get_sheet_data''),
                             (''arguments'', JObj [(''spreadsheetId'', JStr ''X''),
                                                  (''range'', JStr ''A1:B2'')])]),
           (''id'', JNum 7)]"

text \<open>Calls of the two list tools, without arguments of their own.\<close>

definition call_list_documents :: json where
  "call_list_documents =
     JObj [(''jsonrpc'', JStr ''2.0''), (''method'', JStr ''tools/call''),
           (''params'', JObj [(''name'', JStr ''list_documents''), (''arguments'', JObj [])]),
           (''id'', JNum 2)]"

definition call_list_spreadsheets :: json where
  "call_list_spreadsheets =
     JObj [(''jsonrpc'', JStr ''2.0''), (''method'', JStr ''tools/call''),
           (''params'', JObj [(''name'', JStr ''list_spreadsheets''), (''arguments'', JObj [])]),
           (''id'', JNum 3)]"

section \<open>Values that survive a JSON text\<close>

text \<open>
  The digits of a number that is not an integer are kept without leading and trailing
  zeros. \<open>encodable\<close> holds for the values \<^verbatim>\<open>JSON.stringify\<close> writes without loss: every
  number in them is finite, and no object has a member name twice.
\<close>

definition canonical :: "string \<Rightarrow> bool" where
  "canonical s = (s \<noteq> [] \<and> list_all is_digit s \<and> hd s \<noteq> CHR ''0'' \<and> last s \<noteq> CHR ''0'')"

fun encodable :: "json \<Rightarrow> bool" where
  "encodable JNull = True"
| "encodable (JBool b) = True"
| "encodable (JNum i) = True"
| "encodable (JDec neg s n) = (canonical s \<and> n < int (length s))"
| "encodable JNaN = False"
| "encodable (JInf neg) = False"
| "encodable (JStr s) = True"
| "encodable (JArr xs) = list_all encodable xs"
| "encodable (JObj ms) = (distinct (map fst ms) \<and> list_all (\<lambda>(k, v). encodable v) ms)"

text \<open>What may follow a number token, and the value the parser gives to the digits \<open>s\<close>
  with the decimal point behind the first \<open>n\<close> of them.\<close>

definition number_end :: "string \<Rightarrow> bool" where
  "number_end rest =
     (case rest of [] \<Rightarrow> True
      | c # cs \<Rightarrow> \<not> is_digit c \<and> c \<noteq> CHR ''.'' \<and> c \<noteq> CHR ''e'' \<and> c \<noteq> CHR ''E'')"

definition canonical_value :: "bool \<Rightarrow> string \<Rightarrow> int \<Rightarrow> json" where
  "canonical_value neg s n =
     (if int (length s) \<le> n
      then JNum ((if neg then - 1 else 1) * int (read_nat (s @ replicate (nat (n - int (length s))) CHR ''0'')))
      else JDec neg s n)"

section \<open>Basic facts\<close>

lemma member_Some: "j \<noteq> JNull \<Longrightarrow> member (Some j) k = Inr (get_member j k)"
  by (cases j) simp_all

lemma opt_member_Some: "j \<noteq> JNull \<Longrightarrow> opt_member (Some j) k = get_member j k"
  by (cases j) simp_all

lemma get_member_Some_not_null: "get_member j k = Some v \<Longrightarrow> j \<noteq> JNull"
  by (cases j) simp_all

lemma opt_member_truthy: "truthy (opt_member (Some j) k) = truthy (get_member j k)"
  by (cases j) simp_all

text \<open>The trace grows by one entry with every authentication check, so a world that
  comes back unchanged has seen none.\<close>

lemma trace_getOAuthInstance: "trace (snd (getOAuthInstance w)) = trace w"
  by (simp add: getOAuthInstance_def split: option.split sum.split)

lemma trace_checkAuth: "trace (snd (checkAuth w)) = trace w @ [CheckAuth]"
  using trace_getOAuthInstance[of "log_event CheckAuth w"]
  by (auto simp: checkAuth_def log_event_def split: prod.split sum.split)

lemma trace_ensureAuthenticated:
  "trace (snd (ensureAuthenticated w)) = trace w @ [EnsureAuthenticated]"
  using trace_getOAuthInstance[of "log_event EnsureAuthenticated w"]
  by (auto simp: ensureAuthenticated_def log_event_def Let_def split: prod.split sum.split)

section \<open>Identifier extraction\<close>

lemma id_char_not_dot: "id_char c \<Longrightarrow> c \<noteq> CHR ''.''"
  by (auto simp: id_char_def)

lemma str_includes_subset: "str_includes s sub \<Longrightarrow> set sub \<subseteq> set s"
proof (induction s)
  case Nil
  then show ?case by simp
next
  case (Cons c cs)
  show ?case
  proof (cases "starts_with (c # cs) sub")
    case True
    then have "sub = take (length sub) (c # cs)" by (simp add: starts_with_def)
    then have "set sub \<subseteq> set (c # cs)" by (metis set_take_subset)
    then show ?thesis .
  next
    case False
    with Cons show ?thesis by auto
  qed
qed

text \<open>A string of identifier characters has no dot, so it is never taken for a URL.\<close>

lemma bare_not_url:
  assumes "\<forall>c\<in>set s. id_char c" and "CHR ''.'' \<in> set marker"
  shows "\<not> str_includes s marker"
proof
  assume "str_includes s marker"
  then have "CHR ''.'' \<in> set s" using assms(2) str_includes_subset by blast
  with assms(1) id_char_not_dot show False by blast
qed

lemma takeWhile_ident:
  assumes "\<forall>c\<in>set ident. id_char c" and "case rest of [] \<Rightarrow> True | c # cs \<Rightarrow> \<not> id_char c"
  shows "takeWhile id_char (ident @ rest) = ident"
  using assms by (cases rest) (simp_all add: takeWhile_eq_all_conv)

text \<open>What the pattern captures is a non-empty run of identifier characters that
  follows the literal path and is not followed by another identifier character.\<close>

lemma regex_match_Some:
  "regex_match lit s = Some m \<Longrightarrow>
     \<exists>pre post. s = pre @ lit @ m @ post \<and> m \<noteq> [] \<and> (\<forall>c\<in>set m. id_char c) \<and>
                (case post of [] \<Rightarrow> True | c # cs \<Rightarrow> \<not> id_char c)"
proof (induction s)
  case Nil
  then show ?case by simp
next
  case (Cons c cs)
  let ?tail = "drop (length lit) (c # cs)"
  show ?case
  proof (cases "starts_with (c # cs) lit \<and> takeWhile id_char ?tail \<noteq> []")
    case True
    with Cons.prems have m: "m = takeWhile id_char ?tail" by simp
    from True have "c # cs = lit @ ?tail"
      by (metis append_take_drop_id starts_with_def)
    then have split: "c # cs = [] @ lit @ m @ dropWhile id_char ?tail"
      unfolding m by simp
    have "case dropWhile id_char ?tail of [] \<Rightarrow> True | x # xs \<Rightarrow> \<not> id_char x"
    proof (cases "dropWhile id_char ?tail")
      case Nil
      show ?thesis unfolding Nil by simp
    next
      case (Cons a list)
      then have "dropWhile id_char ?tail \<noteq> []" by simp
      then have "\<not> id_char (hd (dropWhile id_char ?tail))"
        by (rule hd_dropWhile)
      with Cons show ?thesis by simp
    qed
    moreover have "m \<noteq> []" using True m by simp
    moreover have "\<forall>x\<in>set m. id_char x" unfolding m by (auto dest: set_takeWhileD)
    ultimately show ?thesis using split by blast
  next
    case False
    with Cons.prems have "regex_match lit cs = Some m" by auto
    from Cons.IH[OF this] obtain pre post where
      "cs = pre @ lit @ m @ post" "m \<noteq> []" "\<forall>c\<in>set m. id_char c"
      "case post of [] \<Rightarrow> True | c # cs \<Rightarrow> \<not> id_char c" by blast
    then have "c # cs = (c # pre) @ lit @ m @ post" by simp
    with \<open>m \<noteq> []\<close> \<open>\<forall>c\<in>set m. id_char c\<close>
      \<open>case post of [] \<Rightarrow> True | c # cs \<Rightarrow> \<not> id_char c\<close>
    show ?thesis by blast
  qed
qed

lemma document_url:
  assumes "ident \<noteq> []" "\<forall>c\<in>set ident. id_char c"
    "case rest of [] \<Rightarrow> True | c # cs \<Rightarrow> \<not> id_char c"
  shows "extractDocumentId (''https://docs.google.com/document/d/'' @ ident @ rest) = ident"
  using assms takeWhile_ident[OF assms(2,3)]
  by (simp add: extractDocumentId_def starts_with_def)

lemma spreadsheet_url:
  assumes "ident \<noteq> []" "\<forall>c\<in>set ident. id_char c"
    "case rest of [] \<Rightarrow> True | c # cs \<Rightarrow> \<not> id_char c"
  shows "extractSpreadsheetId (''https://docs.google.com/spreadsheets/d/'' @ ident @ rest) = ident"
  using assms takeWhile_ident[OF assms(2,3)]
  by (simp add: extractSpreadsheetId_def starts_with_def)

text \<open>
  C7. Both extractors map an input that contains the host marker and matches the path
  pattern to the captured identifier; in particular a browser URL
  \<^verbatim>\<open>https://docs.google.com/document/d/ID...\<close> (or \<^verbatim>\<open>.../spreadsheets/d/ID...\<close>) to
  \<open>ID\<close>, and \<^verbatim>\<open>https://docs.google.com/document/d/ABC123/edit\<close> to \<^verbatim>\<open>ABC123\<close>. A bare
  identifier is returned unchanged, and so is every input the pattern does not match.
\<close>

theorem identifier_extraction:
  "(str_includes url ''docs.google.com'' \<and> regex_match ''/document/d/'' url = Some m \<longrightarrow>
      extractDocumentId url = m) \<and>
   (str_includes url' ''docs.google.com/spreadsheets'' \<and>
    regex_match ''/spreadsheets/d/'' url' = Some m' \<longrightarrow>
      extractSpreadsheetId url' = m') \<and>
   (ident \<noteq> [] \<and> (\<forall>c\<in>set ident. id_char c) \<and>
    (case rest of [] \<Rightarrow> True | c # cs \<Rightarrow> \<not> id_char c) \<longrightarrow>
      extractDocumentId (''https://docs.google.com/document/d/'' @ ident @ rest) = ident \<and>
      extractSpreadsheetId (''https://docs.google.com/spreadsheets/d/'' @ ident @ rest) = ident) \<and>
   extractDocumentId ''https://docs.google.com/document/d/ABC123/edit'' = ''ABC123'' \<and>
   ((\<forall>c\<in>set bare. id_char c) \<longrightarrow>
      extractDocumentId bare = bare \<and> extractSpreadsheetId bare = bare) \<and>
   (regex_match ''/document/d/'' s = None \<longrightarrow> extractDocumentId s = s) \<and>
   (regex_match ''/spreadsheets/d/'' s' = None \<longrightarrow> extractSpreadsheetId s' = s')"
proof -
  have example: "extractDocumentId ''https://docs.google.com/document/d/ABC123/edit'' = ''ABC123''"
    by code_simp
  have bare: "extractDocumentId bare = bare \<and> extractSpreadsheetId bare = bare"
    if "\<forall>c\<in>set bare. id_char c"
    using bare_not_url[OF that, of "''docs.google.com''"]
      bare_not_url[OF that, of "''docs.google.com/spreadsheets''"]
    by (simp add: extractDocumentId_def extractSpreadsheetId_def)
  show ?thesis
    using example bare document_url[of ident rest] spreadsheet_url[of ident rest]
    by (simp add: extractDocumentId_def extractSpreadsheetId_def)
qed

theorem identifier_extraction_witness:
  "str_includes ''https://docs.google.com/document/d/ABC123/edit'' ''docs.google.com'' \<and>
   regex_match ''/document/d/'' ''https://docs.google.com/document/d/ABC123/edit'' = Some ''ABC123'' \<and>
   extractDocumentId ''https://docs.google.com/document/d/ABC123/edit'' = ''ABC123'' \<and>
   str_includes ''https://docs.google.com/spreadsheets/d/1a_B-c/edit#gid=0''
     ''docs.google.com/spreadsheets'' \<and>
   regex_match ''/spreadsheets/d/'' ''https://docs.google.com/spreadsheets/d/1a_B-c/edit#gid=0''
     = Some ''1a_B-c'' \<and>
   extractSpreadsheetId ''https://docs.google.com/spreadsheets/d/1a_B-c/edit#gid=0'' = ''1a_B-c'' \<and>
   ''Zx9'' \<noteq> [] \<and> list_all id_char ''Zx9'' \<and>
   (case ''?tab=1'' of [] \<Rightarrow> True | c # cs \<Rightarrow> \<not> id_char c) \<and>
   extractDocumentId (''https://docs.google.com/document/d/'' @ ''Zx9'' @ ''?tab=1'') = ''Zx9'' \<and>
   extractSpreadsheetId (''https://docs.google.com/spreadsheets/d/'' @ ''Zx9'' @ ''?tab=1'') = ''Zx9'' \<and>
   list_all id_char ''ABC123'' \<and>
   extractDocumentId ''ABC123'' = ''ABC123'' \<and> extractSpreadsheetId ''ABC123'' = ''ABC123'' \<and>
   regex_match ''/document/d/'' ''docs.google.com/document/'' = None \<and>
   extractDocumentId ''docs.google.com/document/'' = ''docs.google.com/document/'' \<and>
   regex_match ''/spreadsheets/d/'' ''not a link'' = None \<and>
   extractSpreadsheetId ''not a link'' = ''not a link''"
proof -
  have h1: "str_includes ''https://docs.google.com/document/d/ABC123/edit'' ''docs.google.com''"
    by code_simp
  have h2: "regex_match ''/document/d/'' ''https://docs.google.com/document/d/ABC123/edit''
              = Some ''ABC123''"
    by code_simp
  have h3: "str_includes ''https://docs.google.com/spreadsheets/d/1a_B-c/edit#gid=0''
              ''docs.google.com/spreadsheets''"
    by code_simp
  have h4: "regex_match ''/spreadsheets/d/''
              ''https://docs.google.com/spreadsheets/d/1a_B-c/edit#gid=0'' = Some ''1a_B-c''"
    by code_simp
  have h5: "''Zx9'' \<noteq> [] \<and> (\<forall>c\<in>set ''Zx9''. id_char c) \<and>
            (case ''?tab=1'' of [] \<Rightarrow> True | c # cs \<Rightarrow> \<not> id_char c)"
    by code_simp
  have h6: "\<forall>c\<in>set ''ABC123''. id_char c"
    by code_simp
  have h7: "regex_match ''/document/d/'' ''docs.google.com/document/'' = None"
    by code_simp
  have h8: "regex_match ''/spreadsheets/d/'' ''not a link'' = None"
    by code_simp
  from identifier_extraction
         [of "''https://docs.google.com/document/d/ABC123/edit''" "''ABC123''"
             "''https://docs.google.com/spreadsheets/d/1a_B-c/edit#gid=0''" "''1a_B-c''"
             "''Zx9''" "''?tab=1''" "''ABC123''" "''docs.google.com/document/''" "''not a link''"]
    h1 h2 h3 h4 h5 h6 h7 h8
  show ?thesis unfolding list_all_iff by blast
qed

section \<open>The authentication state\<close>

lemma get_member_tokens_refresh:
  "get_member (tokens_object t) ''refresh_token'' = map_option JStr (refresh_token t)"
  by (cases "access_token t"; cases "refresh_token t"; cases "expiry_date t";
      cases "token_type t"; cases "scope t")
     (simp_all add: tokens_object_def)

lemma isAuthenticated_refresh_token:
  "isAuthenticated oauth =
     truthy (get_member (credentials (oauth2Client oauth)) ''refresh_token'')"
  by (cases "credentials (oauth2Client oauth)")
     (simp_all add: isAuthenticated_def js_and_def Let_def)

text \<open>
  C6. \<open>isAuthenticated\<close> is a function of the session's current credentials alone (it
  takes no world, so there is nothing it could ask the network): it is true exactly
  when they hold a truthy refresh token. For credentials that are a \<open>StoredTokens\<close>
  value this means a non-empty refresh token; without one the answer is false,
  whatever the access token is.
\<close>

theorem isAuthenticated_iff_refresh_token:
  "isAuthenticated oauth =
     truthy (get_member (credentials (oauth2Client oauth)) ''refresh_token'') \<and>
   isAuthenticated (setCredentials oauth (tokens_object t)) =
     (case refresh_token t of None \<Rightarrow> False | Some r \<Rightarrow> r \<noteq> []) \<and>
   isAuthenticated
     (setCredentials oauth (tokens_object (t\<lparr>access_token := a, refresh_token := None\<rparr>))) = False \<and>
   isAuthenticated
     (setCredentials oauth (tokens_object (t\<lparr>access_token := a, refresh_token := Some []\<rparr>))) = False"
  by (simp add: isAuthenticated_refresh_token get_member_tokens_refresh setCredentials_def
           split: option.split)

section \<open>Searching documents\<close>

lemma default_limit_idem: "default_limit (default_limit limit) = default_limit limit"
  by (cases limit) (simp_all add: default_limit_def)

text \<open>
  C9. For every query and every limit, also an omitted one, \<open>searchDocuments\<close> returns
  what \<open>listDocuments\<close> returns on the swapped arguments, and leaves the same world.
\<close>

theorem searchDocuments_is_listDocuments:
  "searchDocuments query limit w = listDocuments limit query w"
  unfolding searchDocuments_def listDocuments_def default_limit_idem ..

section \<open>The dispatcher\<close>

text \<open>A \<^verbatim>\<open>tools/call\<close> request whose \<^verbatim>\<open>params\<close> can be destructured reaches the
  authentication check, and only then the \<^verbatim>\<open>switch\<close>.\<close>

lemma handleJsonRpc_call:
  assumes "get_member request ''jsonrpc'' = Some (JStr ''2.0'')"
    and "get_member request ''method'' = Some (JStr ''tools/call'')"
    and "get_member request ''params'' = Some params" and "params \<noteq> JNull"
  shows "handleJsonRpc w request =
     (case checkAuth w of
        (isAuth, w1) \<Rightarrow>
          if \<not> isAuth
          then (Inr (Result (ToolResult not_authenticated) (get_member request ''id'')), w1)
          else
            (case call_tool (get_member params ''name'') (get_member params ''arguments'') w1 of
               None \<Rightarrow>
                 (Inr (Failure (- 32601)
                         (''Unknown tool: '' @ String (get_member params ''name''))
                         (get_member request ''id'')), w1)
             | Some (Inl e, w2) \<Rightarrow>
                 (Inr (Result (ToolResult (caught e)) (get_member request ''id'')), w2)
             | Some (Inr r, w2) \<Rightarrow>
                 (Inr (Result (ToolResult r) (get_member request ''id'')), w2)))"
proof -
  have "request \<noteq> JNull" using assms(1) by (rule get_member_Some_not_null)
  then show ?thesis
    using assms by (simp add: handleJsonRpc_def member_Some opt_member_Some Let_def)
qed

text \<open>
  C4. Every request that can be destructured (any JSON value but \<^verbatim>\<open>null\<close>) and whose
  \<^verbatim>\<open>jsonrpc\<close> member is not the string \<^verbatim>\<open>2.0\<close>, a missing member included, is answered
  with the error code \<open>-32600\<close> (invalid request) and the \<^verbatim>\<open>id\<close> of the request. The world
  comes back as it was: no authentication check and no fetcher ran, since each of them
  would have extended the trace.
\<close>

theorem wrong_version_rejected:
  assumes "request \<noteq> JNull" and "get_member request ''jsonrpc'' \<noteq> Some (JStr ''2.0'')"
  shows "handleJsonRpc w request =
           (Inr (Failure (- 32600) ''Invalid JSON-RPC version'' (get_member request ''id'')), w)"
  using assms by (cases request) (simp_all add: handleJsonRpc_def)

theorem wrong_version_rejected_witness:
  "call_version_1 \<noteq> JNull \<and>
   get_member call_version_1 ''jsonrpc'' \<noteq> Some (JStr ''2.0'') \<and>
   handleJsonRpc signed_in_world call_version_1 =
     (Inr (Failure (- 32600) ''Invalid JSON-RPC version'' (Some (JNum 7))), signed_in_world)"
proof -
  have h1: "call_version_1 \<noteq> JNull"
    by (simp add: call_version_1_def)
  have h2: "get_member call_version_1 ''jsonrpc'' \<noteq> Some (JStr ''2.0'')"
    by (simp add: call_version_1_def)
  have h3: "get_member call_version_1 ''id'' = Some (JNum 7)"
    by (simp add: call_version_1_def)
  from wrong_version_rejected[OF h1 h2, of signed_in_world] h1 h2 h3
  show ?thesis by simp
qed

text \<open>What \<open>loadTokens\<close> and \<open>checkAuth\<close> decide: the session counts as authenticated
  exactly when the token file is a regular file whose text parses to a value with a
  truthy refresh token; a missing, unreadable or unparsable file gives \<^verbatim>\<open>false\<close>.\<close>

lemma readFileSync_exists: "readFileSync w p = Inr body \<Longrightarrow> existsSync w p"
  by (auto simp: readFileSync_def existsSync_def split: option.splits entry.splits)

lemma loadTokens_eq:
  "loadTokens oauth w =
     (case readFileSync w (credentialsPath oauth) of
        Inr body \<Rightarrow>
          (case JSON_parse body of
             Inr tokens \<Rightarrow>
               if truthy (opt_member (Some tokens) ''refresh_token'')
               then (True, setCredentials oauth tokens) else (False, oauth)
           | Inl e \<Rightarrow> (False, oauth))
      | Inl e \<Rightarrow> (False, oauth))"
proof -
  have null: "member (Some tokens) ''refresh_token'' = Inl e \<Longrightarrow>
                \<not> truthy (opt_member (Some tokens) ''refresh_token'')" for tokens e
    by (cases tokens) simp_all
  have other: "member (Some tokens) ''refresh_token'' = Inr v \<Longrightarrow>
                 opt_member (Some tokens) ''refresh_token'' = v" for tokens v
    by (cases tokens) auto
  show ?thesis
    by (auto simp: loadTokens_def null other dest: readFileSync_exists split: sum.split)
qed

lemma loadTokens_log_event: "loadTokens oauth (log_event ev w) = loadTokens oauth w"
proof -
  have r: "resolve (log_event ev w) p = resolve w p" for p
    by (simp add: resolve_def start_dir_def log_event_def)
  have f: "files (log_event ev w) = files w"
    by (simp add: log_event_def)
  have "existsSync (log_event ev w) p = existsSync w p"
    and "readFileSync (log_event ev w) p = readFileSync w p" for p
    by (simp_all only: existsSync_def readFileSync_def r f)
  then show ?thesis by (simp only: loadTokens_def)
qed

lemma checkAuth_existing_session:
  "oauthInstance w = Some oauth \<Longrightarrow> fst (checkAuth w) = fst (loadTokens oauth w)"
proof -
  assume "oauthInstance w = Some oauth"
  then have "getOAuthInstance (log_event CheckAuth w) = (Inr oauth, log_event CheckAuth w)"
    by (simp add: getOAuthInstance_def log_event_def)
  then show ?thesis
    by (simp add: checkAuth_def loadTokens_log_event split: prod.split)
qed

lemma checkAuth_no_token_file:
  "oauthInstance w = Some oauth \<Longrightarrow> \<not> existsSync w (credentialsPath oauth) \<Longrightarrow>
     fst (checkAuth w) = False"
  by (simp add: checkAuth_existing_session loadTokens_def)

lemma checkAuth_no_refresh_token:
  "oauthInstance w = Some oauth \<Longrightarrow> readFileSync w (credentialsPath oauth) = Inr body \<Longrightarrow>
   JSON_parse body = Inr tokens \<Longrightarrow> \<not> truthy (opt_member (Some tokens) ''refresh_token'') \<Longrightarrow>
     fst (checkAuth w) = False"
  by (simp add: checkAuth_existing_session loadTokens_eq)

text \<open>
  C1 (amended). While the authentication check fails, every \<^verbatim>\<open>tools/call\<close> request
  whose \<^verbatim>\<open>params\<close> member is present and not \<^verbatim>\<open>null\<close> is answered with a result (not an
  error) that carries \<^verbatim>\<open>isError: true\<close> and the fixed text, with the \<^verbatim>\<open>id\<close> of the
  request; the tool name plays no part and no fetcher runs. The five handlers
  registered for the stdio transport answer with the same payload.
\<close>

theorem unauthenticated_call:
  assumes "fst (checkAuth w) = False"
    and "get_member request ''jsonrpc'' = Some (JStr ''2.0'')"
    and "get_member request ''method'' = Some (JStr ''tools/call'')"
    and "get_member request ''params'' = Some params" and "params \<noteq> JNull"
  shows \<open>handleJsonRpc w request =
           (Inr (Result
                  (ToolResult
                    \<lparr>content =
                       [\<lparr>type = ''text'',
                         text' = ''Not authenticated. Please run "bun run auth" to authenticate with Google first.''\<rparr>],
                     isError = Some True\<rparr>)
                  (get_member request ''id'')),
            snd (checkAuth w)) \<and>
         get_document_handler documentId w = (not_authenticated, snd (checkAuth w)) \<and>
         list_documents_handler limit query w = (not_authenticated, snd (checkAuth w)) \<and>
         get_spreadsheet_handler spreadsheetId w = (not_authenticated, snd (checkAuth w)) \<and>
         get_sheet_data_handler spreadsheetId range' w = (not_authenticated, snd (checkAuth w)) \<and>
         list_spreadsheets_handler limit query w = (not_authenticated, snd (checkAuth w))\<close>
proof -
  obtain w1 where w1: "checkAuth w = (False, w1)"
    using assms(1) by (cases "checkAuth w") simp
  have "handleJsonRpc w request =
          (Inr (Result (ToolResult not_authenticated) (get_member request ''id'')), w1)"
    unfolding handleJsonRpc_call[OF assms(2-5)] w1 by simp
  then show ?thesis
    by (simp add: w1 not_authenticated_def error_result_def NOT_AUTHENTICATED_def
        get_document_handler_def list_documents_handler_def get_spreadsheet_handler_def
        get_sheet_data_handler_def list_spreadsheets_handler_def)
qed

theorem unauthenticated_call_witness:
  \<open>fst (checkAuth demo_world) = False \<and>
   get_member call_get_sheet_data ''jsonrpc'' = Some (JStr ''2.0'') \<and>
   get_member call_get_sheet_data ''method'' = Some (JStr ''tools/call'') \<and>
   fst (handleJsonRpc demo_world call_get_sheet_data) =
     Inr (Result
           (ToolResult
             \<lparr>content =
                [\<lparr>type = ''text'',
                  text' = ''Not authenticated. Please run "bun run auth" to authenticate with Google first.''\<rparr>],
              isError = Some True\<rparr>)
           (Some (JNum 1)))\<close>
proof -
  have h1: "fst (checkAuth demo_world) = False"
    by code_simp
  have h2: "get_member call_get_sheet_data ''jsonrpc'' = Some (JStr ''2.0'')"
    and h3: "get_member call_get_sheet_data ''method'' = Some (JStr ''tools/call'')"
    and h4: "get_member call_get_sheet_data ''params'' =
               Some (JObj [(''name'', JStr ''get_sheet_data''),
                           (''arguments'', JObj [(''spreadsheetId'', JStr ''X''),
                                                (''range'', JStr ''A1:B2'')])])"
    and h6: "get_member call_get_sheet_data ''id'' = Some (JNum 1)"
    by (simp_all add: call_get_sheet_data_def)
  have h5: "JObj [(''name'', JStr ''get_sheet_data''),
                  (''arguments'', JObj [(''spreadsheetId'', JStr ''X''),
                                       (''range'', JStr ''A1:B2'')])] \<noteq> JNull"
    by simp
  from unauthenticated_call[OF h1 h2 h3 h4 h5] h1 h2 h3 h6
  show ?thesis by simp
qed

text \<open>The claim as first stated, for every \<^verbatim>\<open>tools/call\<close> request, fails on a request
  without \<^verbatim>\<open>params\<close>: the destructuring throws before the authentication check, and
  the outer \<^verbatim>\<open>catch\<close> answers with the error code \<open>-32603\<close>.\<close>

theorem call_without_params_counterexample:
  "fst (checkAuth demo_world) = False \<and>
   get_member call_without_params ''jsonrpc'' = Some (JStr ''2.0'') \<and>
   get_member call_without_params ''method'' = Some (JStr ''tools/call'') \<and>
   fst (handleJsonRpc demo_world call_without_params) =
     Inr (Failure (- 32603) (message TypeError) (Some (JNum 1)))"
  by code_simp

section \<open>Empty results\<close>

lemma getSheetData_rows:
  assumes "getSheetData spreadsheetId range' w = (Inr d, w2)"
  shows "\<exists>client ident response.
           values_get w2 client ident range' = Inr response \<and>
           data_values d = (case vr_values response of None \<Rightarrow> [] | Some rows \<Rightarrow> rows)"
  using assms
  by (fastforce simp: getSheetData_def Let_def log_event_def split: prod.splits sum.splits)

lemma call_tool_get_sheet_data:
  "args \<noteq> JNull \<Longrightarrow>
   call_tool (Some (JStr ''get_sheet_data'')) (Some args) w =
     Some (case getSheetData (get_member args ''spreadsheetId'') (get_member args ''range'') w of
             (Inl e, w1) \<Rightarrow> (Inl e, w1)
           | (Inr d, w1) \<Rightarrow> (Inr (render_sheet_data d), w1))"
  by (simp add: call_tool_def member_Some opt_member_Some)

lemma call_tool_list_documents:
  "args \<noteq> JNull \<Longrightarrow>
   call_tool (Some (JStr ''list_documents'')) (Some args) w =
     Some (case listDocuments (js_or (get_member args ''limit'') (Some (JNum 10)))
                   (get_member args ''query'') w of
             (Inl e, w1) \<Rightarrow> (Inl e, w1)
           | (Inr docs, w1) \<Rightarrow> (Inr (render_documents docs), w1))"
  by (simp add: call_tool_def member_Some opt_member_Some)

lemma call_tool_list_spreadsheets:
  "args \<noteq> JNull \<Longrightarrow>
   call_tool (Some (JStr ''list_spreadsheets'')) (Some args) w =
     Some (case listSpreadsheets (js_or (get_member args ''limit'') (Some (JNum 10)))
                   (get_member args ''query'') w of
             (Inl e, w1) \<Rightarrow> (Inl e, w1)
           | (Inr sheets, w1) \<Rightarrow> (Inr (render_spreadsheets sheets), w1))"
  by (simp add: call_tool_def member_Some opt_member_Some)

lemma handleJsonRpc_authenticated:
  assumes "fst (checkAuth w)"
    and "get_member request ''jsonrpc'' = Some (JStr ''2.0'')"
    and "get_member request ''method'' = Some (JStr ''tools/call'')"
    and "get_member request ''params'' = Some params"
    and "get_member params ''name'' = Some (JStr tool)"
    and "call_tool (Some (JStr tool)) (get_member params ''arguments'') (snd (checkAuth w))
           = Some (Inr r, w2)"
  shows "handleJsonRpc w request = (Inr (Result (ToolResult r) (get_member request ''id'')), w2)"
proof -
  have "params \<noteq> JNull" using assms(5) by (rule get_member_Some_not_null)
  from handleJsonRpc_call[OF assms(2-4) this, of w] assms(1,5,6)
  show ?thesis by (cases "checkAuth w") simp
qed

text \<open>
  C10. In an authenticated session, when the range fetch returns no rows the
  \<^verbatim>\<open>get_sheet_data\<close> tool answers, on both transports, with the text
  \<^verbatim>\<open>No data found in the specified range.\<close> and no error flag; when the list fetchers
  return no files, \<^verbatim>\<open>list_documents\<close> and \<^verbatim>\<open>list_spreadsheets\<close> answer with
  \<^verbatim>\<open>No documents found.\<close> and \<^verbatim>\<open>No spreadsheets found.\<close>.
\<close>

theorem empty_results:
  assumes auth: "fst (checkAuth w)"
    and envelope: "get_member request ''jsonrpc'' = Some (JStr ''2.0'')"
      "get_member request ''method'' = Some (JStr ''tools/call'')"
      "get_member request ''params'' = Some params"
      "get_member params ''arguments'' = Some args" "args \<noteq> JNull"
  shows
   "(get_member params ''name'' = Some (JStr ''get_sheet_data'') \<and>
     fst (getSheetData (get_member args ''spreadsheetId'') (get_member args ''range'')
            (snd (checkAuth w))) = Inr d \<and>
     data_values d = [] \<longrightarrow>
       fst (handleJsonRpc w request) =
         Inr (Result
               (ToolResult
                 \<lparr>content = [\<lparr>type = ''text'', text' = ''No data found in the specified range.''\<rparr>],
                  isError = None\<rparr>)
               (get_member request ''id''))) \<and>
    (get_member params ''name'' = Some (JStr ''list_documents'') \<and>
     fst (listDocuments (js_or (get_member args ''limit'') (Some (JNum 10)))
            (get_member args ''query'') (snd (checkAuth w))) = Inr [] \<longrightarrow>
       fst (handleJsonRpc w request) =
         Inr (Result
               (ToolResult
                 \<lparr>content = [\<lparr>type = ''text'', text' = ''No documents found.''\<rparr>],
                  isError = None\<rparr>)
               (get_member request ''id''))) \<and>
    (get_member params ''name'' = Some (JStr ''list_spreadsheets'') \<and>
     fst (listSpreadsheets (js_or (get_member args ''limit'') (Some (JNum 10)))
            (get_member args ''query'') (snd (checkAuth w))) = Inr [] \<longrightarrow>
       fst (handleJsonRpc w request) =
         Inr (Result
               (ToolResult
                 \<lparr>content = [\<lparr>type = ''text'', text' = ''No spreadsheets found.''\<rparr>],
                  isError = None\<rparr>)
               (get_member request ''id''))) \<and>
    (fst (getSheetData (Some (JStr spreadsheetId)) (Some (JStr range')) (snd (checkAuth w)))
       = Inr d' \<and>
     data_values d' = [] \<longrightarrow>
       fst (get_sheet_data_handler spreadsheetId range' w) =
         \<lparr>content = [\<lparr>type = ''text'', text' = ''No data found in the specified range.''\<rparr>],
          isError = None\<rparr>) \<and>
    (fst (listDocuments (Some (JNum limit)) (map_option JStr query) (snd (checkAuth w)))
       = Inr [] \<longrightarrow>
       fst (list_documents_handler limit query w) =
         \<lparr>content = [\<lparr>type = ''text'', text' = ''No documents found.''\<rparr>], isError = None\<rparr>) \<and>
    (fst (listSpreadsheets (Some (JNum limit)) (map_option JStr query) (snd (checkAuth w)))
       = Inr [] \<longrightarrow>
       fst (list_spreadsheets_handler limit query w) =
         \<lparr>content = [\<lparr>type = ''text'', text' = ''No spreadsheets found.''\<rparr>], isError = None\<rparr>)"
proof -
  obtain w1 where w1: "checkAuth w = (True, w1)"
    using auth by (cases "checkAuth w") simp
  note rpc = handleJsonRpc_authenticated[OF auth envelope(1-3)]
  have http_data: "fst (handleJsonRpc w request) =
      Inr (Result (ToolResult (text_result ''No data found in the specified range.''))
             (get_member request ''id''))"
    if tool: "get_member params ''name'' = Some (JStr ''get_sheet_data'')"
      and fetch: "fst (getSheetData (get_member args ''spreadsheetId'') (get_member args ''range'') w1)
             = Inr d" and empty: "data_values d = []"
  proof -
    obtain w2 where "getSheetData (get_member args ''spreadsheetId'') (get_member args ''range'') w1
                       = (Inr d, w2)"
      using fetch by (cases "getSheetData (get_member args ''spreadsheetId'') (get_member args ''range'') w1") simp
    then have "call_tool (Some (JStr ''get_sheet_data'')) (get_member params ''arguments'')
                 (snd (checkAuth w)) = Some (Inr (render_sheet_data d), w2)"
      by (simp add: envelope(4) call_tool_get_sheet_data[OF envelope(5)] w1)
    from rpc[OF tool this] empty show ?thesis
      by (simp add: render_sheet_data_def)
  qed
  have http_docs: "fst (handleJsonRpc w request) =
      Inr (Result (ToolResult (text_result ''No documents found.'')) (get_member request ''id''))"
    if tool: "get_member params ''name'' = Some (JStr ''list_documents'')"
      and fetch: "fst (listDocuments (js_or (get_member args ''limit'') (Some (JNum 10)))
                  (get_member args ''query'') w1) = Inr []"
  proof -
    obtain w2 where "listDocuments (js_or (get_member args ''limit'') (Some (JNum 10)))
                       (get_member args ''query'') w1 = (Inr [], w2)"
      using fetch by (cases "listDocuments (js_or (get_member args ''limit'') (Some (JNum 10)))
                       (get_member args ''query'') w1") simp
    then have "call_tool (Some (JStr ''list_documents'')) (get_member params ''arguments'')
                 (snd (checkAuth w)) = Some (Inr (render_documents []), w2)"
      by (simp add: envelope(4) call_tool_list_documents[OF envelope(5)] w1)
    from rpc[OF tool this] show ?thesis
      by (simp add: render_documents_def)
  qed
  have http_sheets: "fst (handleJsonRpc w request) =
      Inr (Result (ToolResult (text_result ''No spreadsheets found.'')) (get_member request ''id''))"
    if tool: "get_member params ''name'' = Some (JStr ''list_spreadsheets'')"
      and fetch: "fst (listSpreadsheets (js_or (get_member args ''limit'') (Some (JNum 10)))
                  (get_member args ''query'') w1) = Inr []"
  proof -
    obtain w2 where "listSpreadsheets (js_or (get_member args ''limit'') (Some (JNum 10)))
                       (get_member args ''query'') w1 = (Inr [], w2)"
      using fetch by (cases "listSpreadsheets (js_or (get_member args ''limit'') (Some (JNum 10)))
                       (get_member args ''query'') w1") simp
    then have "call_tool (Some (JStr ''list_spreadsheets'')) (get_member params ''arguments'')
                 (snd (checkAuth w)) = Some (Inr (render_spreadsheets []), w2)"
      by (simp add: envelope(4) call_tool_list_spreadsheets[OF envelope(5)] w1)
    from rpc[OF tool this] show ?thesis
      by (simp add: render_spreadsheets_def)
  qed
  have stdio_data: "fst (get_sheet_data_handler spreadsheetId range' w) =
      text_result ''No data found in the specified range.''"
    if "fst (getSheetData (Some (JStr spreadsheetId)) (Some (JStr range')) w1) = Inr d'"
      and "data_values d' = []"
    using that
    by (cases "getSheetData (Some (JStr spreadsheetId)) (Some (JStr range')) w1")
       (simp add: get_sheet_data_handler_def w1 render_sheet_data_def)
  have stdio_docs: "fst (list_documents_handler limit query w) = text_result ''No documents found.''"
    if "fst (listDocuments (Some (JNum limit)) (map_option JStr query) w1) = Inr []"
    using that
    by (cases "listDocuments (Some (JNum limit)) (map_option JStr query) w1")
       (simp add: list_documents_handler_def w1 render_documents_def)
  have stdio_sheets: "fst (list_spreadsheets_handler limit query w) = text_result ''No spreadsheets found.''"
    if "fst (listSpreadsheets (Some (JNum limit)) (map_option JStr query) w1) = Inr []"
    using that
    by (cases "listSpreadsheets (Some (JNum limit)) (map_option JStr query) w1")
       (simp add: list_spreadsheets_handler_def w1 render_spreadsheets_def)
  show ?thesis
    using http_data http_docs http_sheets stdio_data stdio_docs stdio_sheets
    by (simp add: w1 text_result_def)
qed


theorem empty_results_witness:
  "fst (checkAuth signed_in_world) \<and>
   fst (handleJsonRpc signed_in_world call_get_sheet_data) =
     Inr (Result
           (ToolResult
             \<lparr>content = [\<lparr>type = ''text'', text' = ''No data found in the specified range.''\<rparr>],
              isError = None\<rparr>)
           (Some (JNum 1))) \<and>
   fst (handleJsonRpc signed_in_world call_list_documents) =
     Inr (Result
           (ToolResult
             \<lparr>content = [\<lparr>type = ''text'', text' = ''No documents found.''\<rparr>], isError = None\<rparr>)
           (Some (JNum 2))) \<and>
   fst (handleJsonRpc signed_in_world call_list_spreadsheets) =
     Inr (Result
           (ToolResult
             \<lparr>content = [\<lparr>type = ''text'', text' = ''No spreadsheets found.''\<rparr>],
              isError = None\<rparr>)
           (Some (JNum 3))) \<and>
   fst (get_sheet_data_handler ''X'' ''A1:B2'' signed_in_world) =
     \<lparr>content = [\<lparr>type = ''text'', text' = ''No data found in the specified range.''\<rparr>],
      isError = None\<rparr> \<and>
   fst (list_documents_handler 10 None signed_in_world) =
     \<lparr>content = [\<lparr>type = ''text'', text' = ''No documents found.''\<rparr>], isError = None\<rparr> \<and>
   fst (list_spreadsheets_handler 10 None signed_in_world) =
     \<lparr>content = [\<lparr>type = ''text'', text' = ''No spreadsheets found.''\<rparr>], isError = None\<rparr>"
proof -
  let ?w1 = "snd (checkAuth signed_in_world)"
  let ?d = "\<lparr>data_spreadsheetId = JStr ''X'', data_range = Some (JStr ''A1:B2''),
             data_values = []\<rparr>"
  let ?args = "JObj [(''spreadsheetId'', JStr ''X''), (''range'', JStr ''A1:B2'')]"
  let ?params = "JObj [(''name'', JStr ''get_sheet_data''), (''arguments'', ?args)]"
  let ?params2 = "JObj [(''name'', JStr ''list_documents''), (''arguments'', JObj [])]"
  let ?params3 = "JObj [(''name'', JStr ''list_spreadsheets''), (''arguments'', JObj [])]"
  have auth: "fst (checkAuth signed_in_world)"
    by code_simp
  have e1: "get_member call_get_sheet_data ''jsonrpc'' = Some (JStr ''2.0'')"
      "get_member call_get_sheet_data ''method'' = Some (JStr ''tools/call'')"
      "get_member call_get_sheet_data ''params'' = Some ?params"
      "get_member ?params ''arguments'' = Some ?args" "?args \<noteq> JNull"
    and id1: "get_member call_get_sheet_data ''id'' = Some (JNum 1)"
    and n1: "get_member ?params ''name'' = Some (JStr ''get_sheet_data'')"
    by (simp_all add: call_get_sheet_data_def)
  have e2: "get_member call_list_documents ''jsonrpc'' = Some (JStr ''2.0'')"
      "get_member call_list_documents ''method'' = Some (JStr ''tools/call'')"
      "get_member call_list_documents ''params'' = Some ?params2"
      "get_member ?params2 ''arguments'' = Some (JObj [])" "JObj [] \<noteq> JNull"
    and id2: "get_member call_list_documents ''id'' = Some (JNum 2)"
    and n2: "get_member ?params2 ''name'' = Some (JStr ''list_documents'')"
    by (simp_all add: call_list_documents_def)
  have e3: "get_member call_list_spreadsheets ''jsonrpc'' = Some (JStr ''2.0'')"
      "get_member call_list_spreadsheets ''method'' = Some (JStr ''tools/call'')"
      "get_member call_list_spreadsheets ''params'' = Some ?params3"
      "get_member ?params3 ''arguments'' = Some (JObj [])" "JObj [] \<noteq> JNull"
    and id3: "get_member call_list_spreadsheets ''id'' = Some (JNum 3)"
    and n3: "get_member ?params3 ''name'' = Some (JStr ''list_spreadsheets'')"
    by (simp_all add: call_list_spreadsheets_def)
  have f1: "fst (getSheetData (get_member ?args ''spreadsheetId'') (get_member ?args ''range'') ?w1)
              = Inr ?d"
    by code_simp
  have f2: "fst (listDocuments (js_or (get_member (JObj []) ''limit'') (Some (JNum 10)))
                   (get_member (JObj []) ''query'') ?w1) = Inr []"
    by code_simp
  have f3: "fst (listSpreadsheets (js_or (get_member (JObj []) ''limit'') (Some (JNum 10)))
                   (get_member (JObj []) ''query'') ?w1) = Inr []"
    by code_simp
  have g1: "fst (getSheetData (Some (JStr ''X'')) (Some (JStr ''A1:B2'')) ?w1) = Inr ?d"
    by code_simp
  have g2: "fst (listDocuments (Some (JNum 10)) (map_option JStr None) ?w1) = Inr []"
    by code_simp
  have g3: "fst (listSpreadsheets (Some (JNum 10)) (map_option JStr None) ?w1) = Inr []"
    by code_simp
  have d0: "data_values ?d = []" by simp
  from empty_results[OF auth e1, where d = ?d and d' = ?d and spreadsheetId = "''X''"
         and range' = "''A1:B2''" and limit = 10 and query = None]
  have r1: "fst (handleJsonRpc signed_in_world call_get_sheet_data) =
     Inr (Result
           (ToolResult
             \<lparr>content = [\<lparr>type = ''text'', text' = ''No data found in the specified range.''\<rparr>],
              isError = None\<rparr>)
           (Some (JNum 1)))"
    and r4: "fst (get_sheet_data_handler ''X'' ''A1:B2'' signed_in_world) =
     \<lparr>content = [\<lparr>type = ''text'', text' = ''No data found in the specified range.''\<rparr>],
      isError = None\<rparr>"
    and r5: "fst (list_documents_handler 10 None signed_in_world) =
     \<lparr>content = [\<lparr>type = ''text'', text' = ''No documents found.''\<rparr>], isError = None\<rparr>"
    and r6: "fst (list_spreadsheets_handler 10 None signed_in_world) =
     \<lparr>content = [\<lparr>type = ''text'', text' = ''No spreadsheets found.''\<rparr>], isError = None\<rparr>"
    using n1 f1 d0 g1 g2 g3 id1 by simp_all
  from empty_results[OF auth e2, where d = ?d and d' = ?d and spreadsheetId = "''X''"
         and range' = "''A1:B2''" and limit = 10 and query = None]
  have r2: "fst (handleJsonRpc signed_in_world call_list_documents) =
     Inr (Result
           (ToolResult
             \<lparr>content = [\<lparr>type = ''text'', text' = ''No documents found.''\<rparr>], isError = None\<rparr>)
           (Some (JNum 2)))"
    using n2 f2 id2 by simp
  from empty_results[OF auth e3, where d = ?d and d' = ?d and spreadsheetId = "''X''"
         and range' = "''A1:B2''" and limit = 10 and query = None]
  have r3: "fst (handleJsonRpc signed_in_world call_list_spreadsheets) =
     Inr (Result
           (ToolResult
             \<lparr>content = [\<lparr>type = ''text'', text' = ''No spreadsheets found.''\<rparr>],
              isError = None\<rparr>)
           (Some (JNum 3)))"
    using n3 f3 id3 by simp
  from auth r1 r2 r3 r4 r5 r6 show ?thesis by simp
qed

section \<open>Credential resolution\<close>

lemma find_truthy_js_or:
  "find truthy [a, b, c] =
     (if truthy (js_or (js_or a b) c) then Some (js_or (js_or a b) c) else None)"
  by (simp add: js_or_def)

text \<open>What the loop body makes of a candidate path: a file that is read and parsed gives
  the configuration of its \<^verbatim>\<open>installed\<close> or \<^verbatim>\<open>web\<close> section when that section is truthy,
  and nothing otherwise; a path that cannot be read, or a text that does not parse,
  gives nothing.\<close>

lemma loadClientSecret_body_read:
  assumes "readFileSync w p = Inr body" and "JSON_parse body = Inr secret"
  shows "loadClientSecret_body w p =
           (let creds = js_or (opt_member (Some secret) ''installed'')
                              (opt_member (Some secret) ''web'')
            in if truthy creds then
                 Some \<lparr>clientId = opt_member creds ''client_id'',
                       clientSecret = opt_member creds ''client_secret'',
                       redirectUri =
                         js_or (opt_first (opt_member creds ''redirect_uris''))
                               (Some (JStr DEFAULT_REDIRECT_URI))\<rparr>
               else None)"
proof (cases "secret = JNull")
  case True
  with assms readFileSync_exists[OF assms(1)] show ?thesis
    by (simp add: loadClientSecret_body_def js_or_def)
next
  case False
  with assms readFileSync_exists[OF assms(1)] show ?thesis
    by (simp add: loadClientSecret_body_def member_Some opt_member_Some)
qed

lemma loadClientSecret_body_unparsable:
  "readFileSync w p = Inr body \<Longrightarrow> JSON_parse body = Inl e \<Longrightarrow> loadClientSecret_body w p = None"
  by (simp add: loadClientSecret_body_def)

lemma loadClientSecret_body_unreadable:
  "readFileSync w p = Inl e \<Longrightarrow> loadClientSecret_body w p = None"
  by (simp add: loadClientSecret_body_def)

lemma loadClientSecret_body_missing:
  "\<not> existsSync w p \<Longrightarrow> loadClientSecret_body w p = None"
  by (simp add: loadClientSecret_body_def)

lemma loadClientSecret_candidates:
  "loadClientSecret w basePath =
     (case loadClientSecret_body w (join [basePath, ''client_secret.json'']) of
        Some found \<Rightarrow> Some found
      | None \<Rightarrow> loadClientSecret_body w (join [basePath, ''.credentials'', ''client_secret.json'']))"
  by (simp add: loadClientSecret_def possiblePaths_def CLIENT_SECRET_FILE_def CREDENTIALS_DIR_def
           split: option.split)

text \<open>
  C3 (amended). The constructor succeeds exactly when each of \<open>clientId\<close> and
  \<open>clientSecret\<close> has a truthy value in one of its three sources, and then takes, for each
  field on its own, the first truthy value in the order explicit configuration,
  client-secret file, environment variable; otherwise it fails with the configuration
  error. The file configuration is that of the first of the two candidate paths
  \<^verbatim>\<open>join(base, "client_secret.json")\<close> and \<^verbatim>\<open>join(base, ".credentials", "client_secret.json")\<close>
  at which a file is read, parses, and holds a truthy \<^verbatim>\<open>installed\<close> or \<^verbatim>\<open>web\<close> section; its
  fields are the \<^verbatim>\<open>client_id\<close>, the \<^verbatim>\<open>client_secret\<close> and the first of the \<^verbatim>\<open>redirect_uris\<close>
  of that section. A candidate that parses without such a section, that does not parse
  (the error is swallowed), or that cannot be read yields nothing, and the next
  candidate or source is tried.
\<close>

theorem credential_resolution:
  "(case GoogleOAuth_new w config of
      Inr oauth \<Rightarrow>
        find truthy [config_field config clientId,
                     config_field (loadClientSecret w (baseDir w)) clientId,
                     process_env w ''GOOGLE_CLIENT_ID'']
          = Some (opt_clientId (oauth2Client oauth)) \<and>
        find truthy [config_field config clientSecret,
                     config_field (loadClientSecret w (baseDir w)) clientSecret,
                     process_env w ''GOOGLE_CLIENT_SECRET'']
          = Some (opt_clientSecret (oauth2Client oauth))
    | Inl e \<Rightarrow>
        e = Error CREDENTIALS_NOT_FOUND \<and>
        (find truthy [config_field config clientId,
                      config_field (loadClientSecret w (baseDir w)) clientId,
                      process_env w ''GOOGLE_CLIENT_ID''] = None \<or>
         find truthy [config_field config clientSecret,
                      config_field (loadClientSecret w (baseDir w)) clientSecret,
                      process_env w ''GOOGLE_CLIENT_SECRET''] = None)) \<and>
   loadClientSecret w basePath =
     (case loadClientSecret_body w (join [basePath, ''client_secret.json'']) of
        Some found \<Rightarrow> Some found
      | None \<Rightarrow> loadClientSecret_body w (join [basePath, ''.credentials'', ''client_secret.json''])) \<and>
   (readFileSync w p1 = Inr body1 \<and> JSON_parse body1 = Inr secret1 \<and>
    truthy (js_or (opt_member (Some secret1) ''installed'') (opt_member (Some secret1) ''web'')) \<longrightarrow>
      loadClientSecret_body w p1 =
        Some \<lparr>clientId =
                opt_member (js_or (opt_member (Some secret1) ''installed'')
                                  (opt_member (Some secret1) ''web'')) ''client_id'',
              clientSecret =
                opt_member (js_or (opt_member (Some secret1) ''installed'')
                                  (opt_member (Some secret1) ''web'')) ''client_secret'',
              redirectUri =
                js_or (opt_first (opt_member (js_or (opt_member (Some secret1) ''installed'')
                                                    (opt_member (Some secret1) ''web''))
                                             ''redirect_uris''))
                      (Some (JStr ''http://localhost:3000/oauth2callback''))\<rparr>) \<and>
   (readFileSync w p2 = Inr body2 \<and> JSON_parse body2 = Inr secret2 \<and>
    \<not> truthy (js_or (opt_member (Some secret2) ''installed'') (opt_member (Some secret2) ''web'')) \<longrightarrow>
      loadClientSecret_body w p2 = None) \<and>
   (readFileSync w p3 = Inr body3 \<and> JSON_parse body3 = Inl e3 \<longrightarrow>
      loadClientSecret_body w p3 = None) \<and>
   (readFileSync w p4 = Inl e4 \<longrightarrow> loadClientSecret_body w p4 = None)"
proof -
  have ctor: "case GoogleOAuth_new w config of
      Inr oauth \<Rightarrow>
        find truthy [config_field config clientId,
                     config_field (loadClientSecret w (baseDir w)) clientId,
                     process_env w ''GOOGLE_CLIENT_ID'']
          = Some (opt_clientId (oauth2Client oauth)) \<and>
        find truthy [config_field config clientSecret,
                     config_field (loadClientSecret w (baseDir w)) clientSecret,
                     process_env w ''GOOGLE_CLIENT_SECRET'']
          = Some (opt_clientSecret (oauth2Client oauth))
    | Inl e \<Rightarrow>
        e = Error CREDENTIALS_NOT_FOUND \<and>
        (find truthy [config_field config clientId,
                      config_field (loadClientSecret w (baseDir w)) clientId,
                      process_env w ''GOOGLE_CLIENT_ID''] = None \<or>
         find truthy [config_field config clientSecret,
                      config_field (loadClientSecret w (baseDir w)) clientSecret,
                      process_env w ''GOOGLE_CLIENT_SECRET''] = None)"
    unfolding find_truthy_js_or by (simp add: GoogleOAuth_new_def Let_def)
  have found: "loadClientSecret_body w p1 =
        Some \<lparr>clientId =
                opt_member (js_or (opt_member (Some secret1) ''installed'')
                                  (opt_member (Some secret1) ''web'')) ''client_id'',
              clientSecret =
                opt_member (js_or (opt_member (Some secret1) ''installed'')
                                  (opt_member (Some secret1) ''web'')) ''client_secret'',
              redirectUri =
                js_or (opt_first (opt_member (js_or (opt_member (Some secret1) ''installed'')
                                                    (opt_member (Some secret1) ''web''))
                                             ''redirect_uris''))
                      (Some (JStr ''http://localhost:3000/oauth2callback''))\<rparr>"
    if "readFileSync w p1 = Inr body1" "JSON_parse body1 = Inr secret1"
      "truthy (js_or (opt_member (Some secret1) ''installed'') (opt_member (Some secret1) ''web''))"
    using that by (simp add: loadClientSecret_body_read Let_def DEFAULT_REDIRECT_URI_def)
  have no_section: "loadClientSecret_body w p2 = None"
    if "readFileSync w p2 = Inr body2" "JSON_parse body2 = Inr secret2"
      "\<not> truthy (js_or (opt_member (Some secret2) ''installed'') (opt_member (Some secret2) ''web''))"
    using that by (simp add: loadClientSecret_body_read Let_def)
  from ctor loadClientSecret_candidates[of w basePath] found no_section
    loadClientSecret_body_unparsable[of w p3 body3 e3] loadClientSecret_body_unreadable[of w p4 e4]
  show ?thesis by blast
qed

theorem credential_resolution_witness:
  "readFileSync empty_secret_world ''/srv/.credentials/client_secret.json'' = Inr client_secret_text \<and>
   JSON_parse client_secret_text = Inr client_secret_json \<and>
   truthy (js_or (opt_member (Some client_secret_json) ''installed'')
                 (opt_member (Some client_secret_json) ''web'')) \<and>
   loadClientSecret_body empty_secret_world ''/srv/.credentials/client_secret.json'' =
     Some \<lparr>clientId = Some (JStr ''file-client''), clientSecret = Some (JStr ''file-secret''),
           redirectUri = Some (JStr ''http://localhost'')\<rparr> \<and>
   readFileSync empty_secret_world ''/srv/client_secret.json'' = Inr ''{}'' \<and>
   JSON_parse ''{}'' = Inr (JObj []) \<and>
   \<not> truthy (js_or (opt_member (Some (JObj [])) ''installed'') (opt_member (Some (JObj [])) ''web'')) \<and>
   loadClientSecret_body empty_secret_world ''/srv/client_secret.json'' = None \<and>
   readFileSync malformed_secret_world ''/srv/client_secret.json'' = Inr ''{oops'' \<and>
   JSON_parse ''{oops'' = Inl SyntaxError \<and>
   loadClientSecret_body malformed_secret_world ''/srv/client_secret.json'' = None \<and>
   readFileSync malformed_secret_world ''/srv/.credentials/client_secret.json'' = Inl IOError \<and>
   loadClientSecret_body malformed_secret_world ''/srv/.credentials/client_secret.json'' = None \<and>
   loadClientSecret malformed_secret_world ''/srv'' = None \<and>
   GoogleOAuth_new malformed_secret_world None = Inr demo_session \<and>
   find truthy [config_field None clientId,
                config_field (loadClientSecret malformed_secret_world (baseDir malformed_secret_world)) clientId,
                process_env malformed_secret_world ''GOOGLE_CLIENT_ID'']
     = Some (Some (JStr ''client-1''))"
proof -
  have a1: "readFileSync empty_secret_world ''/srv/.credentials/client_secret.json'' = Inr client_secret_text"
    and a2: "JSON_parse client_secret_text = Inr client_secret_json"
    and a3: "truthy (js_or (opt_member (Some client_secret_json) ''installed'')
                           (opt_member (Some client_secret_json) ''web''))"
    by code_simp+
  have a4: "opt_member (js_or (opt_member (Some client_secret_json) ''installed'')
                              (opt_member (Some client_secret_json) ''web'')) ''client_id''
              = Some (JStr ''file-client'')"
    "opt_member (js_or (opt_member (Some client_secret_json) ''installed'')
                       (opt_member (Some client_secret_json) ''web'')) ''client_secret''
              = Some (JStr ''file-secret'')"
    "js_or (opt_first (opt_member (js_or (opt_member (Some client_secret_json) ''installed'')
                                         (opt_member (Some client_secret_json) ''web''))
                                  ''redirect_uris''))
           (Some (JStr ''http://localhost:3000/oauth2callback'')) = Some (JStr ''http://localhost'')"
    by code_simp+
  have b1: "readFileSync empty_secret_world ''/srv/client_secret.json'' = Inr ''{}''"
    and b2: "JSON_parse ''{}'' = Inr (JObj [])"
    and b3: "\<not> truthy (js_or (opt_member (Some (JObj [])) ''installed'')
                             (opt_member (Some (JObj [])) ''web''))"
    by code_simp+
  have c1: "readFileSync malformed_secret_world ''/srv/client_secret.json'' = Inr ''{oops''"
    and c2: "JSON_parse ''{oops'' = Inl SyntaxError"
    and d1: "readFileSync malformed_secret_world ''/srv/.credentials/client_secret.json'' = Inl IOError"
    by code_simp+
  have j: "join [''/srv'', ''client_secret.json''] = ''/srv/client_secret.json''"
    "join [''/srv'', ''.credentials'', ''client_secret.json''] = ''/srv/.credentials/client_secret.json''"
    by code_simp+
  have ctor: "GoogleOAuth_new malformed_secret_world None = Inr demo_session"
    by code_simp
  have cid: "opt_clientId (oauth2Client demo_session) = Some (JStr ''client-1'')"
    by (simp add: demo_session_def)
  from credential_resolution[where w = empty_secret_world and config = None
         and basePath = "''/srv''"
         and ?p1.0 = "''/srv/.credentials/client_secret.json''" and ?body1.0 = client_secret_text
         and ?secret1.0 = client_secret_json
         and ?p2.0 = "''/srv/client_secret.json''" and ?body2.0 = "''{}''" and ?secret2.0 = "JObj []"]
    a1 a2 a3 a4 b1 b2 b3
  have first: "loadClientSecret_body empty_secret_world ''/srv/.credentials/client_secret.json'' =
     Some \<lparr>clientId = Some (JStr ''file-client''), clientSecret = Some (JStr ''file-secret''),
           redirectUri = Some (JStr ''http://localhost'')\<rparr> \<and>
     loadClientSecret_body empty_secret_world ''/srv/client_secret.json'' = None"
    by simp
  from credential_resolution[where w = malformed_secret_world and config = None
         and basePath = "''/srv''"
         and ?p3.0 = "''/srv/client_secret.json''" and ?body3.0 = "''{oops''" and ?e3.0 = SyntaxError
         and ?p4.0 = "''/srv/.credentials/client_secret.json''" and ?e4.0 = IOError]
    c1 c2 d1 j ctor cid
  have second: "loadClientSecret_body malformed_secret_world ''/srv/client_secret.json'' = None \<and>
     loadClientSecret_body malformed_secret_world ''/srv/.credentials/client_secret.json'' = None \<and>
     loadClientSecret malformed_secret_world ''/srv'' = None \<and>
     find truthy [config_field None clientId,
                  config_field (loadClientSecret malformed_secret_world (baseDir malformed_secret_world)) clientId,
                  process_env malformed_secret_world ''GOOGLE_CLIENT_ID'']
       = Some (Some (JStr ''client-1''))"
    by simp
  from first second a1 a2 a3 b1 b2 b3 c1 c2 d1 ctor show ?thesis by simp
qed

text \<open>The claim as first stated takes the file configuration from the first candidate
  that exists and parses. In \<open>empty_secret_world\<close> the first candidate exists and parses,
  to an object without a section, and names no client id; the environment does. The
  constructor takes neither: it goes on to the second candidate and uses the client id
  of that file.\<close>

theorem first_parseable_counterexample:
  "existsSync empty_secret_world (join [baseDir empty_secret_world, ''client_secret.json'']) \<and>
   map_sum id JSON_parse (readFileSync empty_secret_world
                           (join [baseDir empty_secret_world, ''client_secret.json'']))
     = Inr (Inr (JObj [])) \<and>
   process_env empty_secret_world ''GOOGLE_CLIENT_ID'' = Some (JStr ''client-1'') \<and>
   map_sum id (\<lambda>oauth. opt_clientId (oauth2Client oauth)) (GoogleOAuth_new empty_secret_world None)
     = Inr (Some (JStr ''file-client''))"
  by code_simp

text \<open>The priority at work: the file beats the environment, an explicit client id beats
  the file while the secret still comes from the file, and without any source the
  constructor fails. A base directory with a separator at its end names the same
  candidate files.\<close>

lemma resolution_examples:
  "map_sum id (\<lambda>oauth. (opt_clientId (oauth2Client oauth), opt_clientSecret (oauth2Client oauth)))
     (GoogleOAuth_new file_secret_world None)
     = Inr (Some (JStr ''file-client''), Some (JStr ''file-secret''))"
  "map_sum id (\<lambda>oauth. (opt_clientId (oauth2Client oauth), opt_clientSecret (oauth2Client oauth)))
     (GoogleOAuth_new file_secret_world (Some explicit_id))
     = Inr (Some (JStr ''explicit-client''), Some (JStr ''file-secret''))"
  "GoogleOAuth_new (demo_world\<lparr>env := Map.empty\<rparr>) None = Inl (Error CREDENTIALS_NOT_FOUND)"
  "possiblePaths (baseDir base_path_world)
     = [''/srv/client_secret.json'', ''/srv/.credentials/client_secret.json'']"
  "map_sum id (\<lambda>oauth. (opt_clientId (oauth2Client oauth), credentialsPath oauth))
     (GoogleOAuth_new base_path_world None)
     = Inr (Some (JStr ''file-client''), ''/srv/.credentials/tokens.json'')"
  by code_simp+

section \<open>JSON texts read back\<close>

text \<open>
  \<^verbatim>\<open>JSON.parse\<close> reads the text \<^verbatim>\<open>JSON.stringify(_, null, 2)\<close> writes for an encodable value
  back to that value. The proof follows the grammar: numbers, strings, then values with
  their elements and members.
\<close>

subsection \<open>Decimal digits\<close>

lemma digits_table:
  "list_all (\<lambda>d. is_digit (''0123456789'' ! d) \<and> digit_val (''0123456789'' ! d) = d \<and>
                  ((''0123456789'' ! d = CHR ''0'') = (d = 0))) [0..<10]"
  by code_simp

lemma digit_nth: "d < 10 \<Longrightarrow> is_digit (''0123456789'' ! d) \<and> digit_val (''0123456789'' ! d) = d"
proof -
  assume "d < 10"
  then have "d \<in> set [0..<10]" by simp
  with digits_table show ?thesis unfolding list_all_iff by blast
qed

lemma digit_nth_zero: "d < 10 \<Longrightarrow> (''0123456789'' ! d = CHR ''0'') = (d = 0)"
proof -
  assume "d < 10"
  then have "d \<in> set [0..<10]" by simp
  with digits_table show ?thesis unfolding list_all_iff by blast
qed

lemma read_nat_snoc: "read_nat (ds @ [c]) = 10 * read_nat ds + digit_val c"
  by (simp add: read_nat_def)

lemma show_nat_digits: "list_all is_digit (show_nat n)"
  by (induction n rule: show_nat.induct) (subst show_nat.simps, simp add: digit_nth)

lemma show_nat_nonempty: "show_nat n \<noteq> []"
  by (subst show_nat.simps) simp

lemma read_show_nat: "read_nat (show_nat n) = n"
proof (induction n rule: show_nat.induct)
  case (1 n)
  show ?case
  proof (cases "n < 10")
    case True
    then show ?thesis
      by (subst show_nat.simps) (simp add: read_nat_def digit_nth)
  next
    case False
    with 1 have "read_nat (show_nat (n div 10)) = n div 10" by simp
    with False show ?thesis
      by (subst show_nat.simps) (simp add: read_nat_snoc digit_nth)
  qed
qed

lemma hd_show_nat: "0 < n \<Longrightarrow> hd (show_nat n) \<noteq> CHR ''0''"
proof (induction n rule: show_nat.induct)
  case (1 n)
  show ?case
  proof (cases "n < 10")
    case True
    with 1 have "''0123456789'' ! n \<noteq> CHR ''0''" using digit_nth_zero[of n] by blast
    with True show ?thesis unfolding show_nat.simps[of n] by (simp only: if_True list.sel not_False_eq_True)
  next
    case False
    then have "0 < n div 10" by simp
    with 1 False have "hd (show_nat (n div 10)) \<noteq> CHR ''0''" by simp
    with False show ?thesis
      by (subst show_nat.simps) (simp add: show_nat_nonempty)
  qed
qed

lemma takeWhile_digits:
  "list_all is_digit ds \<Longrightarrow> (case rest of [] \<Rightarrow> True | c # cs \<Rightarrow> \<not> is_digit c) \<Longrightarrow>
     takeWhile is_digit (ds @ rest) = ds \<and> dropWhile is_digit (ds @ rest) = rest"
  by (cases rest) (simp_all add: list_all_iff takeWhile_append2 dropWhile_append2 takeWhile_eq_all_conv)

lemma strip_zeros_pad:
  "strip_zeros ds @ replicate (length ds - length (strip_zeros ds)) CHR ''0'' = ds"
proof -
  define z where "z = takeWhile (\<lambda>c. c = CHR ''0'') (rev ds)"
  define d where "d = dropWhile (\<lambda>c. c = CHR ''0'') (rev ds)"
  have split: "rev ds = z @ d" by (simp add: z_def d_def)
  have "rev (rev ds) = rev d @ rev z" unfolding split by simp
  then have ds: "ds = rev d @ rev z" by simp
  have "\<forall>c\<in>set z. c = CHR ''0''" unfolding z_def by (auto dest: set_takeWhileD)
  then have "replicate (length z) CHR ''0'' = z" by (intro replicate_length_same) blast
  then have z: "rev z = replicate (length z) CHR ''0''" by (metis rev_replicate)
  have len: "length ds - length (rev d) = length z" using ds by (metis add_diff_cancel_left' length_append length_rev)
  have "strip_zeros ds = rev d" by (simp add: strip_zeros_def d_def)
  with z len ds show ?thesis by simp
qed

lemma strip_zeros_canonical: "s \<noteq> [] \<Longrightarrow> last s \<noteq> CHR ''0'' \<Longrightarrow> strip_zeros s = s"
  by (cases s rule: rev_cases) (simp_all add: strip_zeros_def)

lemma last_strip_zeros: "strip_zeros s \<noteq> [] \<Longrightarrow> last (strip_zeros s) \<noteq> CHR ''0''"
proof -
  assume a: "strip_zeros s \<noteq> []"
  then have ne: "dropWhile (\<lambda>c. c = CHR ''0'') (rev s) \<noteq> []" by (simp add: strip_zeros_def)
  then have "hd (dropWhile (\<lambda>c. c = CHR ''0'') (rev s)) \<noteq> CHR ''0''" by (rule hd_dropWhile)
  with ne show ?thesis by (simp add: strip_zeros_def last_rev)
qed

lemma strip_zeros_idem: "strip_zeros (strip_zeros s) = strip_zeros s"
proof (cases "strip_zeros s = []")
  case True then show ?thesis by (simp add: strip_zeros_def)
next
  case False
  from False last_strip_zeros[OF False] show ?thesis by (rule strip_zeros_canonical)
qed

lemma hd_strip_zeros:
  assumes "ds \<noteq> []" "hd ds \<noteq> CHR ''0''"
  shows "strip_zeros ds \<noteq> [] \<and> hd (strip_zeros ds) = hd ds"
proof -
  from assms obtain d r where ds: "ds = d # r" "d \<noteq> CHR ''0''" by (cases ds) auto
  show ?thesis
  proof (cases "\<forall>c\<in>set (rev r). c = CHR ''0''")
    case True
    then have "dropWhile (\<lambda>c. c = CHR ''0'') (rev r @ [d]) = [d]"
      using ds(2) by (simp add: dropWhile_append)
    then show ?thesis by (simp add: strip_zeros_def ds)
  next
    case False
    then have "dropWhile (\<lambda>c. c = CHR ''0'') (rev r @ [d]) = dropWhile (\<lambda>c. c = CHR ''0'') (rev r) @ [d]"
      by (simp add: dropWhile_append)
    moreover from False have "dropWhile (\<lambda>c. c = CHR ''0'') (rev r) \<noteq> []" by simp
    ultimately show ?thesis by (simp add: strip_zeros_def ds)
  qed
qed

subsection \<open>Number tokens\<close>

lemma is_digit_not_punct:
  "is_digit c \<Longrightarrow> c \<noteq> CHR ''.'' \<and> c \<noteq> CHR ''e'' \<and> c \<noteq> CHR ''E'' \<and> c \<noteq> CHR ''-'' \<and> c \<noteq> CHR ''+''"
  by (auto simp add: is_digit_def)

lemma not_digit_punct [simp]:
  "\<not> is_digit CHR ''.''" "\<not> is_digit CHR ''e''" "\<not> is_digit CHR ''E''"
  "\<not> is_digit CHR ''-''" "\<not> is_digit CHR ''+''"
  using is_digit_not_punct by blast+

lemma digits_then:
  assumes "list_all is_digit ds" and "r = [] \<or> \<not> is_digit (hd r)"
  shows "takeWhile is_digit (ds @ r) = ds" and "dropWhile is_digit (ds @ r) = r"
proof -
  from assms(2) have "case r of [] \<Rightarrow> True | c # cs \<Rightarrow> \<not> is_digit c" by (cases r) auto
  from takeWhile_digits[OF assms(1) this]
  show "takeWhile is_digit (ds @ r) = ds" and "dropWhile is_digit (ds @ r) = r" by simp_all
qed

lemma number_end_cases:
  "number_end rest \<Longrightarrow> rest = [] \<or> (\<not> is_digit (hd rest) \<and> hd rest \<noteq> CHR ''.'' \<and> hd rest \<noteq> CHR ''e'' \<and> hd rest \<noteq> CHR ''E'')"
  by (cases rest) (simp_all add: number_end_def)

lemma parse_exponent_none:
  "number_end rest \<Longrightarrow> parse_exponent rest = Some (0, rest)"
  by (cases rest) (simp_all add: parse_exponent_def number_end_def)

lemma parse_exponent_some:
  assumes "list_all is_digit E" "E \<noteq> []" "number_end rest"
  shows "parse_exponent (CHR ''e'' # (if eneg then ''-'' else ''+'') @ E @ rest)
           = Some ((if eneg then - 1 else 1) * int (read_nat E), rest)"
proof -
  from number_end_cases[OF assms(3)] have r: "rest = [] \<or> \<not> is_digit (hd rest)" by blast
  note d = digits_then[OF assms(1) r]
  show ?thesis using assms(2) by (cases eneg) (simp_all add: parse_exponent_def d)
qed

lemma parse_fraction_none:
  "r = [] \<or> hd r \<noteq> CHR ''.'' \<Longrightarrow> parse_fraction r = Some ([], r)"
  by (cases r) (simp_all add: parse_fraction_def)

lemma parse_fraction_some:
  assumes "list_all is_digit F" "F \<noteq> []" "r = [] \<or> \<not> is_digit (hd r)"
  shows "parse_fraction (CHR ''.'' # F @ r) = Some (F, r)"
  using assms(2) by (simp add: parse_fraction_def digits_then[OF assms(1) assms(3)])

lemma parse_number_general:
  assumes I: "is_digit d" "list_all is_digit ds" "d = CHR ''0'' \<longrightarrow> ds = []"
    and F: "list_all is_digit F"
    and E: "list_all is_digit E"
    and rest: "number_end rest"
  shows "parse_number ((if neg then ''-'' else []) @ d # ds @
            (if F = [] then [] else CHR ''.'' # F) @
            (if E = [] then [] else CHR ''e'' # (if eneg then ''-'' else ''+'') @ E) @ rest)
         = Some (number_value neg (d # ds) F
                   (if E = [] then 0 else (if eneg then - 1 else 1) * int (read_nat E)), rest)"
proof -
  define ex where "ex = (if E = [] then [] else CHR ''e'' # (if eneg then ''-'' else ''+'') @ E) @ rest"
  define fr where "fr = (if F = [] then [] else CHR ''.'' # F) @ ex"
  define e where "e = (if E = [] then 0 else (if eneg then - 1 else 1) * int (read_nat E))"
  from number_end_cases[OF rest]
  have r: "rest = [] \<or> (\<not> is_digit (hd rest) \<and> hd rest \<noteq> CHR ''.'' \<and> hd rest \<noteq> CHR ''e'' \<and> hd rest \<noteq> CHR ''E'')" .
  have pe: "parse_exponent ex = Some (e, rest)"
  proof (cases "E = []")
    case True then show ?thesis by (simp add: ex_def e_def parse_exponent_none[OF rest])
  next
    case False
    then show ?thesis using parse_exponent_some[OF E False rest, of eneg] by (simp add: ex_def e_def)
  qed
  have ex: "ex = [] \<or> (\<not> is_digit (hd ex) \<and> hd ex \<noteq> CHR ''.'')"
    using r by (cases "E = []") (auto simp add: ex_def)
  have pf: "parse_fraction fr = Some (F, ex)"
  proof (cases "F = []")
    case True
    from ex have "ex = [] \<or> hd ex \<noteq> CHR ''.''" by blast
    from parse_fraction_none[OF this] True show ?thesis by (simp add: fr_def)
  next
    case False
    from ex have "ex = [] \<or> \<not> is_digit (hd ex)" by blast
    from parse_fraction_some[OF F False this] False show ?thesis by (simp add: fr_def)
  qed
  have fr: "fr = [] \<or> \<not> is_digit (hd fr)"
    using ex by (cases "F = []") (auto simp add: fr_def)
  note dd = digits_then[OF I(2) fr]
  have dm: "d \<noteq> CHR ''-''" using I(1) is_digit_not_punct by blast
  have body: "parse_number ((if neg then ''-'' else []) @ d # ds @ fr) = Some (number_value neg (d # ds) F e, rest)"
  proof (cases "d = CHR ''0''")
    case True
    with I(3) have "ds = []" by simp
    with True I(1) pf pe dm show ?thesis by (cases neg) (simp_all add: parse_number_def)
  next
    case False
    with I(1) pf pe dm dd show ?thesis by (cases neg) (simp_all add: parse_number_def)
  qed
  then show ?thesis by (simp add: fr_def ex_def e_def)
qed


lemma zero_digit: "is_digit CHR ''0''"
  by (simp add: is_digit_def)

lemma canonicalD:
  assumes "canonical s"
  obtains d ds where "s = d # ds" "is_digit d" "d \<noteq> CHR ''0''" "list_all is_digit ds" "last s \<noteq> CHR ''0''"
  using assms by (cases s) (auto simp add: canonical_def)

lemma takeWhile_replicate_zero:
  "xs = [] \<or> hd xs \<noteq> CHR ''0'' \<Longrightarrow>
     takeWhile (\<lambda>c. c = CHR ''0'') (replicate z CHR ''0'' @ xs) = replicate z CHR ''0'' \<and>
     dropWhile (\<lambda>c. c = CHR ''0'') (replicate z CHR ''0'' @ xs) = xs"
  by (induction z) (cases xs; simp)+

lemma strip_zeros_append_zeros:
  assumes "s \<noteq> []" "last s \<noteq> CHR ''0''"
  shows "strip_zeros (s @ replicate t CHR ''0'') = s"
proof -
  from assms have "rev s = [] \<or> hd (rev s) \<noteq> CHR ''0''" by (simp add: hd_rev)
  from takeWhile_replicate_zero[OF this, of t]
  have "dropWhile (\<lambda>c. c = CHR ''0'') (replicate t CHR ''0'' @ rev s) = rev s" by blast
  then show ?thesis by (simp add: strip_zeros_def)
qed

lemma number_value_canonical:
  assumes "canonical s" and D: "I @ F = replicate z CHR ''0'' @ s @ replicate t CHR ''0''"
  shows "number_value neg I F e = canonical_value neg s (int (length I) - int z + e)"
proof -
  from assms(1) have s: "s \<noteq> []" "hd s \<noteq> CHR ''0''" "last s \<noteq> CHR ''0''" by (simp_all add: canonical_def)
  then have "s @ replicate t CHR ''0'' = [] \<or> hd (s @ replicate t CHR ''0'') \<noteq> CHR ''0''" by simp
  from takeWhile_replicate_zero[OF this, of z]
  have tw: "takeWhile (\<lambda>c. c = CHR ''0'') (I @ F) = replicate z CHR ''0''"
    and dw: "dropWhile (\<lambda>c. c = CHR ''0'') (I @ F) = s @ replicate t CHR ''0''"
    unfolding D by simp_all
  have st: "strip_zeros (s @ replicate t CHR ''0'') = s" using s by (intro strip_zeros_append_zeros)
  show ?thesis
    unfolding number_value_def Let_def tw dw st canonical_value_def using s(1) by simp
qed

lemma parse_digits_toString:
  assumes c: "canonical s" and rest: "number_end rest"
  shows "parse_number ((if neg then ''-'' else []) @ digits_toString s n @ rest)
           = Some (canonical_value neg s n, rest)"
proof -
  from c obtain d ds where s: "s = d # ds" "is_digit d" "d \<noteq> CHR ''0''" "list_all is_digit ds"
    by (rule canonicalD)
  have all: "list_all is_digit s" using c by (simp add: canonical_def)
  let ?k = "int (length s)"
  consider (plain) "?k \<le> n" "n \<le> 21"
    | (point) "n < ?k" "0 < n" "n \<le> 21"
    | (small) "- 6 < n" "n \<le> 0"
    | (expo) "n > 21 \<or> n \<le> - 6" by linarith
  then show ?thesis
  proof cases
    case plain
    define m where "m = nat (n - ?k)"
    have dt: "digits_toString s n = d # (ds @ replicate m CHR ''0'')"
      using plain by (simp add: digits_toString_def Let_def s m_def)
    have dg: "list_all is_digit (ds @ replicate m CHR ''0'')"
      using s(4) zero_digit by (auto simp add: list_all_iff)
    from parse_number_general[of d "ds @ replicate m CHR ''0''" "[]" "[]" rest neg, OF s(2) dg _ _ _ rest] s(3)
    have "parse_number ((if neg then ''-'' else []) @ digits_toString s n @ rest)
            = Some (number_value neg (d # ds @ replicate m CHR ''0'') [] 0, rest)"
      by (simp add: dt)
    moreover have "number_value neg (d # ds @ replicate m CHR ''0'') [] 0
                     = canonical_value neg s (int (length (d # ds @ replicate m CHR ''0'')) - int 0 + 0)"
      by (rule number_value_canonical[OF c, of _ _ 0 m]) (simp add: s)
    moreover have "int (length (d # ds @ replicate m CHR ''0'')) - int 0 + 0 = n"
      using plain by (simp add: m_def s)
    ultimately show ?thesis by simp
  next
    case point
    define j where "j = nat n"
    have j: "0 < j" "j < length s" using point by (simp_all add: j_def)
    obtain i where i: "j = Suc i" using j(1) by (cases j) auto
    have dt: "digits_toString s n = d # take i ds @ CHR ''.'' # drop j s"
      using point by (simp add: digits_toString_def Let_def j_def[symmetric] i s)
    have dg: "list_all is_digit (take i ds)" using s(4) by (auto simp add: list_all_iff dest: in_set_takeD)
    have df: "list_all is_digit (drop j s)" using all by (auto simp add: list_all_iff dest: in_set_dropD)
    have ne: "drop j s \<noteq> []" using j by simp
    from parse_number_general[of d "take i ds" "drop j s" "[]" rest neg, OF s(2) dg _ df _ rest] s(3) ne
    have "parse_number ((if neg then ''-'' else []) @ digits_toString s n @ rest)
            = Some (number_value neg (d # take i ds) (drop j s) 0, rest)"
      by (simp add: dt)
    moreover have "number_value neg (d # take i ds) (drop j s) 0
                     = canonical_value neg s (int (length (d # take i ds)) - int 0 + 0)"
    proof (rule number_value_canonical[OF c, of _ _ 0 0])
      have "(d # take i ds) = take j s" by (simp add: s i)
      then show "(d # take i ds) @ drop j s = replicate 0 CHR ''0'' @ s @ replicate 0 CHR ''0''" by simp
    qed
    moreover have "int (length (d # take i ds)) - int 0 + 0 = n"
      using point j by (simp add: j_def s i) (use i j_def in linarith)
    ultimately show ?thesis by simp
  next
    case small
    define m where "m = nat (- n)"
    define F where "F = replicate m CHR ''0'' @ s"
    have dt: "digits_toString s n = CHR ''0'' # [] @ CHR ''.'' # F"
      using small by (simp add: digits_toString_def Let_def m_def s F_def)
    have df: "list_all is_digit F"
      using all zero_digit by (auto simp add: list_all_iff F_def)
    have ne: "F \<noteq> []" using s(1) by (simp add: F_def)
    from parse_number_general[of "CHR ''0''" "[]" F "[]" rest neg, OF zero_digit _ _ df _ rest] ne
    have "parse_number ((if neg then ''-'' else []) @ digits_toString s n @ rest)
            = Some (number_value neg [CHR ''0''] F 0, rest)"
      by (simp add: dt)
    moreover have "number_value neg [CHR ''0''] F 0
                     = canonical_value neg s (int (length [CHR ''0'']) - int (Suc m) + 0)"
      by (rule number_value_canonical[OF c, of _ _ "Suc m" 0]) (simp add: F_def)
    moreover have "int (length [CHR ''0'']) - int (Suc m) + 0 = n"
      using small by (simp add: m_def)
    ultimately show ?thesis by simp
  next
    case expo
    define E where "E = show_nat (nat \<bar>n - 1\<bar>)"
    define eneg where "eneg = (n - 1 < 0)"
    have E: "list_all is_digit E" "E \<noteq> []" by (simp_all add: E_def show_nat_digits show_nat_nonempty)
    have ev: "(if E = [] then 0 else (if eneg then - 1 else 1) * int (read_nat E)) = n - 1"
      using E(2) by (simp add: E_def eneg_def read_show_nat)
    have dt: "digits_toString s n = d # [] @ (if ds = [] then [] else CHR ''.'' # ds) @
                (if E = [] then [] else CHR ''e'' # (if eneg then ''-'' else ''+'') @ E)"
      using expo E(2) by (auto simp add: digits_toString_def Let_def exponent_form_def s E_def eneg_def)
    from parse_number_general[of d "[]" ds E rest neg eneg, OF s(2) _ _ s(4) E(1) rest]
    have "parse_number ((if neg then ''-'' else []) @ digits_toString s n @ rest)
            = Some (number_value neg [d] ds (n - 1), rest)"
      unfolding ev by (simp add: dt)
    moreover have "number_value neg [d] ds (n - 1)
                     = canonical_value neg s (int (length [d]) - int 0 + (n - 1))"
      by (rule number_value_canonical[OF c, of _ _ 0 0]) (simp add: s)
    ultimately show ?thesis by simp
  qed
qed

lemma canonical_strip_show_nat:
  assumes "0 < m"
  shows "canonical (strip_zeros (show_nat m))"
proof -
  from hd_show_nat[OF assms] show_nat_nonempty[of m]
  have h: "strip_zeros (show_nat m) \<noteq> [] \<and> hd (strip_zeros (show_nat m)) = hd (show_nat m)"
    by (intro hd_strip_zeros)
  have "set (strip_zeros (show_nat m)) \<subseteq> set (show_nat m)"
    by (auto simp add: strip_zeros_def dest: set_dropWhileD)
  with show_nat_digits[of m] have "list_all is_digit (strip_zeros (show_nat m))"
    by (auto simp add: list_all_iff)
  with h last_strip_zeros[of "show_nat m"] hd_show_nat[OF assms] show ?thesis
    by (simp add: canonical_def)
qed

lemma parse_int_toString:
  assumes "number_end rest"
  shows "parse_number (int_toString i @ rest) = Some (JNum i, rest)"
proof (cases "i = 0")
  case True
  have z: "is_digit CHR ''0''" by (simp add: is_digit_def)
  from parse_number_general[of "CHR ''0''" "[]" "[]" "[]" rest False, OF z _ _ _ _ assms]
  have "parse_number (''0'' @ rest) = Some (number_value False ''0'' [] 0, rest)" by simp
  moreover have "number_value False ''0'' [] 0 = JNum 0"
    by (simp add: number_value_def strip_zeros_def)
  ultimately show ?thesis using True by (simp add: int_toString_def)
next
  case False
  define m where "m = nat \<bar>i\<bar>"
  have m: "0 < m" using False by (simp add: m_def)
  define s where "s = strip_zeros (show_nat m)"
  have c: "canonical s" unfolding s_def by (rule canonical_strip_show_nat[OF m])
  have len: "length s \<le> length (show_nat m)" by (simp add: s_def strip_zeros_def order_trans[OF length_dropWhile_le])
  have pad: "s @ replicate (length (show_nat m) - length s) CHR ''0'' = show_nat m"
    unfolding s_def by (rule strip_zeros_pad)
  have "int_toString i = (if i < 0 then ''-'' else []) @ digits_toString s (int (length (show_nat m)))"
    using False by (simp add: int_toString_def m_def s_def)
  with parse_digits_toString[OF c assms, of "i < 0" "int (length (show_nat m))"]
  have "parse_number (int_toString i @ rest)
          = Some (canonical_value (i < 0) s (int (length (show_nat m))), rest)" by simp
  moreover have "canonical_value (i < 0) s (int (length (show_nat m))) = JNum i"
  proof -
    have "nat (int (length (show_nat m)) - int (length s)) = length (show_nat m) - length s" by simp
    with pad have "read_nat (s @ replicate (nat (int (length (show_nat m)) - int (length s))) CHR ''0'') = m"
      by (simp add: read_show_nat)
    with len show ?thesis by (simp add: canonical_value_def m_def)
  qed
  ultimately show ?thesis by simp
qed

lemma parse_dec_toString:
  assumes "canonical s" "n < int (length s)" "number_end rest"
  shows "parse_number (dec_toString neg s n @ rest) = Some (JDec neg s n, rest)"
  using parse_digits_toString[OF assms(1) assms(3), of neg n] assms(2)
  by (simp add: dec_toString_def canonical_value_def)

subsection \<open>String tokens\<close>

lemma hex_table:
  "list_all (\<lambda>n. hex_val (hex_digit n) = Some n) [0..<16]"
  by code_simp

lemma hex_val_hex_digit: "n < 16 \<Longrightarrow> hex_val (hex_digit n) = Some n"
proof -
  assume "n < 16"
  then have "n \<in> set [0..<16]" by simp
  with hex_table show ?thesis unfolding list_all_iff by blast
qed

lemma hex_val_zero: "hex_val CHR ''0'' = Some 0"
  by (simp add: hex_val_def is_digit_def)

lemma unescape_control:
  assumes "(of_char c :: nat) < 32"
  shows "unescape (CHR ''u'' # CHR ''0'' # CHR ''0'' # hex_digit (of_char c div 16) # hex_digit (of_char c mod 16) # t)
           = Some ([c], t)"
proof -
  define u :: nat where "u = of_char c"
  have u: "u < 32" using assms by (simp add: u_def)
  then have "u div 16 < 16" "u mod 16 < 16" by simp_all
  then have h: "hex_val (hex_digit (u div 16)) = Some (u div 16)" "hex_val (hex_digit (u mod 16)) = Some (u mod 16)"
    by (simp_all add: hex_val_hex_digit)
  have "hex4 (CHR ''0'' # CHR ''0'' # hex_digit (u div 16) # hex_digit (u mod 16) # t) = Some (u, t)"
    by (simp add: h hex_val_zero)
  moreover have "utf8 u = [c]" using u by (simp add: utf8_def u_def)
  ultimately show ?thesis using u by (simp add: unescape_def unescape_unicode_def u_def[symmetric])
qed

lemma parse_string_escape_char:
  "parse_string (escape_char c @ t) = map_option (\<lambda>(s, r). (c # s, r)) (parse_string t)"
proof -
  consider (special) "c \<in> {CHR 0x22, CHR 0x5C, CHR 0x08, CHR 0x0C, CHR 0x0A, CHR 0x0D, CHR 0x09}"
    | (control) "c \<notin> {CHR 0x22, CHR 0x5C, CHR 0x08, CHR 0x0C, CHR 0x0A, CHR 0x0D, CHR 0x09}" "(of_char c :: nat) < 32"
    | (plain) "c \<notin> {CHR 0x22, CHR 0x5C, CHR 0x08, CHR 0x0C, CHR 0x0A, CHR 0x0D, CHR 0x09}" "\<not> (of_char c :: nat) < 32"
    by blast
  then show ?thesis
  proof cases
    case special
    then show ?thesis
      by (auto simp add: escape_char_def unescape_def option.map_comp comp_def split_def
               intro!: option.map_cong)
  next
    case control
    then have e: "escape_char c = [CHR 0x5C, CHR ''u'', CHR ''0'', CHR ''0'', hex_digit (of_char c div 16), hex_digit (of_char c mod 16)]"
      by (simp add: escape_char_def)
    show ?thesis
      unfolding e using unescape_control[OF control(2), of t]
      by (simp add: split_def)
  next
    case plain
    then show ?thesis by (simp add: escape_char_def)
  qed
qed

lemma parse_string_quote:
  "parse_string (concat (map escape_char s) @ CHR 0x22 # rest) = Some (s, rest)"
  by (induction s) (simp_all add: parse_string_escape_char)

lemma parse_string_quoted:
  "quote s @ rest = CHR 0x22 # t \<Longrightarrow> parse_string t = Some (s, rest)"
  using parse_string_quote[of s rest] by (simp add: quote_def)

subsection \<open>Values\<close>

lemma is_ws_simps [simp]:
  "is_ws CHR 0x0A" "is_ws CHR '' ''" "\<not> is_ws CHR '',''" "\<not> is_ws CHR '']''" "\<not> is_ws CHR ''}''"
  "\<not> is_ws CHR '':''" "\<not> is_ws CHR 0x22" "\<not> is_ws CHR ''[''" "\<not> is_ws CHR ''{''"
  "\<not> is_ws CHR ''-''" "\<not> is_ws CHR ''n''" "\<not> is_ws CHR ''t''" "\<not> is_ws CHR ''f''"
  by (simp_all add: is_ws_def)

lemma is_digit_not_ws: "is_digit c \<Longrightarrow> \<not> is_ws c"
  by (auto simp add: is_digit_def is_ws_def)

lemma is_digit_not_bracket:
  "is_digit c \<Longrightarrow> c \<noteq> CHR ''['' \<and> c \<noteq> CHR ''{'' \<and> c \<noteq> CHR '']'' \<and> c \<noteq> CHR ''}'' \<and> c \<noteq> CHR 0x22 \<and>
     c \<noteq> CHR ''t'' \<and> c \<noteq> CHR ''f'' \<and> c \<noteq> CHR ''n''"
  by (auto simp add: is_digit_def)

lemma parse_value_ws: "list_all is_ws W \<Longrightarrow> parse_value (W @ s) = parse_value s"
  by (induction W) simp_all

lemma skip_ws_append: "list_all is_ws W \<Longrightarrow> skip_ws (W @ s) = skip_ws s"
  by (induction W) (simp_all add: skip_ws_def)

lemma skip_ws_Cons: "\<not> is_ws c \<Longrightarrow> skip_ws (c # s) = c # s"
  by (simp add: skip_ws_def)

lemma parse_number_hd:
  "parse_number s = Some r \<Longrightarrow> \<exists>c cs. s = c # cs \<and> (c = CHR ''-'' \<or> is_digit c)"
  by (cases s) (auto simp add: parse_number_def Let_def split: if_splits list.splits)

lemma number_end_Nil: "number_end []"
  by (simp add: number_end_def)

lemma int_toString_hd: "\<exists>c cs. int_toString i = c # cs \<and> (c = CHR ''-'' \<or> is_digit c)"
  using parse_number_hd[OF parse_int_toString[OF number_end_Nil, of i]] by simp

lemma dec_toString_hd:
  "canonical s \<Longrightarrow> n < int (length s) \<Longrightarrow> \<exists>c cs. dec_toString neg s n = c # cs \<and> (c = CHR ''-'' \<or> is_digit c)"
  using parse_number_hd[OF parse_dec_toString[OF _ _ number_end_Nil, of s n neg]] by simp

lemma parse_value_number:
  assumes "c = CHR ''-'' \<or> is_digit c"
  shows "parse_value (c # cs) = parse_number (c # cs)"
proof -
  from assms is_digit_not_ws[of c] is_digit_not_bracket[of c]
  have "\<not> is_ws c" "c \<noteq> CHR ''{''" "c \<noteq> CHR ''[''" "c \<noteq> CHR 0x22" "c \<noteq> CHR ''t''" "c \<noteq> CHR ''f''" "c \<noteq> CHR ''n''"
    by auto
  then show ?thesis by (simp add: starts_with_def)
qed

lemma stringify_hd:
  "encodable v \<Longrightarrow> \<exists>c cs. stringify ind v = c # cs \<and> \<not> is_ws c \<and> c \<noteq> CHR '']'' \<and> c \<noteq> CHR ''}''"
proof (cases v)
  case (JNum i)
  from int_toString_hd[of i] obtain c cs where "int_toString i = c # cs" "c = CHR ''-'' \<or> is_digit c" by blast
  with is_digit_not_ws[of c] is_digit_not_bracket[of c] JNum show ?thesis by auto
next
  case (JDec neg s n)
  assume "encodable v"
  with JDec have "canonical s" "n < int (length s)" by simp_all
  from dec_toString_hd[OF this, of neg]
  obtain c cs where "dec_toString neg s n = c # cs" "c = CHR ''-'' \<or> is_digit c" by blast
  with is_digit_not_ws[of c] is_digit_not_bracket[of c] JDec show ?thesis by auto
qed (auto simp add: quote_def)


lemma number_end_simps [simp]:
  "number_end (CHR '','' # r)" "number_end (CHR 0x0A # r)" "number_end (CHR '' '' # r)"
  "number_end (CHR '']'' # r)" "number_end (CHR ''}'' # r)" "number_end []"
  by (simp_all add: number_end_def is_digit_def)

lemma number_end_ws: "list_all is_ws W \<Longrightarrow> number_end (W @ CHR '']'' # r) \<and> number_end (W @ CHR ''}'' # r)"
  by (cases W) (auto simp add: number_end_def is_digit_def is_ws_def)

lemma parse_elements_join:
  assumes IH: "\<And>x rest. x \<in> set xs \<Longrightarrow> number_end rest \<Longrightarrow> parse_value (stringify i x @ rest) = Some (x, rest)"
    and pad: "list_all is_ws pad" and W2: "list_all is_ws W2"
  shows "xs \<noteq> [] \<Longrightarrow> list_all is_ws W \<Longrightarrow>
         parse_elements (W @ join_with ('','' @ [CHR 0x0A]) (map (\<lambda>x. pad @ stringify i x) xs) @ W2 @ CHR '']'' # rest)
           = Some (xs, rest)"
  using IH
proof (induction xs arbitrary: W)
  case Nil
  then show ?case by simp
next
  case (Cons x xs)
  show ?case
  proof (cases xs)
    case Nil
    let ?tail = "W2 @ CHR '']'' # rest"
    have ne: "number_end ?tail" using number_end_ws[OF W2] by blast
    have "parse_value (W @ pad @ stringify i x @ ?tail) = Some (x, ?tail)"
      using Cons.prems(2) pad Cons.prems(3)[of x ?tail] ne by (simp add: parse_value_ws)
    moreover have "skip_ws ?tail = CHR '']'' # rest"
      using W2 by (simp add: skip_ws_append skip_ws_Cons)
    ultimately show ?thesis
      by (subst parse_elements.simps) (simp add: Nil)
  next
    case (Cons y ys)
    let ?more = "join_with ('','' @ [CHR 0x0A]) (map (\<lambda>x. pad @ stringify i x) xs) @ W2 @ CHR '']'' # rest"
    let ?tail = "CHR '','' # CHR 0x0A # ?more"
    have "parse_value (W @ pad @ stringify i x @ ?tail) = Some (x, ?tail)"
      using Cons.prems(2) pad Cons.prems(3)[of x ?tail] by (simp add: parse_value_ws)
    moreover have "skip_ws ?tail = ?tail" by (simp add: skip_ws_Cons)
    moreover have "parse_elements ([CHR 0x0A] @ ?more) = Some (xs, rest)"
      by (rule Cons.IH) (use Cons Cons.prems(3) in simp_all)
    ultimately show ?thesis
      by (subst parse_elements.simps) (simp add: Cons)
  qed
qed

lemma parse_members_last:
  assumes "skip_ws s = CHR 0x22 # s1" "parse_string s1 = Some (k, s2)" "skip_ws s2 = CHR '':'' # s3"
    "length s3 < length s" "parse_value s3 = Some (v, s4)" "skip_ws s4 = CHR ''}'' # rest"
  shows "parse_members s = Some ([(k, v)], rest)"
  by (subst parse_members.simps) (simp add: assms)

lemma parse_members_more:
  assumes "skip_ws s = CHR 0x22 # s1" "parse_string s1 = Some (k, s2)" "skip_ws s2 = CHR '':'' # s3"
    "length s3 < length s" "parse_value s3 = Some (v, s4)" "skip_ws s4 = CHR '','' # r"
    "length r < length s" "parse_members r = Some (ms, rest)"
  shows "parse_members s = Some ((k, v) # ms, rest)"
  by (subst parse_members.simps) (simp add: assms)

lemma parse_members_join:
  assumes IH: "\<And>k v rest. (k, v) \<in> set ms \<Longrightarrow> number_end rest \<Longrightarrow> parse_value (stringify i v @ rest) = Some (v, rest)"
    and pad: "list_all is_ws pad" and W2: "list_all is_ws W2"
  shows "ms \<noteq> [] \<Longrightarrow> list_all is_ws W \<Longrightarrow>
         parse_members (W @ join_with ('','' @ [CHR 0x0A])
                              (map (\<lambda>(k, v). pad @ quote k @ '': '' @ stringify i v) ms) @ W2 @ CHR ''}'' # rest)
           = Some (ms, rest)"
  using IH
proof (induction ms arbitrary: W)
  case Nil
  then show ?case by simp
next
  case (Cons m ms)
  obtain k v where m: "m = (k, v)" by (cases m)
  have key: "skip_ws (W @ pad @ quote k @ t) = CHR 0x22 # concat (map escape_char k) @ CHR 0x22 # t" for t
    using Cons.prems(2) pad by (simp add: skip_ws_append skip_ws_Cons quote_def)
  have str: "parse_string (concat (map escape_char k) @ CHR 0x22 # t) = Some (k, t)" for t
    by (rule parse_string_quote)
  have colon: "skip_ws (CHR '':'' # t) = CHR '':'' # t" for t by (simp add: skip_ws_Cons)
  show ?case
  proof (cases ms)
    case Nil
    let ?tail = "W2 @ CHR ''}'' # rest"
    let ?s = "W @ pad @ quote k @ CHR '':'' # CHR '' '' # stringify i v @ ?tail"
    have ne: "number_end ?tail" using number_end_ws[OF W2] by blast
    have val: "parse_value (CHR '' '' # stringify i v @ ?tail) = Some (v, ?tail)"
      using Cons.prems(3)[of k v ?tail] ne by (simp add: m)
    have sk: "skip_ws ?tail = CHR ''}'' # rest"
      using W2 by (simp add: skip_ws_append skip_ws_Cons)
    have "parse_members ?s = Some ([(k, v)], rest)"
      by (rule parse_members_last[OF key str colon _ val sk]) simp
    then show ?thesis by (simp add: Nil m)
  next
    case (Cons m' ms')
    define more where "more = join_with ('','' @ [CHR 0x0A])
                   (map (\<lambda>(k, v). pad @ quote k @ '': '' @ stringify i v) ms) @ W2 @ CHR ''}'' # rest"
    let ?tail = "CHR '','' # CHR 0x0A # more"
    let ?s = "W @ pad @ quote k @ CHR '':'' # CHR '' '' # stringify i v @ ?tail"
    have val: "parse_value (CHR '' '' # stringify i v @ ?tail) = Some (v, ?tail)"
      using Cons.prems(3)[of k v ?tail] by (simp add: m)
    have sk: "skip_ws ?tail = CHR '','' # CHR 0x0A # more" by (simp add: skip_ws_Cons)
    have "parse_members ([CHR 0x0A] @ join_with ('','' @ [CHR 0x0A])
                   (map (\<lambda>(k, v). pad @ quote k @ '': '' @ stringify i v) ms) @ W2 @ CHR ''}'' # rest) = Some (ms, rest)"
      by (rule Cons.IH) (use Cons Cons.prems(3) in auto)
    then have rec: "parse_members (CHR 0x0A # more) = Some (ms, rest)" by (simp add: more_def)
    have "parse_members ?s = Some ((k, v) # ms, rest)"
      by (rule parse_members_more[OF key str colon _ val sk _ rec]) simp_all
    then show ?thesis by (simp add: Cons m more_def)
  qed
qed


lemma foldl_update_distinct:
  "distinct (map fst (acc @ ms)) \<Longrightarrow>
     foldl (\<lambda>acc (k, v). AList.update k v acc) acc ms = acc @ ms"
proof (induction ms arbitrary: acc)
  case Nil
  then show ?case by simp
next
  case (Cons m ms)
  obtain k v where m: "m = (k, v)" by (cases m)
  from Cons.prems have "k \<notin> fst ` set acc" by (auto simp add: m)
  then have u: "AList.update k v acc = acc @ [(k, v)]" by (induction acc) auto
  from Cons.prems have "distinct (map fst ((acc @ [(k, v)]) @ ms))" by (simp add: m)
  from Cons.IH[OF this] show ?case by (simp add: m u)
qed

lemma object_of_distinct: "distinct (map fst ms) \<Longrightarrow> object_of ms = JObj ms"
  using foldl_update_distinct[of "[]" ms] by (simp add: object_of_def)

lemma ws_replicate: "list_all is_ws (replicate n CHR '' '')" "list_all is_ws (CHR 0x0A # replicate n CHR '' '')"
  by (simp_all add: list_all_iff)

lemma parse_stringify:
  "encodable v \<Longrightarrow> number_end rest \<Longrightarrow> parse_value (stringify ind v @ rest) = Some (v, rest)"
proof (induction v arbitrary: ind rest)
  case JNull
  then show ?case by (simp add: starts_with_def)
next
  case (JBool b)
  then show ?case by (simp add: starts_with_def)
next
  case (JNum i)
  from int_toString_hd[of i] obtain c cs where h: "int_toString i = c # cs" "c = CHR ''-'' \<or> is_digit c" by blast
  from parse_value_number[OF h(2), of "cs @ rest"] parse_int_toString[OF JNum.prems(2), of i]
  show ?case by (simp add: h(1))
next
  case (JDec neg s n)
  then have c: "canonical s" "n < int (length s)" by simp_all
  from dec_toString_hd[OF c, of neg] obtain d ds where h: "dec_toString neg s n = d # ds" "d = CHR ''-'' \<or> is_digit d" by blast
  from parse_value_number[OF h(2), of "ds @ rest"] parse_dec_toString[OF c JDec.prems(2), of neg]
  show ?case by (simp add: h(1))
next
  case JNaN
  then show ?case by simp
next
  case (JInf neg)
  then show ?case by simp
next
  case (JStr s)
  have "parse_string (concat (map escape_char s) @ CHR 0x22 # rest) = Some (s, rest)" by (rule parse_string_quote)
  then show ?case by (simp add: quote_def)
next
  case (JArr xs)
  show ?case
  proof (cases "xs = []")
    case True
    then show ?thesis by (simp add: skip_ws_Cons)
  next
    case False
    define body where "body = join_with ('','' @ [CHR 0x0A])
        (map (\<lambda>x. replicate (ind + 2) CHR '' '' @ stringify (ind + 2) x) xs)"
    define pad where "pad = replicate (ind + 2) CHR '' ''"
    define W2 where "W2 = CHR 0x0A # replicate ind CHR '' ''"
    from False obtain x xs' where xs: "xs = x # xs'" by (cases xs) auto
    from JArr.prems(1) have "encodable x" by (simp add: xs)
    from stringify_hd[OF this, of "ind + 2"] obtain c cs
      where hd: "stringify (ind + 2) x = c # cs" "\<not> is_ws c" "c \<noteq> CHR '']''" by blast
    have "\<exists>t. body = pad @ c # t" unfolding body_def xs pad_def using hd(1) by (cases xs') simp_all
    then obtain t where body: "body = pad @ c # t" by blast
    have pad: "list_all is_ws pad" and W2: "list_all is_ws W2"
      by (simp_all add: pad_def W2_def list_all_iff)
    have first: "skip_ws (CHR 0x0A # body @ W2 @ CHR '']'' # rest) = c # t @ W2 @ CHR '']'' # rest"
      unfolding body using pad hd(2) skip_ws_append[of "CHR 0x0A # pad"] by (simp add: skip_ws_Cons)
    have IH: "\<And>x r. x \<in> set xs \<Longrightarrow> number_end r \<Longrightarrow> parse_value (stringify (ind + 2) x @ r) = Some (x, r)"
      using JArr.IH JArr.prems(1) by (simp add: list_all_iff)
    have "parse_elements ([CHR 0x0A] @ join_with ('','' @ [CHR 0x0A]) (map (\<lambda>x. pad @ stringify (ind + 2) x) xs) @ W2 @ CHR '']'' # rest)
            = Some (xs, rest)"
      by (rule parse_elements_join[OF IH pad W2 False]) simp_all
    then have el: "parse_elements (CHR 0x0A # body @ W2 @ CHR '']'' # rest) = Some (xs, rest)"
      by (simp add: body_def pad_def)
    have "stringify ind (JArr xs) @ rest = CHR ''['' # CHR 0x0A # body @ W2 @ CHR '']'' # rest"
      using False by (simp add: body_def W2_def)
    then show ?thesis using first el hd(3) by simp
  qed
next
  case (JObj ms)
  show ?case
  proof (cases "ms = []")
    case True
    then show ?thesis by (simp add: skip_ws_Cons)
  next
    case False
    define pad where "pad = replicate (ind + 2) CHR '' ''"
    define body where "body = join_with ('','' @ [CHR 0x0A])
        (map (\<lambda>(k, v). pad @ quote k @ '': '' @ stringify (ind + 2) v) ms)"
    define W2 where "W2 = CHR 0x0A # replicate ind CHR '' ''"
    from False obtain k v ms' where ms: "ms = (k, v) # ms'" by (cases ms) auto
    have "\<exists>t. body = pad @ CHR 0x22 # t" unfolding body_def ms by (cases ms') (simp_all add: quote_def)
    then obtain t where body: "body = pad @ CHR 0x22 # t" by blast
    have pad: "list_all is_ws pad" and W2: "list_all is_ws W2"
      by (simp_all add: pad_def W2_def list_all_iff)
    have first: "skip_ws (CHR 0x0A # body @ W2 @ CHR ''}'' # rest) = CHR 0x22 # t @ W2 @ CHR ''}'' # rest"
      unfolding body using pad skip_ws_append[of "CHR 0x0A # pad"] by (simp add: skip_ws_Cons)
    have IH: "\<And>k v r. (k, v) \<in> set ms \<Longrightarrow> number_end r \<Longrightarrow> parse_value (stringify (ind + 2) v @ r) = Some (v, r)"
    proof -
      fix k v r assume kv: "(k, v) \<in> set ms" and r: "number_end r"
      from kv JObj.prems(1) have "encodable v" by (auto simp add: list_all_iff)
      moreover from kv have "v \<in> Basic_BNFs.snds (k, v)" by simp
      ultimately show "parse_value (stringify (ind + 2) v @ r) = Some (v, r)"
        using JObj.IH[OF kv _ _ r] by blast
    qed
    have "parse_members ([CHR 0x0A] @ body @ W2 @ CHR ''}'' # rest) = Some (ms, rest)"
      unfolding body_def by (rule parse_members_join[OF IH pad W2 False]) simp_all
    then have el: "parse_members (CHR 0x0A # body @ W2 @ CHR ''}'' # rest) = Some (ms, rest)" by simp
    have "stringify ind (JObj ms) @ rest = CHR ''{'' # CHR 0x0A # body @ W2 @ CHR ''}'' # rest"
      using False by (simp add: body_def W2_def pad_def)
    moreover have "object_of ms = JObj ms" using JObj.prems(1) by (simp add: object_of_distinct)
    ultimately show ?thesis using first el by simp
  qed
qed

lemma JSON_round_trip: "encodable v \<Longrightarrow> JSON_parse (JSON_stringify v) = Inr v"
  using parse_stringify[of v "[]" 0] by (simp add: JSON_parse_def JSON_stringify_def skip_ws_def)

section \<open>The file system\<close>

text \<open>
  What \<open>store\<close> changes, what path resolution depends on, and what \<open>mkdirp\<close> leaves
  behind: entries that exist stay as they are, and what is new is a directory.
\<close>

lemma kind_Directory: "(kind n = Directory) = (\<exists>es. n = Dir es)"
  by (cases n) simp_all

lemma lookup_snoc_parent:
  "lookup t (p @ [s]) = Some n \<Longrightarrow> \<exists>es. lookup t p = Some (Dir es)"
proof (induction p arbitrary: t)
  case Nil
  then show ?case by (cases t) simp_all
next
  case (Cons a p)
  then show ?case by (cases t) (auto split: option.splits)
qed

lemma stat_root: "stat fs [] = Some Directory"
  by (simp add: stat_def)

lemma stat_butlast: "stat fs p \<noteq> None \<Longrightarrow> stat fs (butlast p) = Some Directory"
proof (cases p rule: rev_cases)
  case Nil
  then show ?thesis by (simp add: stat_root)
next
  case (snoc q s)
  assume "stat fs p \<noteq> None"
  then obtain n where "lookup (Dir fs) (q @ [s]) = Some n" by (auto simp add: stat_def snoc)
  from lookup_snoc_parent[OF this] show ?thesis by (auto simp add: stat_def snoc)
qed

lemma put_Dir: "p \<noteq> [] \<Longrightarrow> \<exists>es'. put (Dir es) p new = Dir es'"
  by (cases p) (auto split: option.splits)

lemma put_kind:
  assumes "p \<noteq> []"
    and "map_option kind (lookup t (butlast p)) = Some Directory"
    and "map_option kind (lookup t p) \<noteq> Some Directory"
    and "\<And>r. r \<noteq> [] \<Longrightarrow> lookup new r = None"
  shows "map_option kind (lookup (put t p new) q)
           = (if q = p then Some (kind new) else map_option kind (lookup t q))"
  using assms
proof (induction p arbitrary: t q)
  case Nil
  then show ?case by simp
next
  case (Cons s ss)
  show ?case
  proof (cases ss)
    case Nil
    from Cons.prems(2) obtain es where t: "t = Dir es" by (auto simp add: Nil kind_Directory)
    show ?thesis
    proof (cases q)
      case Nil
      then show ?thesis by (simp add: t \<open>ss = []\<close>)
    next
      case (Cons a r)
      show ?thesis
      proof (cases "a = s")
        case True
        show ?thesis
        proof (cases "r = []")
          case True
          then show ?thesis by (simp add: t \<open>ss = []\<close> Cons \<open>a = s\<close> update_conv')
        next
          case False
          have "lookup new r = None" using False by (rule Cons.prems(4))
          moreover have "lookup t (s # r) = None"
          proof (cases "map_of es s")
            case None
            then show ?thesis by (simp add: t)
          next
            case (Some n)
            with Cons.prems(3) have "\<exists>c. n = File c" by (cases n) (auto simp add: t \<open>ss = []\<close>)
            with Some False show ?thesis by (cases r) (auto simp add: t)
          qed
          ultimately show ?thesis using False by (simp add: t \<open>ss = []\<close> Cons True update_conv')
        qed
      next
        case False
        then show ?thesis by (simp add: t \<open>ss = []\<close> Cons update_conv')
      qed
    qed
  next
    case (Cons s2 ss2)
    from Cons.prems(2) obtain es n where t: "t = Dir es" and n: "map_of es s = Some n"
      by (cases t) (auto simp add: Cons split: option.splits)
    have parent: "map_option kind (lookup n (butlast ss)) = Some Directory"
      using Cons.prems(2) by (simp add: t n Cons)
    have target: "map_option kind (lookup n ss) \<noteq> Some Directory"
      using Cons.prems(3) by (simp add: t n)
    have ne: "ss \<noteq> []" by (simp add: Cons)
    note IH = Cons.IH[OF ne parent target Cons.prems(4)]
    show ?thesis
    proof (cases q)
      case Nil
      then show ?thesis by (simp add: t n ne)
    next
      case (Cons a r)
      then show ?thesis using IH[of r] by (auto simp add: t n ne update_conv' split: if_splits)
    qed
  qed
qed

lemma store_stat:
  assumes "stat fs (butlast p) = Some Directory" and "stat fs p \<noteq> Some Directory"
    and "new = File c \<or> new = Dir []"
  shows "stat (store fs p new) q = (if q = p then Some (kind new) else stat fs q)"
proof -
  have ne: "p \<noteq> []" using assms(2) by (auto simp add: stat_root)
  from put_Dir[OF ne, of fs new] obtain es' where es': "put (Dir fs) p new = Dir es'" by blast
  have below: "\<And>r. r \<noteq> [] \<Longrightarrow> lookup new r = None"
  proof -
    fix r :: "string list" assume "r \<noteq> []"
    then show "lookup new r = None" using assms(3) by (cases r) auto
  qed
  from put_kind[OF ne assms(1)[unfolded stat_def] assms(2)[unfolded stat_def] below, of q]
  show ?thesis by (simp add: stat_def store_def es')
qed

lemma walk_cong_dirs:
  assumes "\<And>q. (stat fs' q = Some Directory) = (stat fs q = Some Directory)"
  shows "walk fs' cur ss = walk fs cur ss"
  by (induction ss arbitrary: cur) (simp_all add: assms)

lemma walk_parent:
  "walk fs cur ss = Some q \<Longrightarrow> ss \<noteq> [] \<Longrightarrow> stat fs (butlast q) = Some Directory"
proof (induction ss arbitrary: cur)
  case Nil
  then show ?case by simp
next
  case (Cons s ss)
  from Cons.prems(1) have cur: "stat fs cur = Some Directory" by (auto split: if_splits)
  then have up: "stat fs (butlast cur) = Some Directory" by (intro stat_butlast) simp
  then have up2: "stat fs (butlast (butlast cur)) = Some Directory" by (intro stat_butlast) simp
  show ?case
  proof (cases "ss = []")
    case True
    with Cons.prems(1) cur up up2 show ?thesis by (auto split: if_splits)
  next
    case False
    with Cons.prems(1) Cons.IH show ?thesis by (auto split: if_splits)
  qed
qed

lemma mkdirp_effect:
  "mkdirp fs cur ss = (ok, fs1) \<Longrightarrow> stat fs cur = Some Directory \<Longrightarrow>
     (\<forall>q. stat fs1 q = stat fs q \<or> (stat fs q = None \<and> stat fs1 q = Some Directory)) \<and>
     (ok \<longrightarrow> (\<exists>d. walk fs1 cur ss = Some d \<and> stat fs1 d = Some Directory))"
proof (induction ss arbitrary: fs cur)
  case Nil
  then show ?case by simp
next
  case (Cons s ss)
  have up: "stat fs (butlast cur) = Some Directory" using Cons.prems(2) by (intro stat_butlast) simp
  consider (stay) "s = [] \<or> s = ''.''" | (up) "s = ''..''" | (name) "s \<noteq> []" "s \<noteq> ''.''" "s \<noteq> ''..''"
    by blast
  then show ?case
  proof cases
    case stay
    with Cons.prems have m: "mkdirp fs cur ss = (ok, fs1)" by auto
    from Cons.IH[OF m Cons.prems(2)]
    have frame: "\<forall>q. stat fs1 q = stat fs q \<or> (stat fs q = None \<and> stat fs1 q = Some Directory)"
      and res: "ok \<longrightarrow> (\<exists>d. walk fs1 cur ss = Some d \<and> stat fs1 d = Some Directory)" by blast+
    from frame Cons.prems(2) have "stat fs1 cur = Some Directory" by (metis option.distinct(1))
    with stay res frame show ?thesis by auto
  next
    case up
    with Cons.prems have m: "mkdirp fs (butlast cur) ss = (ok, fs1)" by auto
    from Cons.IH[OF m \<open>stat fs (butlast cur) = Some Directory\<close>]
    have frame: "\<forall>q. stat fs1 q = stat fs q \<or> (stat fs q = None \<and> stat fs1 q = Some Directory)"
      and res: "ok \<longrightarrow> (\<exists>d. walk fs1 (butlast cur) ss = Some d \<and> stat fs1 d = Some Directory)" by blast+
    from frame Cons.prems(2) have "stat fs1 cur = Some Directory" by (metis option.distinct(1))
    with up res frame show ?thesis by auto
  next
    case name
    show ?thesis
    proof (cases "stat fs (cur @ [s])")
      case None
      define fs' where "fs' = store fs (cur @ [s]) (Dir [])"
      have st: "stat fs' q = (if q = cur @ [s] then Some Directory else stat fs q)" for q
        unfolding fs'_def using store_stat[of fs "cur @ [s]" "Dir []" _ q] Cons.prems(2) None by simp
      from Cons.prems(1) name None have m: "mkdirp fs' (cur @ [s]) ss = (ok, fs1)" by (simp add: fs'_def)
      have "stat fs' (cur @ [s]) = Some Directory" by (simp add: st)
      from Cons.IH[OF m this]
      have frame: "\<forall>q. stat fs1 q = stat fs' q \<or> (stat fs' q = None \<and> stat fs1 q = Some Directory)"
        and res: "ok \<longrightarrow> (\<exists>d. walk fs1 (cur @ [s]) ss = Some d \<and> stat fs1 d = Some Directory)" by blast+
      have frame': "\<forall>q. stat fs1 q = stat fs q \<or> (stat fs q = None \<and> stat fs1 q = Some Directory)"
      proof
        fix q
        from frame have "stat fs1 q = stat fs' q \<or> (stat fs' q = None \<and> stat fs1 q = Some Directory)" ..
        then show "stat fs1 q = stat fs q \<or> (stat fs q = None \<and> stat fs1 q = Some Directory)"
          using None by (cases "q = cur @ [s]") (auto simp add: st)
      qed
      from frame' Cons.prems(2) have "stat fs1 cur = Some Directory" by (metis option.distinct(1))
      with name res frame' show ?thesis by auto
    next
      case (Some e)
      show ?thesis
      proof (cases e)
        case (Regular c)
        with Cons.prems(1) name Some have "ok = False" "fs1 = fs" by auto
        then show ?thesis by simp
      next
        case Directory
        with Cons.prems(1) name Some have m: "mkdirp fs (cur @ [s]) ss = (ok, fs1)" by auto
        from Some Directory have "stat fs (cur @ [s]) = Some Directory" by simp
        from Cons.IH[OF m this]
        have frame: "\<forall>q. stat fs1 q = stat fs q \<or> (stat fs q = None \<and> stat fs1 q = Some Directory)"
          and res: "ok \<longrightarrow> (\<exists>d. walk fs1 (cur @ [s]) ss = Some d \<and> stat fs1 d = Some Directory)" by blast+
        from frame Cons.prems(2) have "stat fs1 cur = Some Directory" by (metis option.distinct(1))
        with name res frame show ?thesis by auto
      qed
    qed
  qed
qed

section \<open>Saving and loading tokens\<close>

lemma segments_nonempty: "segments p \<noteq> []"
  by (cases p) (auto split: list.splits)

text \<open>A successful \<open>writeFileSync\<close> puts a regular file with the data at the location its
  path names, changes nothing else, and leaves every path resolving as before.\<close>

lemma writeFileSync_effect:
  assumes "writeFileSync p data w = (Inr (), w')"
  shows "\<exists>q. resolve w p = Some q \<and>
             w' = w\<lparr>files := store (files w) q (File data)\<rparr> \<and>
             (\<forall>x. stat (files w') x = (if x = q then Some (Regular data) else stat (files w) x)) \<and>
             (\<forall>y. resolve w' y = resolve w y)"
proof -
  from assms obtain q where q: "resolve w p = Some q" and nd: "stat (files w) q \<noteq> Some Directory"
    and w': "w' = w\<lparr>files := store (files w) q (File data)\<rparr>"
    by (auto simp add: writeFileSync_def split: option.splits if_splits)
  from q have "walk (files w) (start_dir w p) (segments p) = Some q"
    by (simp add: resolve_def split: if_splits)
  from walk_parent[OF this segments_nonempty]
  have parent: "stat (files w) (butlast q) = Some Directory" .
  have st: "stat (files w') x = (if x = q then Some (Regular data) else stat (files w) x)" for x
    using store_stat[OF parent nd, of "File data" data x] by (simp add: w')
  have dirs: "(stat (files w') x = Some Directory) = (stat (files w) x = Some Directory)" for x
    using nd by (simp add: st)
  have "resolve w' y = resolve w y" for y
    using walk_cong_dirs[of "files w'" "files w", OF dirs]
    by (simp add: resolve_def start_dir_def w')
  with q w' st show ?thesis by blast
qed

text \<open>A successful \<open>mkdirSync\<close> leaves its path resolving to a directory; entries that
  exist stay as they are, and what is new is a directory.\<close>

lemma mkdirSync_effect:
  assumes "mkdirSync d w = (Inr (), w1)"
  shows "w1 = w\<lparr>files := files w1\<rparr>"
    and "\<And>x. stat (files w1) x = stat (files w) x \<or>
              (stat (files w) x = None \<and> stat (files w1) x = Some Directory)"
    and "\<exists>dd. resolve w1 d = Some dd \<and> stat (files w1) dd = Some Directory"
proof -
  from assms have ne: "d \<noteq> []" and start: "stat (files w) (start_dir w d) = Some Directory"
    by (auto simp add: mkdirSync_def split: if_splits)
  from assms ne start obtain fs where m: "mkdirp (files w) (start_dir w d) (segments d) = (True, fs)"
    and w1: "w1 = w\<lparr>files := fs\<rparr>"
    by (auto simp add: mkdirSync_def split: prod.splits if_splits)
  from w1 show "w1 = w\<lparr>files := files w1\<rparr>" by simp
  from mkdirp_effect[OF m start]
  have frame: "\<forall>q. stat fs q = stat (files w) q \<or> (stat (files w) q = None \<and> stat fs q = Some Directory)"
    and res: "\<exists>dd. walk fs (start_dir w d) (segments d) = Some dd \<and> stat fs dd = Some Directory"
    by blast+
  from frame show "\<And>x. stat (files w1) x = stat (files w) x \<or>
              (stat (files w) x = None \<and> stat (files w1) x = Some Directory)"
    by (simp add: w1)
  have "start_dir w1 d = start_dir w d" by (simp add: start_dir_def w1)
  with res ne show "\<exists>dd. resolve w1 d = Some dd \<and> stat (files w1) dd = Some Directory"
    by (simp add: resolve_def w1)
qed

text \<open>
  C5 (amended). Whenever \<open>saveTokens\<close> returns, for any tokens: the token file holds
  exactly the encoding of the tokens (a full overwrite); the containing directory
  exists, and where it was absent it has been created as a directory; apart from the
  token file, every entry of the file system is as it was or is a new directory made on
  the way to the containing one, and none is new when the containing directory was
  there; and nothing but the file system has changed. If the tokens are encodable (every
  number finite, no member name twice), a following \<open>loadTokens\<close> on the same session
  returns \<^verbatim>\<open>true\<close> and installs a value equal to the saved one when the tokens hold a
  truthy refresh token; otherwise it returns \<^verbatim>\<open>false\<close> and installs nothing.
\<close>

theorem save_then_load:
  assumes "fst (saveTokens oauth tokens w) = Inr ()"
  shows "readFileSync (snd (saveTokens oauth tokens w)) (credentialsPath oauth)
           = Inr (JSON_stringify tokens) \<and>
         existsSync (snd (saveTokens oauth tokens w)) (dirname (credentialsPath oauth)) \<and>
         (\<not> existsSync w (dirname (credentialsPath oauth)) \<longrightarrow>
            (\<exists>d. resolve (snd (saveTokens oauth tokens w)) (dirname (credentialsPath oauth)) = Some d \<and>
                 stat (files (snd (saveTokens oauth tokens w))) d = Some Directory)) \<and>
         (resolve (snd (saveTokens oauth tokens w)) (credentialsPath oauth) \<noteq> Some q \<longrightarrow>
            stat (files (snd (saveTokens oauth tokens w))) q = stat (files w) q \<or>
            (\<not> existsSync w (dirname (credentialsPath oauth)) \<and> stat (files w) q = None \<and>
             stat (files (snd (saveTokens oauth tokens w))) q = Some Directory)) \<and>
         snd (saveTokens oauth tokens w) = w\<lparr>files := files (snd (saveTokens oauth tokens w))\<rparr> \<and>
         (encodable tokens \<longrightarrow>
            loadTokens oauth (snd (saveTokens oauth tokens w)) =
              (if truthy (opt_member (Some tokens) ''refresh_token'')
               then (True, setCredentials oauth tokens) else (False, oauth)))"
proof -
  define p where "p = credentialsPath oauth"
  define d where "d = dirname p"
  define data where "data = JSON_stringify tokens"
  define w2 where "w2 = snd (saveTokens oauth tokens w)"
  define first where "first = (if \<not> existsSync w d then mkdirSync d w else (Inr (), w))"
  obtain r1 w1 where first: "first = (r1, w1)" by (cases first)
  have "saveTokens oauth tokens w =
          (case first of (Inl e, w1) \<Rightarrow> (Inl e, w1) | (Inr u, w1) \<Rightarrow> writeFileSync p data w1)"
    unfolding saveTokens_def Let_def p_def d_def data_def first_def ..
  then have save: "saveTokens oauth tokens w =
                (case r1 of Inl e \<Rightarrow> (Inl e, w1) | Inr u \<Rightarrow> writeFileSync p data w1)"
    by (simp add: first)
  from assms save have r1: "r1 = Inr ()" by (cases r1) auto
  with save have save': "saveTokens oauth tokens w = writeFileSync p data w1" by simp
  with assms have written: "writeFileSync p data w1 = (Inr (), w2)" by (simp add: w2_def prod_eq_iff)
  from writeFileSync_effect[OF written] obtain t where t: "resolve w1 p = Some t"
    and w2: "w2 = w1\<lparr>files := store (files w1) t (File data)\<rparr>"
    and st: "\<And>x. stat (files w2) x = (if x = t then Some (Regular data) else stat (files w1) x)"
    and rs: "\<And>y. resolve w2 y = resolve w1 y"
    by blast
  have same: "w1 = w" if "existsSync w d"
    using that first by (simp add: first_def)
  have made: "mkdirSync d w = (Inr (), w1)" if "\<not> existsSync w d"
    using that first r1 by (simp add: first_def)
  have b1: "w1 = w\<lparr>files := files w1\<rparr>"
  proof (cases "existsSync w d")
    case True
    show ?thesis unfolding same[OF True] by simp
  next
    case False
    show ?thesis by (rule mkdirSync_effect(1)[OF made[OF False]])
  qed
  have b2: "stat (files w1) x = stat (files w) x \<or>
            (\<not> existsSync w d \<and> stat (files w) x = None \<and> stat (files w1) x = Some Directory)" for x
  proof (cases "existsSync w d")
    case True
    show ?thesis unfolding same[OF True] by simp
  next
    case False
    with mkdirSync_effect(2)[OF made[OF False], of x] show ?thesis by blast
  qed
  have b4: "\<exists>dd. resolve w1 d = Some dd \<and> stat (files w1) dd = Some Directory"
    if "\<not> existsSync w d"
    by (rule mkdirSync_effect(3)[OF made[OF that]])
  have b3: "\<exists>dd. resolve w1 d = Some dd \<and> stat (files w1) dd \<noteq> None"
  proof (cases "existsSync w d")
    case True
    then show ?thesis unfolding same[OF True] by (auto simp add: existsSync_def split: option.splits)
  next
    case False
    from b4[OF False] show ?thesis by auto
  qed
  have target: "resolve w2 p = Some t" using rs t by simp
  have read: "readFileSync w2 p = Inr data"
    by (simp add: readFileSync_def target st)
  have not_dir: "stat (files w1) t \<noteq> Some Directory"
    using written t by (auto simp add: writeFileSync_def split: if_splits)
  have dir_exists: "existsSync w2 d"
  proof -
    from b3 obtain dd where dd: "resolve w1 d = Some dd" "stat (files w1) dd \<noteq> None" by blast
    then show ?thesis by (simp add: existsSync_def rs st)
  qed
  have created: "\<exists>dd. resolve w2 d = Some dd \<and> stat (files w2) dd = Some Directory"
    if "\<not> existsSync w d"
  proof -
    from b4[OF that] obtain dd where dd: "resolve w1 d = Some dd" "stat (files w1) dd = Some Directory"
      by blast
    with not_dir have "dd \<noteq> t" by auto
    with dd show ?thesis by (auto simp add: rs st)
  qed
  have frame: "stat (files w2) q = stat (files w) q \<or>
               (\<not> existsSync w d \<and> stat (files w) q = None \<and> stat (files w2) q = Some Directory)"
    if "resolve w2 p \<noteq> Some q"
  proof -
    from that target have "q \<noteq> t" by auto
    then have "stat (files w2) q = stat (files w1) q" by (simp add: st)
    with b2[of q] show ?thesis by simp
  qed
  have rest: "w2 = w\<lparr>files := files w2\<rparr>"
  proof -
    define F where "F = store (files w1) t (File data)"
    have "w1\<lparr>files := F\<rparr> = (w\<lparr>files := files w1\<rparr>)\<lparr>files := F\<rparr>"
      by (rule arg_cong[where f = "\<lambda>v. v\<lparr>files := F\<rparr>", OF b1])
    also have "\<dots> = w\<lparr>files := F\<rparr>" by simp
    finally have "w2 = w\<lparr>files := F\<rparr>" unfolding w2 F_def .
    moreover from this have "files w2 = F" by simp
    ultimately show ?thesis by simp
  qed
  have load: "loadTokens oauth w2 =
                (if truthy (opt_member (Some tokens) ''refresh_token'')
                 then (True, setCredentials oauth tokens) else (False, oauth))"
    if "encodable tokens"
    using read JSON_round_trip[OF that] by (simp add: loadTokens_eq p_def[symmetric] data_def)
  from read dir_exists created frame rest load show ?thesis
    unfolding p_def d_def data_def w2_def by blast
qed

theorem save_then_load_witness:
  "fst (saveTokens demo_session (tokens_object demo_tokens) demo_world) = Inr () \<and>
   encodable (tokens_object demo_tokens) \<and>
   truthy (opt_member (Some (tokens_object demo_tokens)) ''refresh_token'') \<and>
   \<not> existsSync demo_world ''/srv/.credentials'' \<and>
   readFileSync (snd (saveTokens demo_session (tokens_object demo_tokens) demo_world))
     ''/srv/.credentials/tokens.json'' = Inr demo_tokens_text \<and>
   existsSync (snd (saveTokens demo_session (tokens_object demo_tokens) demo_world))
     ''/srv/.credentials'' \<and>
   resolve (snd (saveTokens demo_session (tokens_object demo_tokens) demo_world))
     ''/srv/.credentials/tokens.json'' = Some [''srv'', ''.credentials'', ''tokens.json''] \<and>
   stat (files (snd (saveTokens demo_session (tokens_object demo_tokens) demo_world)))
     [''srv'', ''.credentials''] = Some Directory \<and>
   stat (files demo_world) [''srv'', ''.credentials''] = None \<and>
   stat (files (snd (saveTokens demo_session (tokens_object demo_tokens) demo_world))) [''srv'']
     = stat (files demo_world) [''srv''] \<and>
   loadTokens demo_session (snd (saveTokens demo_session (tokens_object demo_tokens) demo_world))
     = (True, setCredentials demo_session (tokens_object demo_tokens))"
proof -
  have h1: "fst (saveTokens demo_session (tokens_object demo_tokens) demo_world) = Inr ()"
    by code_simp
  have h2: "encodable (tokens_object demo_tokens)"
    by code_simp
  have h3: "truthy (opt_member (Some (tokens_object demo_tokens)) ''refresh_token'')"
    by code_simp
  have h4: "\<not> existsSync demo_world ''/srv/.credentials''"
    by code_simp
  have h5: "credentialsPath demo_session = ''/srv/.credentials/tokens.json''"
    "dirname ''/srv/.credentials/tokens.json'' = ''/srv/.credentials''"
    "JSON_stringify (tokens_object demo_tokens) = demo_tokens_text"
    by code_simp+
  have h6: "resolve (snd (saveTokens demo_session (tokens_object demo_tokens) demo_world))
     ''/srv/.credentials/tokens.json'' = Some [''srv'', ''.credentials'', ''tokens.json'']"
    "stat (files (snd (saveTokens demo_session (tokens_object demo_tokens) demo_world)))
       [''srv'', ''.credentials''] = Some Directory"
    "stat (files demo_world) [''srv'', ''.credentials''] = None"
    "stat (files (snd (saveTokens demo_session (tokens_object demo_tokens) demo_world))) [''srv'']
       = stat (files demo_world) [''srv'']"
    by code_simp+
  from save_then_load[OF h1, where q = "[''srv'']"] h1 h2 h3 h4 h5 h6
  show ?thesis by simp
qed

text \<open>The round trip as first claimed, for every token set, fails in two ways. Tokens
  without a refresh token are stored, but \<open>loadTokens\<close> returns \<^verbatim>\<open>false\<close> and the session
  keeps the credentials it had. Tokens whose expiry date is \<^verbatim>\<open>NaN\<close> are stored with
  \<^verbatim>\<open>null\<close> in its place, and that is what \<open>loadTokens\<close> installs.\<close>

theorem access_only_counterexample:
  "fst (saveTokens demo_session (tokens_object access_only) demo_world) = Inr () \<and>
   encodable (tokens_object access_only) \<and>
   fst (loadTokens demo_session
          (snd (saveTokens demo_session (tokens_object access_only) demo_world))) = False \<and>
   credentials (oauth2Client (snd (loadTokens demo_session
          (snd (saveTokens demo_session (tokens_object access_only) demo_world)))))
     \<noteq> tokens_object access_only \<and>
   fst (saveTokens demo_session nan_tokens demo_world) = Inr () \<and>
   truthy (opt_member (Some nan_tokens) ''refresh_token'') \<and>
   loadTokens demo_session (snd (saveTokens demo_session nan_tokens demo_world))
     = (True, setCredentials demo_session null_tokens) \<and>
   null_tokens \<noteq> nan_tokens"
  by code_simp

section \<open>A refresh that fails\<close>

text \<open>
  C2 (amended). When the session holds a refresh token and the token endpoint rejects
  the refresh, \<open>refreshAccessToken\<close> passes that very error to its caller after one
  request (the trace grows by a single entry: no retry), and leaves the session and the
  file system as they were; the session still holds its refresh token, so
  \<open>isAuthenticated\<close> still answers \<^verbatim>\<open>true\<close>.
\<close>

theorem refresh_failure:
  assumes "truthy (get_member (credentials (oauth2Client oauth)) ''refresh_token'')"
    and "refreshToken w (credentials (oauth2Client oauth)) = Inl e"
  shows "refreshAccessToken oauth w = (Inl e, oauth, log_event (Request ''oauth2.token'') w) \<and>
         isAuthenticated (fst (snd (refreshAccessToken oauth w))) \<and>
         files (snd (snd (refreshAccessToken oauth w))) = files w"
proof -
  from assms(1) obtain rt where rt: "get_member (credentials (oauth2Client oauth)) ''refresh_token'' = Some rt"
    "truthy_json rt" by (cases "get_member (credentials (oauth2Client oauth)) ''refresh_token''") auto
  then have nn: "credentials (oauth2Client oauth) \<noteq> JNull" by (auto dest: get_member_Some_not_null)
  have "client_refreshAccessToken (oauth2Client oauth) w =
          (Inl e, oauth2Client oauth, log_event (Request ''oauth2.token'') w)"
    using rt assms(2) by (simp add: client_refreshAccessToken_def opt_member_Some[OF nn] Let_def log_event_def)
  then have "refreshAccessToken oauth w = (Inl e, oauth, log_event (Request ''oauth2.token'') w)"
    by (simp add: refreshAccessToken_def)
  then show ?thesis using assms(1) by (simp add: isAuthenticated_refresh_token log_event_def)
qed

theorem refresh_failure_witness:
  "truthy (get_member (credentials (oauth2Client signed_in_session)) ''refresh_token'') \<and>
   refreshToken running_world (credentials (oauth2Client signed_in_session))
     = Inl (Error ''invalid_grant'') \<and>
   fst (refreshAccessToken signed_in_session running_world) = Inl (Error ''invalid_grant'') \<and>
   fst (snd (refreshAccessToken signed_in_session running_world)) = signed_in_session \<and>
   trace (snd (snd (refreshAccessToken signed_in_session running_world)))
     = [Request ''oauth2.token'']"
proof -
  have h1: "truthy (get_member (credentials (oauth2Client signed_in_session)) ''refresh_token'')"
    by code_simp
  have h2: "refreshToken running_world (credentials (oauth2Client signed_in_session))
              = Inl (Error ''invalid_grant'')"
    by code_simp
  have h3: "trace running_world = []"
    by code_simp
  from refresh_failure[OF h1 h2] h1 h2 h3
  show ?thesis by (simp add: log_event_def)
qed

text \<open>The claim as first stated has the session unauthenticated after the failure. In
  \<open>running_world\<close> the endpoint rejects the refresh, and afterwards both
  \<open>isAuthenticated\<close> and the dispatcher's \<open>checkAuth\<close> still answer \<^verbatim>\<open>true\<close>.\<close>

theorem refresh_failure_counterexample:
  "isAuthenticated signed_in_session \<and>
   fst (refreshAccessToken signed_in_session running_world) = Inl (Error ''invalid_grant'') \<and>
   isAuthenticated (fst (snd (refreshAccessToken signed_in_session running_world))) \<and>
   fst (checkAuth (snd (snd (refreshAccessToken signed_in_session running_world))))"
  by code_simp

section \<open>The tool listing\<close>

text \<open>The HTTP transport answers \<^verbatim>\<open>tools/list\<close> with the fixed list \<open>tools\<close> of five
  descriptors, in any world (whatever the authentication state) and without touching
  it: no authentication check runs.\<close>

lemma tools_list_fixed:
  assumes "get_member request ''jsonrpc'' = Some (JStr ''2.0'')"
    and "get_member request ''method'' = Some (JStr ''tools/list'')"
  shows "handleJsonRpc w request = (Inr (Result (ToolList tools) (get_member request ''id'')), w)"
proof -
  have "request \<noteq> JNull" using assms(1) by (rule get_member_Some_not_null)
  then show ?thesis using assms by (simp add: handleJsonRpc_def member_Some)
qed

lemma tools_list_any_auth_state:
  "fst (handleJsonRpc demo_world list_request) = fst (handleJsonRpc running_world list_request)"
  "fst (checkAuth demo_world) = False" "fst (checkAuth running_world) = True"
  by code_simp+

lemma five_tools: "length tools = 5" "length createServer = 5"
  by (simp_all add: tools_def createServer_def)

text \<open>The two listings agree on the tool names, the tool descriptions, the parameter
  names and types and the required parameters.\<close>

lemma listings_agree_on_names:
  "map fst stdio_listing = map fst http_listing"
  "map (\<lambda>(n, d, ps, r). d) stdio_listing = map (\<lambda>(n, d, ps, r). d) http_listing"
  "map (\<lambda>(n, d, ps, r). map (\<lambda>(k, ty, de). (k, ty)) ps) stdio_listing
     = map (\<lambda>(n, d, ps, r). map (\<lambda>(k, ty, de). (k, ty)) ps) http_listing"
  "map (\<lambda>(n, d, ps, r). r) stdio_listing = map (\<lambda>(n, d, ps, r). r) http_listing"
  by code_simp+

text \<open>
  C8. The listings of the two transports are not identical: the description of the
  \<^verbatim>\<open>range\<close> parameter of \<^verbatim>\<open>get_sheet_data\<close> in the HTTP listing stops at
  \<^verbatim>\<open>(e.g., 'Sheet1!A1:D10')\<close>, where the registration behind the stdio listing goes on
  with \<^verbatim>\<open>or 'A1:D10'\<close>. Among the names, descriptions, parameters, types and required
  sets compared, this entry is the only difference.
\<close>

theorem listings_differ:
  \<open>stdio_listing \<noteq> http_listing \<and>
   stdio_listing ! 3 =
     (''get_sheet_data'', ''Read data from a specific range in a Google Spreadsheet'',
      [(''spreadsheetId'', ''string'', ''The spreadsheet ID or full Google Sheets URL''),
       (''range'', ''string'',
        ''The A1 notation range to read (e.g., 'Sheet1!A1:D10' or 'A1:D10')'')],
      [''spreadsheetId'', ''range'']) \<and>
   http_listing ! 3 =
     (''get_sheet_data'', ''Read data from a specific range in a Google Spreadsheet'',
      [(''spreadsheetId'', ''string'', ''The spreadsheet ID or full Google Sheets URL''),
       (''range'', ''string'', ''The A1 notation range to read (e.g., 'Sheet1!A1:D10')'')],
      [''spreadsheetId'', ''range'']) \<and>
   stdio_listing = http_listing[3 := stdio_listing ! 3]\<close>
  by code_simp

end
